theory Spec2Isabelle
  imports Complex_Main "HOL-Library.Char_ord" "HOL-Library.List_Lexorder"
    "HOL-Library.Product_Lexorder" "HOL-Library.Sublist" "HOL-Library.Log_Nat"
begin

section \<open>Conventions of the embedding\<close>

text \<open>
  The two scripts \<^verbatim>\<open>process-worthpoint-csvs.py\<close> and
  \<^verbatim>\<open>import-worthpoint-to-supabase.py\<close> are embedded function by function.

  \<^item> A Python \<^verbatim>\<open>str\<close> is a \<open>string\<close>; one \<open>char\<close> stands for one code point
    below 256, compared by code point as Python compares strings.
  \<^item> A Python \<^verbatim>\<open>float\<close> is a \<open>double\<close>: a rational number that binary64 represents
    with its 53 bits of precision. Every operation computes the exact result and rounds
    it to the nearest such number, a tie going to the even mantissa, as IEEE 754 does.
    The exponent is unbounded: overflow to \<^verbatim>\<open>inf\<close>, \<^verbatim>\<open>nan\<close>, the signed zero and the
    loss of precision below \<open>2\<^sup>-\<^sup>1\<^sup>0\<^sup>2\<^sup>2\<close> have no counterpart.
  \<^item> \<^verbatim>\<open>None\<close> is \<open>None\<close>; a value that may be \<^verbatim>\<open>None\<close> has an option type.
  \<^item> A raised exception is a value \<open>Inl e\<close> of a sum type.
  \<^item> A row that \<^verbatim>\<open>csv.DictReader\<close> yields is a map from column names to cells. In
    the scraped files a cell is a text or, on a line with too few fields, \<^verbatim>\<open>None\<close>;
    the merged table is written with every column, so its cells are texts.
  \<^item> Library calls whose behaviour the scripts do not fix (\<^verbatim>\<open>float\<close> on an
    arbitrary cell, \<^verbatim>\<open>datetime.strptime\<close>) are parameters of the functions that
    call them. The parameter for \<^verbatim>\<open>float\<close> returns a \<open>double\<close>, or \<open>None\<close> where
    \<^verbatim>\<open>float\<close> raises: the cells \<^verbatim>\<open>inf\<close> and \<^verbatim>\<open>nan\<close>, which \<^verbatim>\<open>float\<close> accepts,
    have no counterpart.
\<close>

datatype error = ValueError | KeyError | AttributeError | TypeError | StatisticsError

section \<open>Python primitives\<close>

definition round_half_even :: "rat \<Rightarrow> int" where
  "round_half_even x =
     (let f = \<lfloor>x\<rfloor>; d = x - of_int f
      in if d < 1 / 2 then f
         else if 1 / 2 < d then f + 1
         else if even f then f else f + 1)"

subsection \<open>Floats\<close>

definition pow2 :: "int \<Rightarrow> rat" where
  "pow2 k = (if 0 \<le> k then 2 ^ nat k else 1 / 2 ^ nat (- k))"

definition ilog2 :: "rat \<Rightarrow> int" where
  \<comment> \<open>For \<open>x > 0\<close>, the \<open>k\<close> with \<open>2\<^sup>k \<le> x < 2\<^sup>k\<^sup>+\<^sup>1\<close>.\<close>
  "ilog2 x =
     (if 1 \<le> x then bitlen \<lfloor>x\<rfloor> - 1
      else (let k = bitlen \<lfloor>1 / x\<rfloor> - 1 in if x = pow2 (- k) then - k else - k - 1))"

definition to_double :: "rat \<Rightarrow> rat" where
  \<comment> \<open>Rounding to 53 bits: the mantissa \<open>x / 2\<^sup>e\<close> lies between \<open>2\<^sup>5\<^sup>2\<close> and \<open>2\<^sup>5\<^sup>3\<close>.\<close>
  "to_double x =
     (if x = 0 then 0
      else (let e = ilog2 \<bar>x\<bar> - 52
            in of_int (round_half_even (x / pow2 e)) * pow2 e))"

typedef double = "range to_double"
  by blast

definition val :: "double \<Rightarrow> rat" where
  "val a = Rep_double a"

definition dbl :: "rat \<Rightarrow> double" where
  \<comment> \<open>The float nearest to a number: a literal, or \<^verbatim>\<open>float\<close> of a decimal text.\<close>
  "dbl x = Abs_double (to_double x)"

definition fadd :: "double \<Rightarrow> double \<Rightarrow> double" where
  "fadd a b = dbl (val a + val b)"

definition fmul :: "double \<Rightarrow> double \<Rightarrow> double" where
  "fmul a b = dbl (val a * val b)"

definition fdiv :: "double \<Rightarrow> double \<Rightarrow> double" where
  \<comment> \<open>\<^verbatim>\<open>a / b\<close> for \<open>b\<close> other than zero; the scripts divide by nothing else.\<close>
  "fdiv a b = dbl (val a / val b)"

definition flt :: "double \<Rightarrow> double \<Rightarrow> bool" where
  \<comment> \<open>\<^verbatim>\<open>a < b\<close>\<close>
  "flt a b = (val a < val b)"

definition py_round :: "double \<Rightarrow> nat \<Rightarrow> double" where
  \<comment> \<open>\<^verbatim>\<open>round(a, n)\<close>: the exact value of \<open>a\<close> is rounded to \<open>n\<close> decimals, a tie going
    to the even digit, and the float nearest to that decimal is returned.\<close>
  "py_round a n = dbl (of_int (round_half_even (val a * 10 ^ n)) / 10 ^ n)"

subsection \<open>Integers as text\<close>

definition digit_char :: "nat \<Rightarrow> char" where
  "digit_char d = char_of (48 + d)"

fun str_nat_aux :: "nat \<Rightarrow> nat \<Rightarrow> string \<Rightarrow> string" where
  "str_nat_aux 0 n acc = acc"
| "str_nat_aux (Suc fuel) n acc =
     (if n < 10 then digit_char n # acc
      else str_nat_aux fuel (n div 10) (digit_char (n mod 10) # acc))"

definition str_nat :: "nat \<Rightarrow> string" where
  \<comment> \<open>\<^verbatim>\<open>str(n)\<close> for a non-negative integer; \<open>n\<close> has at most \<open>n + 1\<close> digits.\<close>
  "str_nat n = str_nat_aux (Suc n) n []"

subsection \<open>Strings\<close>

definition is_digit :: "char \<Rightarrow> bool" where
  \<comment> \<open>\<^verbatim>\<open>\d\<close>: the decimal digits below code point 256 are \<open>0\<close> to \<open>9\<close>.\<close>
  "is_digit c = (let n = of_char c :: nat in 48 \<le> n \<and> n \<le> 57)"

definition is_space :: "char \<Rightarrow> bool" where
  \<comment> \<open>\<^verbatim>\<open>str.isspace\<close> and \<^verbatim>\<open>\s\<close> below code point 256: tab to carriage return,
    the four separators \<open>0x1c\<close> to \<open>0x1f\<close>, the space, \<open>0x85\<close> and \<open>0xa0\<close>.\<close>
  "is_space c =
     (let n = of_char c :: nat
      in (9 \<le> n \<and> n \<le> 13) \<or> (28 \<le> n \<and> n \<le> 32) \<or> n = 133 \<or> n = 160)"

definition lower_char :: "char \<Rightarrow> char" where
  \<comment> \<open>\<^verbatim>\<open>str.lower\<close> on one code point below 256: \<open>A\<close> to \<open>Z\<close> and the accented
    capitals \<open>0xc0\<close> to \<open>0xde\<close> (the multiplication sign \<open>0xd7\<close> apart) move up by 32.\<close>
  "lower_char c =
     (let n = of_char c :: nat
      in if (65 \<le> n \<and> n \<le> 90) \<or> (192 \<le> n \<and> n \<le> 222 \<and> n \<noteq> 215)
         then char_of (n + 32) else c)"

definition lower :: "string \<Rightarrow> string" where
  "lower s = map lower_char s"

definition strip :: "string \<Rightarrow> string" where
  "strip s = rev (dropWhile is_space (rev (dropWhile is_space s)))"

fun contains :: "string \<Rightarrow> string \<Rightarrow> bool" where
  \<comment> \<open>\<open>contains t s\<close> is \<^verbatim>\<open>s in t\<close>.\<close>
  "contains [] s = (s = [])"
| "contains (c # cs) s = (prefix s (c # cs) \<or> contains cs s)"

definition truthy :: "string option \<Rightarrow> bool" where
  \<comment> \<open>The truth value of a cell: \<^verbatim>\<open>None\<close> and the empty string are false.\<close>
  "truthy x = (case x of None \<Rightarrow> False | Some s \<Rightarrow> s \<noteq> [])"

definition py_or :: "string option \<Rightarrow> string option \<Rightarrow> string option" where
  \<comment> \<open>\<^verbatim>\<open>a or b\<close>.\<close>
  "py_or a b = (if truthy a then a else b)"

definition digit_value :: "char \<Rightarrow> nat" where
  "digit_value c = of_char c - 48"

definition digits_value :: "string \<Rightarrow> nat" where
  "digits_value ds = foldl (\<lambda>n c. 10 * n + digit_value c) 0 ds"

definition float_of_decimal :: "string \<Rightarrow> double option" where
  \<comment> \<open>\<^verbatim>\<open>float(s)\<close> for \<open>s\<close> made of digits, an optional point and digits, as the
    number group of the unit patterns captures it; \<open>None\<close> elsewhere.\<close>
  "float_of_decimal s =
     (let ip = takeWhile is_digit s; rest = dropWhile is_digit s
      in if ip = [] then None
         else case rest of
                [] \<Rightarrow> Some (dbl (of_nat (digits_value ip)))
              | c # fp \<Rightarrow>
                  if c = CHR ''.'' \<and> list_all is_digit fp
                  then Some (dbl (of_nat (digits_value ip)
                                  + of_nat (digits_value fp) / 10 ^ length fp))
                  else None)"

subsection \<open>Dictionaries of lists\<close>

text \<open>\<^verbatim>\<open>d[key].append(v)\<close> on a \<^verbatim>\<open>defaultdict(list)\<close>: the dictionary is an
  association list in insertion order, as Python iterates it.\<close>

fun dict_append :: "'k \<Rightarrow> 'v \<Rightarrow> ('k \<times> 'v list) list \<Rightarrow> ('k \<times> 'v list) list" where
  "dict_append key v [] = [(key, [v])]"
| "dict_append key v ((k, vs) # g) =
     (if k = key then (k, vs @ [v]) # g else (k, vs) # dict_append key v g)"

section \<open>Regular expressions of the unit patterns\<close>

text \<open>The fragment of \<^verbatim>\<open>re\<close> that the patterns of \<^verbatim>\<open>extract_weight\<close> use, with the
  flag \<^verbatim>\<open>re.IGNORECASE\<close>: a literal stands for both of its cases.\<close>

datatype cclass = Digit | Space | Ch char

fun in_class :: "cclass \<Rightarrow> char \<Rightarrow> bool" where
  "in_class Digit c = is_digit c"
| "in_class Space c = is_space c"
| "in_class (Ch x) c = (lower_char c = lower_char x)"

datatype regex =
    Eps
  | Atom cclass
  | Eos
  | Seq regex regex
  | Alt regex regex
  | Opt regex
  | Star cclass
  | Plus cclass
  | Group regex

text \<open>The ends of the greedy repetition of a class, longest first.\<close>

fun star_rests :: "cclass \<Rightarrow> string \<Rightarrow> string list" where
  "star_rests k [] = [[]]"
| "star_rests k (c # cs) = (if in_class k c then star_rests k cs @ [c # cs] else [c # cs])"

text \<open>The backtracking matcher: \<open>matches r s\<close> lists, in the order in which \<^verbatim>\<open>re\<close>
  tries them, the ways \<open>r\<close> matches a prefix of \<open>s\<close>, each as the text of the group
  (if the group took part) and the rest of \<open>s\<close>. \<^verbatim>\<open>$\<close> matches at the end of the
  text and before a line feed that ends it.\<close>

fun matches :: "regex \<Rightarrow> string \<Rightarrow> (string option \<times> string) list" where
  "matches Eps s = [(None, s)]"
| "matches (Atom k) s =
     (case s of [] \<Rightarrow> [] | c # cs \<Rightarrow> if in_class k c then [(None, cs)] else [])"
| "matches Eos s = (if s = [] \<or> s = [CHR 0x0A] then [(None, s)] else [])"
| "matches (Seq r1 r2) s =
     concat (map (\<lambda>(g1, s1). map (\<lambda>(g2, s2). (case g2 of None \<Rightarrow> g1 | Some g \<Rightarrow> Some g, s2))
                                   (matches r2 s1))
                 (matches r1 s))"
| "matches (Alt r1 r2) s = matches r1 s @ matches r2 s"
| "matches (Opt r) s = matches r s @ [(None, s)]"
| "matches (Star k) s = map (Pair None) (star_rests k s)"
| "matches (Plus k) s =
     (case s of [] \<Rightarrow> []
      | c # cs \<Rightarrow> if in_class k c then map (Pair None) (star_rests k cs) else [])"
| "matches (Group r) s =
     map (\<lambda>(g, s1). (Some (take (length s - length s1) s), s1)) (matches r s)"

text \<open>\<^verbatim>\<open>re.search\<close>: the first way to match at the leftmost position that has one.\<close>

fun search :: "regex \<Rightarrow> string \<Rightarrow> string option option" where
  "search r [] = (case matches r [] of [] \<Rightarrow> None | (g, s1) # _ \<Rightarrow> Some g)"
| "search r (c # cs) =
     (case matches r (c # cs) of [] \<Rightarrow> search r cs | (g, s1) # _ \<Rightarrow> Some g)"

fun lit :: "string \<Rightarrow> regex" where
  \<comment> \<open>A literal text, character by character.\<close>
  "lit [] = Eps"
| "lit [c] = Atom (Ch c)"
| "lit (c # cs) = Seq (Atom (Ch c)) (lit cs)"

fun seqs :: "regex list \<Rightarrow> regex" where
  "seqs [] = Eps"
| "seqs [r] = r"
| "seqs (r # rs) = Seq r (seqs rs)"

section \<open>Field extractors (process-worthpoint-csvs.py)\<close>

subsection \<open>extract_weight\<close>

definition number :: regex where
  \<comment> \<open>\<^verbatim>\<open>(\d+\.?\d*)\<close>\<close>
  "number = Group (seqs [Plus Digit, Opt (lit ''.''), Star Digit])"

definition space_or_end :: regex where
  \<comment> \<open>\<^verbatim>\<open>(?:\s|$)\<close>\<close>
  "space_or_end = Alt (Atom Space) Eos"

text \<open>The ordered list \<^verbatim>\<open>patterns\<close>, each with its multiplier:
  \<^enum> \<^verbatim>\<open>(\d+\.?\d*)\s*[Gg](?:rams?)?(?:\s|$|,)\<close>, 1.0
  \<^enum> \<^verbatim>\<open>(\d+\.?\d*)-[Gg](?:rams?)?\<close>, 1.0
  \<^enum> \<^verbatim>\<open>(\d+\.?\d*)\s*[Gg]r\.?(?:\s|$)\<close>, 1.0
  \<^enum> \<^verbatim>\<open>(\d+\.?\d*)\s*ct(?:s)?(?:\s|$)\<close>, 0.2
  \<^enum> \<^verbatim>\<open>(\d+\.?\d*)\s*carat\<close>, 0.2
  \<^enum> \<^verbatim>\<open>(\d+\.?\d*)\s*oz(?:\s|$)\<close>, 28.35
  \<^enum> \<^verbatim>\<open>(\d+\.?\d*)\s*kg(?:\s|$)\<close>, 1000.0
  \<^enum> \<^verbatim>\<open>(\d+\.?\d*)\s*lb(?:s)?(?:\s|$)\<close>, 453.6
\<close>

definition patterns :: "(regex \<times> double) list" where
  "patterns =
     [(seqs [number, Star Space, lit ''g'', Opt (Seq (lit ''ram'') (Opt (lit ''s''))),
             Alt (Atom Space) (Alt Eos (lit '',''))], dbl 1),
      (seqs [number, lit ''-'', lit ''g'', Opt (Seq (lit ''ram'') (Opt (lit ''s'')))], dbl 1),
      (seqs [number, Star Space, lit ''g'', lit ''r'', Opt (lit ''.''), space_or_end], dbl 1),
      (seqs [number, Star Space, lit ''ct'', Opt (lit ''s''), space_or_end], dbl (2 / 10)),
      (seqs [number, Star Space, lit ''carat''], dbl (2 / 10)),
      (seqs [number, Star Space, lit ''oz'', space_or_end], dbl (2835 / 100)),
      (seqs [number, Star Space, lit ''kg'', space_or_end], dbl 1000),
      (seqs [number, Star Space, lit ''lb'', Opt (lit ''s''), space_or_end], dbl (4536 / 10))]"

text \<open>\<^verbatim>\<open>match.group(1)\<close> of a match whose group did not take part is \<^verbatim>\<open>None\<close>, on
  which \<^verbatim>\<open>float\<close> raises \<^verbatim>\<open>TypeError\<close>; on a text that is no number it raises
  \<^verbatim>\<open>ValueError\<close>. No title reaches either branch (lemma \<open>extract_weight_eq\<close> below).\<close>

fun try_patterns :: "(regex \<times> double) list \<Rightarrow> string \<Rightarrow> error + double option" where
  "try_patterns [] title = Inr None"
| "try_patterns ((pattern, multiplier) # rest) title =
     (case search pattern title of
        None \<Rightarrow> try_patterns rest title
      | Some None \<Rightarrow> Inl TypeError
      | Some (Some digits) \<Rightarrow>
          (case float_of_decimal digits of
             None \<Rightarrow> Inl ValueError
           | Some v \<Rightarrow>
               (let weight = fmul v multiplier
                in if flt (dbl (1 / 100)) weight \<and> flt weight (dbl 100000)
                   then Inr (Some (py_round weight 3))
                   else try_patterns rest title)))"

definition extract_weight :: "string \<Rightarrow> error + double option" where
  "extract_weight title = try_patterns patterns title"

subsection \<open>parse_price\<close>

definition parse_price :: "(string \<Rightarrow> double option) \<Rightarrow> string option \<Rightarrow> double option" where
  \<comment> \<open>\<open>float_of\<close> is \<^verbatim>\<open>float\<close>, \<open>None\<close> where it raises.\<close>
  "parse_price float_of price_str =
     (case price_str of
        None \<Rightarrow> None
      | Some s \<Rightarrow>
          if s = [] then None
          else (let cleaned = filter (\<lambda>c. c \<noteq> CHR ''$'' \<and> c \<noteq> CHR '','' \<and> \<not> is_space c) s
                in case float_of cleaned of
                     None \<Rightarrow> None
                   | Some price \<Rightarrow>
                       if flt (dbl 0) price \<and> flt price (dbl 1000000)
                       then Some (py_round price 2) else None))"

subsection \<open>parse_date\<close>

definition formats :: "string list" where
  "formats = [''%b %d, %Y'', ''%B %d, %Y'', ''%m/%d/%Y'', ''%Y-%m-%d'']"

fun try_formats :: "(string \<Rightarrow> string \<Rightarrow> string option) \<Rightarrow> string \<Rightarrow> string list
    \<Rightarrow> string option" where
  "try_formats strp s [] = None"
| "try_formats strp s (fmt # fmts) =
     (case strp (strip s) fmt of Some d \<Rightarrow> Some d | None \<Rightarrow> try_formats strp s fmts)"

definition parse_date :: "(string \<Rightarrow> string \<Rightarrow> string option) \<Rightarrow> string option
    \<Rightarrow> string option" where
  \<comment> \<open>\<open>strp s fmt\<close> is \<^verbatim>\<open>datetime.strptime(s, fmt).strftime("%Y-%m-%d")\<close>, \<open>None\<close>
    where \<^verbatim>\<open>strptime\<close> raises.\<close>
  "parse_date strp date_str =
     (case date_str of
        None \<Rightarrow> None
      | Some s \<Rightarrow>
          if s = [] then None
          else (case try_formats strp s formats of
                  Some d \<Rightarrow> Some d
                | None \<Rightarrow> Some s))"

section \<open>Material classifier (process-worthpoint-csvs.py)\<close>

type_synonym ruleset = "string \<times> (string \<Rightarrow> bool)"
type_synonym config = "(string \<times> ruleset) list"

text \<open>\<^verbatim>\<open>MATERIAL_CONFIG\<close>, in the order of the dictionary literal: the key, the
  material slug and the filter on the lowercased title.\<close>

definition MATERIAL_CONFIG :: config where
  "MATERIAL_CONFIG =
     [(''darwin-glass'', ''darwin-glass'', \<lambda>t. contains t ''darwin glass''),
      (''_darwin-glass_'', ''darwin-glass'', \<lambda>t. contains t ''darwin glass''),
      (''trinitite'', ''trinitite'', \<lambda>t. contains t ''trinitite'' \<and> \<not> contains t ''red''),
      (''australite'', ''australite'', \<lambda>t. contains t ''australite''),
      (''philippinite'', ''philippinite'', \<lambda>t. contains t ''philippinite''),
      (''georgiaite'', ''georgiaite'', \<lambda>t. contains t ''georgiaite''),
      (''bediasite'', ''bediasite'', \<lambda>t. contains t ''bediasite''),
      (''gibeon'', ''gibeon-meteorite'', \<lambda>t. contains t ''gibeon''),
      (''seymchan'', ''seymchan-meteorite'', \<lambda>t. contains t ''seymchan''),
      (''chelyabinsk'', ''chelyabinsk-meteorite'', \<lambda>t. contains t ''chelyabinsk''),
      (''canyon-diablo'', ''canyon-diablo-meteorite'', \<lambda>t. contains t ''canyon diablo''),
      (''fulgurite'', ''fulgurite'', \<lambda>t. contains t ''fulgurite''),
      (''osmium'', ''osmium'', \<lambda>t. contains t ''osmium''),
      (''iridium'', ''iridium'', \<lambda>t. contains t ''iridium''),
      (''gallium'', ''gallium'', \<lambda>t. contains t ''gallium''),
      (''bismuth'', ''bismuth'', \<lambda>t. contains t ''bismuth''),
      (''uranium-glass'', ''uranium-glass'', \<lambda>t. contains t ''uranium'' \<and> contains t ''glass''),
      (''allende'', ''allende-meteorite'', \<lambda>t. contains t ''allende''),
      (''indochinite'', ''indochinite'', \<lambda>t. contains t ''indochinite''),
      (''nwa-martian'', ''nwa-martian-meteorite'',
         \<lambda>t. contains t ''martian'' \<or> (contains t ''nwa'' \<and> contains t ''mars'')
              \<or> contains t ''shergottite''),
      (''muonionalusta'', ''muonionalusta-meteorite'', \<lambda>t. contains t ''muonionalusta''),
      (''nwa-lunar'', ''nwa-lunar-meteorite'',
         \<lambda>t. contains t ''lunar'' \<or> (contains t ''nwa'' \<and> contains t ''moon'')),
      (''libyan-desert-glass'', ''libyan-desert-glass'',
         \<lambda>t. contains t ''libyan'' \<or> contains t ''ldg''),
      (''sikhote'', ''sikhote-alin-meteorite'', \<lambda>t. contains t ''sikhote''),
      (''campo'', ''campo-del-cielo-meteorite'', \<lambda>t. contains t ''campo''),
      (''kt-boundary'', ''kpg-boundary'',
         \<lambda>t. contains t ''kt'' \<or> contains t ''k-t'' \<or> contains t ''k-pg'' \<or> contains t ''kpg''
              \<or> contains t ''cretaceous'' \<or> contains t ''boundary''),
      (''cretaceous-boundary'', ''kpg-boundary'',
         \<lambda>t. contains t ''cretaceous'' \<or> contains t ''kt'' \<or> contains t ''k-t''
              \<or> contains t ''k-pg'' \<or> contains t ''boundary''),
      (''impact-spherules'', ''kpg-boundary'',
         \<lambda>t. contains t ''spherule'' \<or> contains t ''impact'' \<or> contains t ''kt''
              \<or> contains t ''cretaceous'')]"

definition basename :: "string \<Rightarrow> string" where
  \<comment> \<open>\<^verbatim>\<open>os.path.basename\<close>: what follows the last slash.\<close>
  "basename p = rev (takeWhile (\<lambda>c. c \<noteq> CHR ''/'') (rev p))"

fun remove_csv :: "nat \<Rightarrow> string \<Rightarrow> string" where
  \<comment> \<open>\<^verbatim>\<open>s.replace('.csv', '')\<close>, left to right; the first argument counts the
    characters of an occurrence still to be skipped.\<close>
  "remove_csv n [] = []"
| "remove_csv (Suc n) (c # cs) = remove_csv n cs"
| "remove_csv 0 (c # cs) =
     (if prefix ''.csv'' (c # cs) then remove_csv 3 cs else c # remove_csv 0 cs)"

fun first_partial :: "config \<Rightarrow> string \<Rightarrow> string option" where
  "first_partial [] base = None"
| "first_partial ((key, rules) # rest) base =
     (if contains base key \<or> contains key base then Some key else first_partial rest base)"

definition get_material_key :: "config \<Rightarrow> string \<Rightarrow> string option" where
  "get_material_key cfg filename =
     (let base = lower (remove_csv 0 (basename filename))
      in if base \<in> set (map fst cfg) then Some base else first_partial cfg base)"

section \<open>The processing run (process-worthpoint-csvs.py, main)\<close>

type_synonym raw_row = "string \<rightharpoonup> string option"

definition cell :: "raw_row \<Rightarrow> string \<Rightarrow> string option" where
  \<comment> \<open>\<^verbatim>\<open>row.get(key)\<close>: \<^verbatim>\<open>None\<close> for a missing column and for a \<^verbatim>\<open>None\<close> cell.\<close>
  "cell row key = (case row key of None \<Rightarrow> None | Some c \<Rightarrow> c)"

definition get_title :: "raw_row \<Rightarrow> string option" where
  \<comment> \<open>\<^verbatim>\<open>row.get('title', '')\<close>: the default stands for a missing column only.\<close>
  "get_title row = (case row ''title'' of None \<Rightarrow> Some [] | Some c \<Rightarrow> c)"

subsection \<open>Step 2: filtering by title, deduplication\<close>

text \<open>The operations of the loop body in the order in which a row goes through them:
  the call of the filter, the membership test on \<^verbatim>\<open>seen_titles\<close> and the insertion.
  \<^verbatim>\<open>row.get('title', '').lower()\<close> raises \<^verbatim>\<open>AttributeError\<close> on a \<^verbatim>\<open>None\<close> cell.\<close>

datatype op = Filter_call string | Seen_test string | Seen_add string

record filter_state =
  filtered_data :: "(string \<times> raw_row list) list"
  seen_titles :: "string set"
  filter_stats :: "(string \<times> nat \<times> nat \<times> nat) list"
  ops :: "op list"

definition filter_row :: "string \<Rightarrow> (string \<Rightarrow> bool) \<Rightarrow> filter_state \<times> nat \<times> nat \<Rightarrow> raw_row
    \<Rightarrow> error + filter_state \<times> nat \<times> nat" where
  "filter_row material_slug filter_fn acc row =
     (case acc of (st, kept, dropped) \<Rightarrow>
        (case get_title row of
           None \<Rightarrow> Inl AttributeError
         | Some t \<Rightarrow>
             (let title = lower t;
                  st1 = st\<lparr>ops := ops st @ [Filter_call title]\<rparr>
              in if \<not> filter_fn title then Inr (st1, kept, dropped + 1)
                 else
                   (let title_key = take 60 title;
                        st2 = st1\<lparr>ops := ops st1 @ [Seen_test title_key]\<rparr>
                    in if title_key \<in> seen_titles st2 then Inr (st2, kept, dropped + 1)
                       else
                         Inr (st2\<lparr>seen_titles := insert title_key (seen_titles st2),
                                  ops := ops st2 @ [Seen_add title_key],
                                  filtered_data :=
                                    dict_append material_slug
                                      (row(''material_slug'' \<mapsto> Some material_slug))
                                      (filtered_data st2)\<rparr>,
                              kept + 1, dropped)))))"

fun filter_rows :: "string \<Rightarrow> (string \<Rightarrow> bool) \<Rightarrow> filter_state \<times> nat \<times> nat
    \<Rightarrow> raw_row list \<Rightarrow> error + filter_state \<times> nat \<times> nat" where
  \<comment> \<open>\<^verbatim>\<open>for row in rows\<close>\<close>
  "filter_rows material_slug filter_fn acc [] = Inr acc"
| "filter_rows material_slug filter_fn acc (row # rows) =
     (case filter_row material_slug filter_fn acc row of
        Inl e \<Rightarrow> Inl e
      | Inr acc' \<Rightarrow> filter_rows material_slug filter_fn acc' rows)"

text \<open>\<^verbatim>\<open>MATERIAL_CONFIG[material_key]\<close> raises \<^verbatim>\<open>KeyError\<close> on a key that the table
  does not have; \<open>get_material_key\<close> returns keys of the table only (lemma
  \<open>get_material_key_lookup\<close> below).\<close>

definition filter_file :: "config \<Rightarrow> filter_state \<Rightarrow> string \<times> raw_row list
    \<Rightarrow> error + filter_state" where
  "filter_file cfg st file =
     (case file of (filename, rows) \<Rightarrow>
        (case get_material_key cfg filename of
           None \<Rightarrow> Inr st
         | Some material_key \<Rightarrow>
             (if material_key = [] then Inr st
              else (case map_of cfg material_key of
                      None \<Rightarrow> Inl KeyError
                    | Some (material_slug, filter_fn) \<Rightarrow>
                        (case filter_rows material_slug filter_fn (st, 0, 0) rows of
                           Inl e \<Rightarrow> Inl e
                         | Inr (st', kept, dropped) \<Rightarrow>
                             Inr (st'\<lparr>filter_stats :=
                                   filter_stats st' @ [(filename, length rows, kept, dropped)]\<rparr>))))))"

definition initial_state :: filter_state where
  "initial_state = \<lparr>filtered_data = [], seen_titles = {}, filter_stats = [], ops = []\<rparr>"

fun filter_files :: "config \<Rightarrow> filter_state \<Rightarrow> (string \<times> raw_row list) list
    \<Rightarrow> error + filter_state" where
  "filter_files cfg st [] = Inr st"
| "filter_files cfg st (file # files) =
     (case filter_file cfg st file of
        Inl e \<Rightarrow> Inl e
      | Inr st' \<Rightarrow> filter_files cfg st' files)"

definition filter_all :: "config \<Rightarrow> (string \<times> raw_row list) list \<Rightarrow> error + filter_state" where
  "filter_all cfg raw_data = filter_files cfg initial_state raw_data"

subsection \<open>Step 3: normalization\<close>

record canonical_sale =
  material_slug :: string
  title :: "string option"
  price_usd :: double
  sale_date :: "string option"
  weight_grams :: "double option"
  price_per_gram :: "double option"
  source :: string

definition given_weight :: "(string \<Rightarrow> double option) \<Rightarrow> raw_row \<Rightarrow> double option" where
  \<comment> \<open>The value of \<^verbatim>\<open>weight\<close> before the title is looked at.\<close>
  "given_weight float_of row =
     (if truthy (cell row ''weight_grams'')
      then (case cell row ''weight_grams'' of None \<Rightarrow> None | Some w \<Rightarrow> float_of w)
      else None)"

definition weight_of_title :: "string option \<Rightarrow> error + double option" where
  \<comment> \<open>\<^verbatim>\<open>extract_weight(title)\<close>; \<^verbatim>\<open>re.search\<close> raises \<^verbatim>\<open>TypeError\<close> on \<^verbatim>\<open>None\<close>.\<close>
  "weight_of_title ttl = (case ttl of None \<Rightarrow> Inl TypeError | Some t \<Rightarrow> extract_weight t)"

definition normalize_row :: "(string \<Rightarrow> double option) \<Rightarrow> (string \<Rightarrow> string \<Rightarrow> string option)
    \<Rightarrow> string \<Rightarrow> raw_row \<Rightarrow> error + canonical_sale option" where
  "normalize_row float_of strp slug row =
     (case parse_price float_of (py_or (cell row ''price_usd'') (cell row ''price'')) of
        None \<Rightarrow> Inr None
      | Some price \<Rightarrow>
          (if val price = 0 then Inr None
           else
             (let date = parse_date strp (py_or (cell row ''sale_date'') (cell row ''date''));
                  ttl = get_title row;
                  weight0 = given_weight float_of row
              in (case (if weight0 = None \<or> map_option val weight0 = Some 0
                        then weight_of_title ttl else Inr weight0) of
                    Inl e \<Rightarrow> Inl e
                  | Inr weight \<Rightarrow>
                      Inr (Some \<lparr>material_slug = slug, title = ttl, price_usd = price,
                                 sale_date = date, weight_grams = weight,
                                 price_per_gram =
                                   (case weight of
                                      None \<Rightarrow> None
                                    | Some w \<Rightarrow>
                                        (if val w \<noteq> 0 \<and> 0 < val w
                                         then Some (py_round (fdiv price w) 2)
                                         else None)),
                                 source = ''WorthPoint''\<rparr>)))))"

fun normalize_rows :: "(string \<Rightarrow> double option) \<Rightarrow> (string \<Rightarrow> string \<Rightarrow> string option)
    \<Rightarrow> string \<Rightarrow> raw_row list \<Rightarrow> canonical_sale list \<Rightarrow> error + canonical_sale list" where
  "normalize_rows float_of strp slug [] all_rows = Inr all_rows"
| "normalize_rows float_of strp slug (row # rows) all_rows =
     (case normalize_row float_of strp slug row of
        Inl e \<Rightarrow> Inl e
      | Inr None \<Rightarrow> normalize_rows float_of strp slug rows all_rows
      | Inr (Some c) \<Rightarrow> normalize_rows float_of strp slug rows (all_rows @ [c]))"

fun normalize_all :: "(string \<Rightarrow> double option) \<Rightarrow> (string \<Rightarrow> string \<Rightarrow> string option)
    \<Rightarrow> (string \<times> raw_row list) list \<Rightarrow> canonical_sale list \<Rightarrow> error + canonical_sale list" where
  "normalize_all float_of strp [] all_rows = Inr all_rows"
| "normalize_all float_of strp ((slug, rows) # rest) all_rows =
     (case normalize_rows float_of strp slug rows all_rows of
        Inl e \<Rightarrow> Inl e
      | Inr all_rows' \<Rightarrow> normalize_all float_of strp rest all_rows')"

subsection \<open>Steps 4 and 5: the merged table and the summary\<close>

text \<open>The run writes \<^verbatim>\<open>all_rows\<close> to the merged table, prints the summary and returns
  \<^verbatim>\<open>all_rows\<close>. The summary takes \<^verbatim>\<open>min(all_prices)\<close>, which raises \<^verbatim>\<open>ValueError\<close>
  when no row was normalized; every normalized row has a price, so nothing else of the
  summary can raise. An exception of step 2 or 3 ends the run before the table is
  written. The printed counts are not part of the model.\<close>

record run =
  saved :: "canonical_sale list option"
  returned :: "error + canonical_sale list"

definition main :: "config \<Rightarrow> (string \<Rightarrow> double option) \<Rightarrow> (string \<Rightarrow> string \<Rightarrow> string option)
    \<Rightarrow> (string \<times> raw_row list) list \<Rightarrow> run" where
  "main cfg float_of strp raw_data =
     (case filter_all cfg raw_data of
        Inl e \<Rightarrow> \<lparr>saved = None, returned = Inl e\<rparr>
      | Inr st \<Rightarrow>
          (case normalize_all float_of strp (filtered_data st) [] of
             Inl e \<Rightarrow> \<lparr>saved = None, returned = Inl e\<rparr>
           | Inr all_rows \<Rightarrow>
               \<lparr>saved = Some all_rows,
                returned = (if all_rows = [] then Inl ValueError else Inr all_rows)\<rparr>))"

section \<open>Monthly aggregation (import-worthpoint-to-supabase.py)\<close>

subsection \<open>statistics.median\<close>

definition median :: "double list \<Rightarrow> error + double" where
  \<comment> \<open>\<^verbatim>\<open>sorted\<close> orders the floats by their values.\<close>
  "median xs =
     (let data = sort_key val xs; n = length data
      in if n = 0 then Inl StatisticsError
         else if n mod 2 = 1 then Inr (data ! (n div 2))
         else (let i = n div 2 in Inr (fdiv (fadd (data ! (i - 1)) (data ! i)) (dbl 2))))"

subsection \<open>calculate_monthly_medians\<close>

record sale_record =
  rec_material_slug :: string
  rec_price_per_gram :: double
  rec_sale_date :: "string option"

record aggregate =
  agg_material_slug :: string
  agg_price_usd :: double
  price_per :: string
  agg_source :: string
  recorded_at :: string

type_synonym month_key = "string \<times> string"

definition group_step :: "(month_key \<times> double list) list \<Rightarrow> sale_record
    \<Rightarrow> (month_key \<times> double list) list" where
  "group_step grouped r =
     (case rec_sale_date r of
        None \<Rightarrow> grouped
      | Some date \<Rightarrow>
          if date \<noteq> [] \<and> 7 \<le> length date
          then (let month_key = take 7 date; key = (rec_material_slug r, month_key)
                in dict_append key (rec_price_per_gram r) grouped)
          else grouped)"

definition group_records :: "sale_record list \<Rightarrow> (month_key \<times> double list) list" where
  "group_records records = foldl group_step [] records"

definition make_aggregate :: "month_key \<Rightarrow> double list \<Rightarrow> double \<Rightarrow> aggregate" where
  "make_aggregate key prices median_price =
     \<lparr> agg_material_slug = fst key,
       agg_price_usd = py_round median_price 2,
       price_per = ''gram'',
       agg_source = ''WorthPoint (n='' @ str_nat (length prices) @ '')'',
       recorded_at = snd key @ ''-15'' \<rparr>"

fun aggregate_groups :: "(month_key \<times> double list) list \<Rightarrow> aggregate list
    \<Rightarrow> error + aggregate list" where
  "aggregate_groups [] aggregated = Inr aggregated"
| "aggregate_groups ((key, prices) # rest) aggregated =
     (if prices \<noteq> []
      then (case median prices of
              Inl e \<Rightarrow> Inl e
            | Inr median_price \<Rightarrow>
                aggregate_groups rest (aggregated @ [make_aggregate key prices median_price]))
      else aggregate_groups rest aggregated)"

definition calculate_monthly_medians :: "sale_record list \<Rightarrow> error + aggregate list" where
  "calculate_monthly_medians records =
     aggregate_groups (sort_key fst (group_records records)) []"

subsection \<open>The merged table, written and read back\<close>

type_synonym csv_row = "string \<rightharpoonup> string"

text \<open>\<^verbatim>\<open>csv.DictWriter\<close> writes \<^verbatim>\<open>None\<close> as the empty cell and a number through
  \<^verbatim>\<open>repr\<close> (the parameter \<open>repr\<close>); \<^verbatim>\<open>csv.DictReader\<close> reads every cell back as
  text.\<close>

definition written :: "(double \<Rightarrow> string) \<Rightarrow> double option \<Rightarrow> string" where
  "written repr x = (case x of None \<Rightarrow> [] | Some v \<Rightarrow> repr v)"

definition merged_row :: "(double \<Rightarrow> string) \<Rightarrow> canonical_sale \<Rightarrow> csv_row" where
  "merged_row repr c =
     [''material_slug'' \<mapsto> material_slug c,
      ''title'' \<mapsto> (case title c of None \<Rightarrow> [] | Some t \<Rightarrow> t),
      ''price_usd'' \<mapsto> repr (price_usd c),
      ''sale_date'' \<mapsto> (case sale_date c of None \<Rightarrow> [] | Some d \<Rightarrow> d),
      ''weight_grams'' \<mapsto> written repr (weight_grams c),
      ''price_per_gram'' \<mapsto> written repr (price_per_gram c),
      ''source'' \<mapsto> source c]"

subsection \<open>load_merged_csv\<close>

definition load_row :: "(string \<Rightarrow> double option) \<Rightarrow> csv_row \<Rightarrow> sale_record option" where
  \<comment> \<open>One turn of the loop: the record appended, \<open>None\<close> where the row is skipped.\<close>
  "load_row float_of row =
     (if \<not> truthy (row ''price_per_gram'') \<or> \<not> truthy (row ''sale_date'') then None
      else case row ''price_per_gram'' of
             None \<Rightarrow> None
           | Some digits \<Rightarrow>
               (case float_of digits of
                  None \<Rightarrow> None
                | Some ppg \<Rightarrow>
                    if val ppg \<le> 0 \<or> 50000 < val ppg then None
                    else (case row ''material_slug'' of
                            None \<Rightarrow> None
                          | Some slug \<Rightarrow>
                              Some \<lparr>rec_material_slug = slug, rec_price_per_gram = ppg,
                                    rec_sale_date = row ''sale_date''\<rparr>)))"

fun load_merged_csv :: "(string \<Rightarrow> double option) \<Rightarrow> csv_row list \<Rightarrow> sale_record list" where
  "load_merged_csv float_of [] = []"
| "load_merged_csv float_of (row # rows) =
     (case load_row float_of row of
        None \<Rightarrow> load_merged_csv float_of rows
      | Some r \<Rightarrow> r # load_merged_csv float_of rows)"

section \<open>Notions used to state the properties\<close>

text \<open>The bucket a record is placed in by \<open>group_step\<close>, if any; the prices of the
  records of one bucket, in input order; the buckets of a list of records; and the
  bucket an emitted aggregate stands for.\<close>

definition record_key :: "sale_record \<Rightarrow> month_key option" where
  "record_key r =
     (case rec_sale_date r of
        None \<Rightarrow> None
      | Some date \<Rightarrow> if 7 \<le> length date then Some (rec_material_slug r, take 7 date) else None)"

definition group_prices :: "sale_record list \<Rightarrow> month_key \<Rightarrow> double list" where
  "group_prices records k = map rec_price_per_gram (filter (\<lambda>r. record_key r = Some k) records)"

definition month_keys :: "sale_record list \<Rightarrow> month_key set" where
  "month_keys records = {k. \<exists>r \<in> set records. record_key r = Some k}"

definition agg_key :: "aggregate \<Rightarrow> month_key" where
  "agg_key a = (agg_material_slug a, take 7 (recorded_at a))"

text \<open>For the unit patterns: a pattern without a group, a pattern every match of which
  consumes a character of one of the given classes, the letters the unit patterns ask
  for, the weight in grams that a rule offers on a title (its first match, converted),
  the bounds, and whether a rule offers a weight within the bounds.\<close>

fun no_group :: "regex \<Rightarrow> bool" where
  "no_group (Seq r1 r2) = (no_group r1 \<and> no_group r2)"
| "no_group (Alt r1 r2) = (no_group r1 \<and> no_group r2)"
| "no_group (Opt r) = no_group r"
| "no_group (Group r) = False"
| "no_group r = True"

fun needs :: "(cclass \<Rightarrow> bool) \<Rightarrow> regex \<Rightarrow> bool" where
  "needs K (Atom k) = K k"
| "needs K (Plus k) = K k"
| "needs K (Seq r1 r2) = (needs K r1 \<or> needs K r2)"
| "needs K (Alt r1 r2) = (needs K r1 \<and> needs K r2)"
| "needs K (Group r) = needs K r"
| "needs K r = False"

definition rule_value :: "regex \<times> double \<Rightarrow> string \<Rightarrow> double option" where
  "rule_value rule t =
     (case search (fst rule) t of
        Some (Some digits) \<Rightarrow> map_option (\<lambda>v. fmul v (snd rule)) (float_of_decimal digits)
      | _ \<Rightarrow> None)"

definition in_bounds :: "double \<Rightarrow> bool" where
  "in_bounds w = (flt (dbl (1 / 100)) w \<and> flt w (dbl 100000))"

definition accepted :: "string \<Rightarrow> regex \<times> double \<Rightarrow> bool" where
  "accepted t rule = (case rule_value rule t of None \<Rightarrow> False | Some w \<Rightarrow> in_bounds w)"

definition unit_letter :: "cclass \<Rightarrow> bool" where
  "unit_letter k = (case k of Ch x \<Rightarrow> x \<in> set ''gcokl'' | _ \<Rightarrow> False)"

text \<open>For the filtering loop: a row with a title cell that holds text (or with no
  title cell at all), the title such a row is read with, its deduplication key, whether
  it passes a filter, the ruleset that \<open>filter_file\<close> applies to a file, and whether
  every row of a file that passes the filter of the file has its key recorded.\<close>

definition titled :: "raw_row \<Rightarrow> bool" where
  "titled row = (get_title row \<noteq> None)"

definition title_of :: "raw_row \<Rightarrow> string" where
  "title_of row = (case get_title row of None \<Rightarrow> [] | Some t \<Rightarrow> t)"

definition title_key :: "raw_row \<Rightarrow> string" where
  "title_key row = take 60 (lower (title_of row))"

definition passes :: "(string \<Rightarrow> bool) \<Rightarrow> raw_row \<Rightarrow> bool" where
  "passes filter_fn row = filter_fn (lower (title_of row))"

definition file_rules :: "config \<Rightarrow> string \<Rightarrow> ruleset option" where
  "file_rules cfg filename =
     (case get_material_key cfg filename of
        None \<Rightarrow> None
      | Some k \<Rightarrow> if k = [] then None else map_of cfg k)"

definition settled :: "config \<Rightarrow> filter_state \<Rightarrow> string \<times> raw_row list \<Rightarrow> bool" where
  "settled cfg st fl =
     (case file_rules cfg (fst fl) of
        None \<Rightarrow> True
      | Some (slug, fn) \<Rightarrow>
          (\<forall>row \<in> set (snd fl). passes fn row \<longrightarrow> title_key row \<in> seen_titles st))"

definition all_titled :: "(string \<times> raw_row list) list \<Rightarrow> bool" where
  "all_titled files = list_all (\<lambda>fl. list_all titled (snd fl)) files"

text \<open>For the normalizer: the weight read off a title (what \<open>extract_weight\<close> returns
  when it returns) and the weight of a row, the pre-supplied one before the one of the
  title.\<close>

definition title_weight :: "string \<Rightarrow> double option" where
  "title_weight t =
     (case find (accepted t) patterns of
        None \<Rightarrow> None
      | Some rule \<Rightarrow> map_option (\<lambda>w. py_round w 3) (rule_value rule t))"

definition chosen_weight :: "(string \<Rightarrow> double option) \<Rightarrow> raw_row \<Rightarrow> double option" where
  "chosen_weight float_of row =
     (case given_weight float_of row of
        None \<Rightarrow> title_weight (title_of row)
      | Some w \<Rightarrow> if val w = 0 then title_weight (title_of row) else Some w)"

text \<open>For the run: the sales that a kept row contributes to the merged table, and the
  table of a collection of kept rows, material after material and row after row.\<close>

definition emitted :: "(string \<Rightarrow> double option) \<Rightarrow> (string \<Rightarrow> string \<Rightarrow> string option)
    \<Rightarrow> string \<Rightarrow> raw_row \<Rightarrow> canonical_sale list" where
  "emitted float_of strp slug row =
     (case normalize_row float_of strp slug row of Inr (Some c) \<Rightarrow> [c] | _ \<Rightarrow> [])"

definition table_of :: "(string \<Rightarrow> double option) \<Rightarrow> (string \<Rightarrow> string \<Rightarrow> string option)
    \<Rightarrow> (string \<times> raw_row list) list \<Rightarrow> canonical_sale list" where
  "table_of float_of strp fd =
     concat (map (\<lambda>(slug, rows). concat (map (emitted float_of strp slug) rows)) fd)"

section \<open>Concrete inputs\<close>

text \<open>Stand-ins for the two library calls on the texts of the examples below.
  \<open>plain_float\<close> is \<^verbatim>\<open>float\<close> on a decimal number with an optional sign and white
  space around it; \<^verbatim>\<open>float\<close> accepts more (exponents, \<^verbatim>\<open>inf\<close>, \<^verbatim>\<open>nan\<close>), which no
  example uses. \<open>iso_strp\<close> is \<^verbatim>\<open>strptime\<close> followed by \<^verbatim>\<open>strftime\<close> on a text that
  either is a date written \<^verbatim>\<open>YYYY-MM-DD\<close> in full, with a day up to 28, or has no
  digit at all: the first parses under the last format only and is printed back as it
  is, the second parses under no format.\<close>

definition plain_float :: "string \<Rightarrow> double option" where
  "plain_float s =
     (case strip s of
        [] \<Rightarrow> None
      | c # cs \<Rightarrow>
          if c = CHR ''-'' then map_option (\<lambda>v. dbl (- val v)) (float_of_decimal cs)
          else if c = CHR ''+'' then float_of_decimal cs
          else float_of_decimal (c # cs))"

definition iso_date :: "string \<Rightarrow> bool" where
  "iso_date s =
     (case s of
        [y1, y2, y3, y4, d1, m1, m2, d2, a1, a2] \<Rightarrow>
          list_all is_digit [y1, y2, y3, y4, m1, m2, a1, a2]
          \<and> d1 = CHR ''-'' \<and> d2 = CHR ''-''
          \<and> 1 \<le> digits_value [m1, m2] \<and> digits_value [m1, m2] \<le> 12
          \<and> 1 \<le> digits_value [a1, a2] \<and> digits_value [a1, a2] \<le> 28
      | _ \<Rightarrow> False)"

definition iso_strp :: "string \<Rightarrow> string \<Rightarrow> string option" where
  "iso_strp s fmt = (if fmt = ''%Y-%m-%d'' \<and> iso_date s then Some s else None)"

definition example_records :: "sale_record list" where
  "example_records =
     [\<lparr>rec_material_slug = ''gibeon-meteorite'', rec_price_per_gram = dbl (1 / 4),
        rec_sale_date = Some ''2020-02-03''\<rparr>,
      \<lparr>rec_material_slug = ''gibeon-meteorite'', rec_price_per_gram = dbl (1 / 2),
        rec_sale_date = Some ''2020-02-13''\<rparr>,
      \<lparr>rec_material_slug = ''allende-meteorite'', rec_price_per_gram = dbl 3,
        rec_sale_date = Some ''2021-02-13''\<rparr>]"

section \<open>Properties of the floats\<close>

subsection \<open>Rounding to an integer\<close>

lemma round_half_even_of_int: "round_half_even (of_int n) = n"
  by (simp add: round_half_even_def)

lemma round_half_even_cases:
  "round_half_even x = \<lfloor>x\<rfloor> \<or> round_half_even x = \<lfloor>x\<rfloor> + 1"
  by (simp add: round_half_even_def Let_def)

lemma round_half_even_near: "\<bar>of_int (round_half_even x) - x\<bar> \<le> 1 / 2"
proof -
  have "of_int \<lfloor>x\<rfloor> \<le> x" "x < of_int \<lfloor>x\<rfloor> + 1" by linarith+
  then show ?thesis by (simp add: round_half_even_def Let_def)
qed

lemma round_half_even_mono:
  assumes "x \<le> y" shows "round_half_even x \<le> round_half_even y"
proof (cases "\<lfloor>x\<rfloor> = \<lfloor>y\<rfloor>")
  case True
  with assms show ?thesis by (simp add: round_half_even_def Let_def)
next
  case False
  from assms have "\<lfloor>x\<rfloor> \<le> \<lfloor>y\<rfloor>" by (rule floor_mono)
  with False have "\<lfloor>x\<rfloor> + 1 \<le> \<lfloor>y\<rfloor>" by simp
  moreover have "round_half_even x \<le> \<lfloor>x\<rfloor> + 1"
    using round_half_even_cases [of x] by auto
  moreover have "\<lfloor>y\<rfloor> \<le> round_half_even y"
    using round_half_even_cases [of y] by auto
  ultimately show ?thesis by linarith
qed

lemma round_half_even_neg: "round_half_even (- x) = - round_half_even x"
proof (cases "x = of_int \<lfloor>x\<rfloor>")
  case True
  then obtain n where "x = of_int n" ..
  then have "- x = of_int (- n)" by simp
  then show ?thesis unfolding \<open>x = of_int n\<close> round_half_even_of_int
    by (simp only: round_half_even_of_int)
next
  case False
  then have f: "\<lfloor>- x\<rfloor> = - \<lfloor>x\<rfloor> - 1" by (simp add: floor_minus ceiling_altdef)
  have "of_int \<lfloor>x\<rfloor> \<le> x" "x < of_int \<lfloor>x\<rfloor> + 1" by linarith+
  then show ?thesis by (simp add: round_half_even_def Let_def f)
qed

subsection \<open>Powers of two\<close>

lemma pow2_powi: "pow2 k = 2 powi k"
  by (simp add: pow2_def power_int_def inverse_eq_divide power_one_over)

lemma pow2_pos: "0 < pow2 k"
  by (simp add: pow2_powi)

lemma pow2_add: "pow2 (j + k) = pow2 j * pow2 k"
  by (simp add: pow2_powi power_int_add)

lemma pow2_diff: "pow2 (j - k) = pow2 j / pow2 k"
  by (simp add: pow2_powi power_int_diff)

lemma pow2_strict_mono: "j < k \<Longrightarrow> pow2 j < pow2 k"
  by (simp add: pow2_powi power_int_strict_increasing)

lemma pow2_mono: "j \<le> k \<Longrightarrow> pow2 j \<le> pow2 k"
  by (simp add: pow2_powi power_int_increasing)

lemma pow2_less_iff: "pow2 j < pow2 k \<longleftrightarrow> j < k"
  using pow2_strict_mono [of j k] pow2_mono [of k j] by (cases "j < k") auto

lemma pow2_le_iff: "pow2 j \<le> pow2 k \<longleftrightarrow> j \<le> k"
  using pow2_strict_mono [of k j] pow2_mono [of j k] by (cases "j \<le> k") auto

lemma pow2_shift: "j + i = k \<Longrightarrow> pow2 k = pow2 j * pow2 i"
  using pow2_add [of j i] by simp

lemma pow2_nat: "0 \<le> k \<Longrightarrow> pow2 k = of_int (2 ^ nat k)"
  by (simp add: pow2_def)

lemma pow2_0: "pow2 0 = 1"
  by (simp add: pow2_def)

subsection \<open>The binary exponent\<close>

lemma floor_power2_bounds:
  fixes y :: rat
  assumes "1 \<le> y"
  shows "1 \<le> bitlen \<lfloor>y\<rfloor> \<and> pow2 (bitlen \<lfloor>y\<rfloor> - 1) \<le> y \<and> y < pow2 (bitlen \<lfloor>y\<rfloor>)"
proof -
  let ?f = "\<lfloor>y\<rfloor>"
  let ?b = "bitlen ?f"
  from assms have f: "0 < ?f" by linarith
  from bitlen_bounds [OF f] have b: "2 ^ nat (?b - 1) \<le> ?f" "?f < 2 ^ nat ?b"
    by simp_all
  have l: "1 \<le> ?b"
  proof (rule ccontr)
    assume "\<not> 1 \<le> ?b"
    then have "nat ?b = 0" by simp
    with b(2) f show False by simp
  qed
  have p1: "pow2 (?b - 1) = of_int (2 ^ nat (?b - 1))" using l by (intro pow2_nat) simp
  have p2: "pow2 ?b = of_int (2 ^ nat ?b)" using l by (intro pow2_nat) simp
  have "(of_int (2 ^ nat (?b - 1)) :: rat) \<le> of_int ?f" using b(1) by (simp only: of_int_le_iff)
  also have "(of_int ?f :: rat) \<le> y" by (rule of_int_floor_le)
  finally have lo: "pow2 (?b - 1) \<le> y" unfolding p1 .
  from b(2) have "?f + 1 \<le> 2 ^ nat ?b" by linarith
  then have "(of_int (?f + 1) :: rat) \<le> of_int (2 ^ nat ?b)" by (simp only: of_int_le_iff)
  moreover have "y < of_int (?f + 1)" by (rule floor_correct [THEN conjunct2])
  ultimately have hi: "y < pow2 ?b" unfolding p2 by (rule less_le_trans [rotated])
  from l lo hi show ?thesis by (intro conjI)
qed

lemma pow2_minus: "pow2 (- j) = 1 / pow2 j"
  using pow2_diff [of 0 j] by (simp add: pow2_0)

lemma ilog2_bounds:
  assumes "0 < x"
  shows "pow2 (ilog2 x) \<le> x \<and> x < pow2 (ilog2 x + 1)"
proof (cases "1 \<le> x")
  case True
  from floor_power2_bounds [OF True] True show ?thesis by (simp add: ilog2_def)
next
  case False
  let ?y = "1 / x"
  let ?k = "bitlen \<lfloor>?y\<rfloor> - 1"
  from False assms have y: "1 \<le> ?y" by simp
  from floor_power2_bounds [OF y] have lo: "pow2 ?k \<le> ?y" and hi: "?y < pow2 (?k + 1)"
    by simp_all
  have m1: "pow2 (- ?k) = 1 / pow2 ?k" by (rule pow2_minus)
  have "- ?k - 1 = - (?k + 1)" by simp
  then have m2: "pow2 (- ?k - 1) = 1 / pow2 (?k + 1)" by (simp only: pow2_minus)
  from lo have "x \<le> 1 / pow2 ?k"
    using assms pow2_pos [of ?k] by (simp only: field_simps)
  then have up: "x \<le> pow2 (- ?k)" by (simp only: m1)
  from hi have "1 / pow2 (?k + 1) < x"
    using assms pow2_pos [of "?k + 1"] by (simp only: field_simps)
  then have down: "pow2 (- ?k - 1) < x" by (simp only: m2)
  show ?thesis
  proof (cases "x = pow2 (- ?k)")
    case True
    have "pow2 (- ?k) < pow2 (- ?k + 1)" by (simp add: pow2_less_iff)
    with True False show ?thesis by (simp add: ilog2_def Let_def)
  next
    case ne: False
    with up have "x < pow2 (- ?k)" by simp
    with down ne False show ?thesis by (simp add: ilog2_def Let_def)
  qed
qed

lemma ilog2_unique:
  assumes "pow2 k \<le> x" "x < pow2 (k + 1)"
  shows "ilog2 x = k"
proof -
  from assms(1) pow2_pos [of k] have "0 < x" by linarith
  from ilog2_bounds [OF this] have b: "pow2 (ilog2 x) \<le> x" "x < pow2 (ilog2 x + 1)" by simp_all
  from b(1) assms(2) have "pow2 (ilog2 x) < pow2 (k + 1)" by linarith
  then have "ilog2 x < k + 1" by (simp only: pow2_less_iff)
  moreover from assms(1) b(2) have "pow2 k < pow2 (ilog2 x + 1)" by linarith
  then have "k < ilog2 x + 1" by (simp only: pow2_less_iff)
  ultimately show ?thesis by linarith
qed

lemma ilog2_scale:
  assumes "0 < x" shows "ilog2 (x * pow2 k) = ilog2 x + k"
proof (rule ilog2_unique)
  from ilog2_bounds [OF assms] have b: "pow2 (ilog2 x) \<le> x" "x < pow2 (ilog2 x + 1)" by simp_all
  show "pow2 (ilog2 x + k) \<le> x * pow2 k"
    using b(1) pow2_pos [of k] by (simp add: pow2_add)
  have "x * pow2 k < pow2 (ilog2 x + 1) * pow2 k"
    using b(2) pow2_pos [of k] by simp
  then show "x * pow2 k < pow2 (ilog2 x + k + 1)"
    by (simp add: pow2_add [symmetric] add.commute add.left_commute)
qed

subsection \<open>Rounding to 53 bits\<close>

lemma to_double_0: "to_double 0 = 0"
  by (simp add: to_double_def)

lemma to_double_neg: "to_double (- x) = - to_double x"
  by (simp add: to_double_def Let_def round_half_even_neg)

lemma to_double_pos_eq:
  "0 < x \<Longrightarrow>
     to_double x = of_int (round_half_even (x / pow2 (ilog2 x - 52))) * pow2 (ilog2 x - 52)"
  by (simp add: to_double_def Let_def)

lemma pow2_52: "pow2 52 = 2 ^ 52"
  by (simp add: pow2_def)

lemma pow2_53: "pow2 53 = 2 ^ 53"
  by (simp add: pow2_def)

lemma mantissa_bounds:
  assumes "0 < x"
  shows "of_int (2 ^ 52) \<le> x / pow2 (ilog2 x - 52) \<and> x / pow2 (ilog2 x - 52) \<le> of_int (2 ^ 53)"
proof -
  let ?e = "ilog2 x - 52"
  from ilog2_bounds [OF assms] have b: "pow2 (ilog2 x) \<le> x" "x < pow2 (ilog2 x + 1)" by simp_all
  have "pow2 (ilog2 x) = pow2 52 * pow2 ?e" by (rule pow2_shift) simp
  with b(1) have "pow2 52 \<le> x / pow2 ?e" using pow2_pos [of ?e] by (simp add: field_simps)
  moreover have "pow2 (ilog2 x + 1) = pow2 53 * pow2 ?e" by (rule pow2_shift) simp
  with b(2) have "x / pow2 ?e \<le> pow2 53" using pow2_pos [of ?e] by (simp add: field_simps)
  ultimately show ?thesis by (simp add: pow2_52 pow2_53)
qed

lemma round_mantissa:
  assumes "0 < x"
  shows "2 ^ 52 \<le> round_half_even (x / pow2 (ilog2 x - 52))
       \<and> round_half_even (x / pow2 (ilog2 x - 52)) \<le> 2 ^ 53"
  using mantissa_bounds [OF assms]
    round_half_even_mono [of "of_int (2 ^ 52)" "x / pow2 (ilog2 x - 52)"]
    round_half_even_mono [of "x / pow2 (ilog2 x - 52)" "of_int (2 ^ 53)"]
  by (simp only: round_half_even_of_int)

lemma to_double_bounds:
  assumes "0 < x"
  shows "pow2 (ilog2 x) \<le> to_double x \<and> to_double x \<le> pow2 (ilog2 x + 1)"
proof -
  let ?e = "ilog2 x - 52"
  let ?m = "round_half_even (x / pow2 ?e)"
  from round_mantissa [OF assms] have m: "2 ^ 52 \<le> ?m" "?m \<le> 2 ^ 53" by simp_all
  have "pow2 (ilog2 x) = pow2 52 * pow2 ?e" by (rule pow2_shift) simp
  then have lo: "pow2 (ilog2 x) = of_int (2 ^ 52) * pow2 ?e" by (simp only: pow2_52 of_int_power of_int_numeral)
  have "pow2 (ilog2 x + 1) = pow2 53 * pow2 ?e" by (rule pow2_shift) simp
  then have hi: "pow2 (ilog2 x + 1) = of_int (2 ^ 53) * pow2 ?e" by (simp only: pow2_53 of_int_power of_int_numeral)
  have "(of_int (2 ^ 52) :: rat) \<le> of_int ?m" using m(1) by (simp only: of_int_le_iff)
  then have "of_int (2 ^ 52) * pow2 ?e \<le> of_int ?m * pow2 ?e"
    using pow2_pos [of ?e] by (intro mult_right_mono) simp_all
  moreover have "(of_int ?m :: rat) \<le> of_int (2 ^ 53)" using m(2) by (simp only: of_int_le_iff)
  then have "of_int ?m * pow2 ?e \<le> of_int (2 ^ 53) * pow2 ?e"
    using pow2_pos [of ?e] by (intro mult_right_mono) simp_all
  ultimately show ?thesis unfolding lo hi to_double_pos_eq [OF assms] by (intro conjI)
qed

lemma to_double_pos: "0 < x \<Longrightarrow> 0 < to_double x"
  using to_double_bounds [of x] pow2_pos [of "ilog2 x"] by linarith

lemma to_double_neg_less: "x < 0 \<Longrightarrow> to_double x < 0"
  using to_double_pos [of "- x"] by (simp add: to_double_neg)

lemma to_double_pos_iff: "0 < to_double x \<longleftrightarrow> 0 < x"
  using to_double_pos [of x] to_double_neg_less [of x] to_double_0
  by (cases "x = 0"; cases "0 < x") auto

lemma to_double_zero_iff: "to_double x = 0 \<longleftrightarrow> x = 0"
  using to_double_pos [of x] to_double_neg_less [of x] to_double_0
  by (cases "x = 0"; cases "0 < x") auto

lemma to_double_exact_pos:
  assumes "0 < m" "m \<le> 2 ^ 53"
  shows "to_double (of_int m * pow2 e) = of_int m * pow2 e"
proof -
  let ?y = "of_int m * pow2 e :: rat"
  let ?e' = "ilog2 ?y - 52"
  from assms(1) have y: "0 < ?y" using pow2_pos [of e] by simp
  have "\<exists>j. ?y / pow2 ?e' = of_int j"
  proof (cases "m = 2 ^ 53")
    case True
    have "pow2 (e + 53) = pow2 53 * pow2 e" by (rule pow2_shift) simp
    with True have eq: "?y = pow2 (e + 53)" by (simp add: pow2_53)
    have l: "ilog2 (pow2 (e + 53)) = e + 53"
      by (rule ilog2_unique) (simp_all add: pow2_less_iff)
    have "pow2 (e + 53) / pow2 (e + 53 - 52) = pow2 (e + 53 - (e + 53 - 52))"
      by (simp only: pow2_diff)
    also have "e + 53 - (e + 53 - 52) = 52" by simp
    finally have "pow2 (e + 53) / pow2 (e + 53 - 52) = of_int (2 ^ 52)"
      by (simp only: pow2_52 of_int_power of_int_numeral)
    then show ?thesis unfolding eq l ..
  next
    case False
    with assms(2) have "m + 1 \<le> 2 ^ 53" by simp
    then have "(of_int (m + 1) :: rat) \<le> of_int (2 ^ 53)" by (simp only: of_int_le_iff)
    then have "(of_int m :: rat) < of_int (2 ^ 53)" by simp
    then have "?y < of_int (2 ^ 53) * pow2 e"
      using pow2_pos [of e] by (intro mult_strict_right_mono)
    also have "\<dots> = pow2 (e + 53)" using pow2_shift [of 53 e "e + 53"] by (simp add: pow2_53)
    finally have "?y < pow2 (e + 53)" .
    moreover from ilog2_bounds [OF y] have "pow2 (ilog2 ?y) \<le> ?y" by simp
    ultimately have "pow2 (ilog2 ?y) < pow2 (e + 53)" by linarith
    then have "ilog2 ?y < e + 53" by (simp only: pow2_less_iff)
    then have nn: "0 \<le> e - ?e'" by simp
    have "?y / pow2 ?e' = of_int m * pow2 (e - ?e')" by (simp add: pow2_diff)
    also have "\<dots> = of_int (m * 2 ^ nat (e - ?e'))" unfolding pow2_nat [OF nn] by simp
    finally show ?thesis ..
  qed
  then obtain j where j: "?y / pow2 ?e' = of_int j" ..
  then have "of_int j * pow2 ?e' = ?y" using pow2_pos [of ?e'] by (simp add: field_simps)
  then show ?thesis
    unfolding to_double_pos_eq [OF y] j round_half_even_of_int .
qed

lemma to_double_idem: "to_double (to_double x) = to_double x"
proof -
  have pos: "to_double (to_double x) = to_double x" if "0 < x" for x
  proof -
    from round_mantissa [OF that]
    have "0 < round_half_even (x / pow2 (ilog2 x - 52))"
      "round_half_even (x / pow2 (ilog2 x - 52)) \<le> 2 ^ 53" by simp_all
    from to_double_exact_pos [OF this] show ?thesis
      unfolding to_double_pos_eq [OF that] .
  qed
  show ?thesis
  proof (cases "0 < x")
    case True
    then show ?thesis by (rule pos)
  next
    case False
    show ?thesis
    proof (cases "x = 0")
      case True
      then show ?thesis by (simp add: to_double_0)
    next
      case ne: False
      with False have "0 < - x" by simp
      from pos [OF this] show ?thesis by (simp add: to_double_neg)
    qed
  qed
qed

lemma to_double_of_int:
  assumes "\<bar>n\<bar> \<le> 2 ^ 53"
  shows "to_double (of_int n) = of_int n"
proof -
  have pos: "to_double (of_int m) = of_int m" if "0 < m" "m \<le> 2 ^ 53" for m
    using to_double_exact_pos [OF that, of 0] by (simp add: pow2_0)
  show ?thesis
  proof (cases "0 < n")
    case True
    with assms show ?thesis by (intro pos) simp_all
  next
    case False
    show ?thesis
    proof (cases "n = 0")
      case True
      then show ?thesis by (simp add: to_double_0)
    next
      case ne: False
      with False assms have "0 < - n" "- n \<le> 2 ^ 53" by simp_all
      from pos [OF this] show ?thesis by (simp add: to_double_neg)
    qed
  qed
qed

lemma to_double_mono_pos:
  assumes "0 < x" "x \<le> y"
  shows "to_double x \<le> to_double y"
proof -
  from assms have y: "0 < y" by simp
  from ilog2_bounds [OF assms(1)] have bx: "pow2 (ilog2 x) \<le> x" by simp
  from ilog2_bounds [OF y] have "y < pow2 (ilog2 y + 1)" by simp
  with bx assms(2) have "pow2 (ilog2 x) < pow2 (ilog2 y + 1)" by linarith
  then have le: "ilog2 x \<le> ilog2 y" by (simp add: pow2_less_iff)
  show ?thesis
  proof (cases "ilog2 x = ilog2 y")
    case True
    let ?e = "ilog2 y - 52"
    have "x / pow2 ?e \<le> y / pow2 ?e"
      using assms(2) pow2_pos [of ?e] by (simp add: divide_right_mono)
    then have "round_half_even (x / pow2 ?e) \<le> round_half_even (y / pow2 ?e)"
      by (rule round_half_even_mono)
    then have "(of_int (round_half_even (x / pow2 ?e)) :: rat)
        \<le> of_int (round_half_even (y / pow2 ?e))" by (simp only: of_int_le_iff)
    then have "of_int (round_half_even (x / pow2 ?e)) * pow2 ?e
        \<le> of_int (round_half_even (y / pow2 ?e)) * pow2 ?e"
      using pow2_pos [of ?e] by (intro mult_right_mono) simp_all
    then show ?thesis
      unfolding to_double_pos_eq [OF assms(1)] to_double_pos_eq [OF y] True .
  next
    case False
    with le have "ilog2 x + 1 \<le> ilog2 y" by simp
    then have "pow2 (ilog2 x + 1) \<le> pow2 (ilog2 y)" by (rule pow2_mono)
    moreover from to_double_bounds [OF assms(1)] have "to_double x \<le> pow2 (ilog2 x + 1)" by simp
    moreover from to_double_bounds [OF y] have "pow2 (ilog2 y) \<le> to_double y" by simp
    ultimately show ?thesis by linarith
  qed
qed

lemma to_double_mono:
  assumes "x \<le> y"
  shows "to_double x \<le> to_double y"
proof (cases "0 < x")
  case True
  from to_double_mono_pos [OF this assms] show ?thesis .
next
  case False
  show ?thesis
  proof (cases "0 \<le> y")
    case True
    have "to_double x \<le> 0"
      using False to_double_neg_less [of x] to_double_0 by (cases "x = 0") auto
    moreover have "0 \<le> to_double y"
      using True to_double_pos [of y] to_double_0 by (cases "y = 0") auto
    ultimately show ?thesis by linarith
  next
    case neg: False
    with assms have "0 < - y" "- y \<le> - x" by simp_all
    from to_double_mono_pos [OF this] show ?thesis by (simp add: to_double_neg)
  qed
qed

lemma to_double_scale: "to_double (x * pow2 k) = to_double x * pow2 k"
proof (cases "x = 0")
  case True
  then show ?thesis by (simp add: to_double_0)
next
  case False
  then have a: "0 < \<bar>x\<bar>" by simp
  have "\<bar>x * pow2 k\<bar> = \<bar>x\<bar> * pow2 k" using pow2_pos [of k] by (simp add: abs_mult)
  then have l: "ilog2 \<bar>x * pow2 k\<bar> = ilog2 \<bar>x\<bar> + k" by (simp only: ilog2_scale [OF a])
  have e: "ilog2 \<bar>x\<bar> + k - 52 = (ilog2 \<bar>x\<bar> - 52) + k" by simp
  have ne: "x * pow2 k \<noteq> 0" using False pow2_pos [of k] by simp
  have q: "x * pow2 k / (pow2 (ilog2 \<bar>x\<bar> - 52) * pow2 k) = x / pow2 (ilog2 \<bar>x\<bar> - 52)"
    using pow2_pos [of k] by simp
  show ?thesis
    using False ne by (simp add: to_double_def Let_def l e pow2_add q del: mult_eq_0_iff)
qed

subsection \<open>The type of floats\<close>

lemma val_dbl: "val (dbl x) = to_double x"
  by (simp add: val_def dbl_def Abs_double_inverse)

lemma to_double_val: "to_double (val a) = val a"
proof -
  have "Rep_double a \<in> range to_double" by (rule Rep_double)
  then obtain x where "Rep_double a = to_double x" ..
  then show ?thesis by (simp add: val_def to_double_idem)
qed

lemma dbl_val: "dbl (val a) = a"
  by (simp add: dbl_def to_double_val) (simp add: val_def Rep_double_inverse)

lemma val_inject: "val a = val b \<longleftrightarrow> a = b"
  by (simp add: val_def Rep_double_inject)

lemma dbl_eq_iff: "dbl x = dbl y \<longleftrightarrow> to_double x = to_double y"
  using val_inject [of "dbl x" "dbl y"] by (simp add: val_dbl)

lemma val_dbl_of_int: "\<bar>n\<bar> \<le> 2 ^ 53 \<Longrightarrow> val (dbl (of_int n)) = of_int n"
  by (simp add: val_dbl to_double_of_int)

lemma val_dbl_0: "val (dbl 0) = 0"
  by (simp add: val_dbl to_double_0)

lemma val_dbl_2: "val (dbl 2) = 2"
  using val_dbl_of_int [of 2] by simp

lemma le_val_dbl: "val a \<le> x \<Longrightarrow> val a \<le> val (dbl x)"
  using to_double_mono [of "val a" x] by (simp add: val_dbl to_double_val)

lemma val_dbl_le: "x \<le> val b \<Longrightarrow> val (dbl x) \<le> val b"
  using to_double_mono [of x "val b"] by (simp add: val_dbl to_double_val)

lemma to_double_twice: "to_double (2 * x) = 2 * to_double x"
  using to_double_scale [of x 1] by (simp add: pow2_def mult.commute)

lemma mean_between:
  assumes "val a \<le> val b"
  shows "val a \<le> val (fdiv (fadd a b) (dbl 2)) \<and> val (fdiv (fadd a b) (dbl 2)) \<le> val b"
proof -
  let ?s = "val (fadd a b)"
  have s: "?s = to_double (val a + val b)" by (simp add: fadd_def val_dbl)
  have "to_double (2 * val a) \<le> ?s" unfolding s using assms by (intro to_double_mono) simp
  then have lo: "2 * val a \<le> ?s" by (simp add: to_double_twice to_double_val)
  have "?s \<le> to_double (2 * val b)" unfolding s using assms by (intro to_double_mono) simp
  then have hi: "?s \<le> 2 * val b" by (simp add: to_double_twice to_double_val)
  have m: "val (fdiv (fadd a b) (dbl 2)) = val (dbl (?s / 2))" by (simp add: fdiv_def val_dbl_2)
  from lo have "val a \<le> ?s / 2" by simp
  then have "val a \<le> val (dbl (?s / 2))" by (rule le_val_dbl)
  moreover from hi have "?s / 2 \<le> val b" by simp
  then have "val (dbl (?s / 2)) \<le> val b" by (rule val_dbl_le)
  ultimately show ?thesis unfolding m by (intro conjI)
qed

section \<open>Properties of the monthly aggregation\<close>

lemma group_step_key:
  "group_step g r = (case record_key r of None \<Rightarrow> g
     | Some k \<Rightarrow> dict_append k (rec_price_per_gram r) g)"
  by (auto simp: group_step_def record_key_def Let_def split: option.splits)

lemma map_fst_grouped_append:
  "map fst (dict_append k v g) = (if k \<in> fst ` set g then map fst g else map fst g @ [k])"
  by (induction k v g rule: dict_append.induct) (auto)

lemma map_of_grouped_append:
  "map_of (dict_append k v g) k' =
     (if k' = k then Some (case map_of g k of None \<Rightarrow> [v] | Some vs \<Rightarrow> vs @ [v])
      else map_of g k')"
  by (induction k v g rule: dict_append.induct) (auto)

lemma distinct_grouped_append:
  "distinct (map fst g) \<Longrightarrow> distinct (map fst (dict_append k v g))"
  by (simp add: map_fst_grouped_append)

lemma group_prices_snoc:
  "group_prices (rs @ [r]) k =
     (if record_key r = Some k then group_prices rs k @ [rec_price_per_gram r] else group_prices rs k)"
  by (simp add: group_prices_def)

lemma group_records_snoc: "group_records (rs @ [r]) = group_step (group_records rs) r"
  by (simp add: group_records_def)

lemma group_records_Nil: "group_records [] = []"
  by (simp add: group_records_def)

lemma distinct_group_records: "distinct (map fst (group_records rs))"
proof (induction rs rule: rev_induct)
  case Nil
  show ?case by (simp add: group_records_Nil)
next
  case (snoc r rs)
  then show ?case
    by (simp add: group_records_snoc group_step_key distinct_grouped_append split: option.splits)
qed

lemma map_of_group_records:
  "map_of (group_records rs) k =
     (if group_prices rs k = [] then None else Some (group_prices rs k))"
proof (induction rs arbitrary: k rule: rev_induct)
  case Nil
  show ?case by (simp add: group_records_Nil group_prices_def)
next
  case (snoc r rs)
  show ?case
  proof (cases "record_key r")
    case None
    then show ?thesis using snoc [of k]
      by (simp add: group_records_snoc group_step_key group_prices_snoc)
  next
    case (Some k')
    then show ?thesis using snoc [of k] snoc [of k']
      by (simp add: group_records_snoc group_step_key group_prices_snoc map_of_grouped_append)
  qed
qed

lemma group_prices_Nil_iff: "group_prices rs k = [] \<longleftrightarrow> k \<notin> month_keys rs"
  by (auto simp: group_prices_def month_keys_def filter_empty_conv)

lemma group_records_entry:
  "(k, ps) \<in> set (group_records rs) \<longleftrightarrow> ps = group_prices rs k \<and> k \<in> month_keys rs"
proof -
  have "(k, ps) \<in> set (group_records rs) \<longleftrightarrow> map_of (group_records rs) k = Some ps"
    using distinct_group_records [of rs] by simp
  also have "\<dots> \<longleftrightarrow> ps = group_prices rs k \<and> k \<in> month_keys rs"
    by (auto simp: map_of_group_records group_prices_Nil_iff)
  finally show ?thesis .
qed

lemma median_nonempty:
  "ps \<noteq> [] \<Longrightarrow> median ps =
     Inr (if length ps mod 2 = 1 then sort_key val ps ! (length ps div 2)
          else fdiv (fadd (sort_key val ps ! (length ps div 2 - 1))
                 (sort_key val ps ! (length ps div 2))) (dbl 2))"
  unfolding median_def Let_def length_sort by simp

lemma month_keys_length: "k \<in> month_keys rs \<Longrightarrow> length (snd k) = 7"
  by (auto simp: month_keys_def record_key_def split: option.splits if_splits)

lemma agg_key_make_aggregate: "length (snd k) = 7 \<Longrightarrow> agg_key (make_aggregate k ps m) = k"
  by (simp add: agg_key_def make_aggregate_def)

lemma aggregate_groups_ok:
  "\<forall>(k, ps) \<in> set gs. ps \<noteq> [] \<Longrightarrow>
   \<exists>out. aggregate_groups gs acc = Inr (acc @ out) \<and>
     list_all2 (\<lambda>a (k, ps). \<exists>m. median ps = Inr m \<and> a = make_aggregate k ps m) out gs"
proof (induction gs arbitrary: acc)
  case Nil
  show ?case by simp
next
  case (Cons g gs)
  obtain k ps where g: "g = (k, ps)" by (cases g)
  from Cons.prems g have ne: "ps \<noteq> []" by simp
  then obtain m where m: "median ps = Inr m" using median_nonempty by blast
  from Cons.prems have "\<forall>(k, ps) \<in> set gs. ps \<noteq> []" by simp
  from Cons.IH [OF this, of "acc @ [make_aggregate k ps m]"]
  obtain out where out: "aggregate_groups gs (acc @ [make_aggregate k ps m])
      = Inr ((acc @ [make_aggregate k ps m]) @ out)"
    and rel: "list_all2 (\<lambda>a (k, ps). \<exists>m. median ps = Inr m \<and> a = make_aggregate k ps m) out gs"
    by blast
  have "aggregate_groups (g # gs) acc = Inr (acc @ (make_aggregate k ps m # out))"
    using g ne m out by simp
  moreover have "list_all2 (\<lambda>a (k, ps). \<exists>m. median ps = Inr m \<and> a = make_aggregate k ps m)
      (make_aggregate k ps m # out) (g # gs)"
    using g m rel by simp
  ultimately show ?case by blast
qed

lemma map_insort_key: "map f (insort_key f x xs) = insort (f x) (map f xs)"
  by (induction xs) simp_all

lemma map_sort_key: "map f (sort_key f xs) = sort (map f xs)"
  by (induction xs) (simp_all add: map_insort_key)

lemma sorted_keys_group_records:
  "map fst (sort_key fst (group_records rs)) = sorted_list_of_set (month_keys rs)"
proof -
  have set: "set (map fst (group_records rs)) = month_keys rs"
  proof (rule set_eqI)
    fix k
    have "k \<in> set (map fst (group_records rs)) \<longleftrightarrow> (\<exists>ps. (k, ps) \<in> set (group_records rs))"
      by force
    then show "k \<in> set (map fst (group_records rs)) \<longleftrightarrow> k \<in> month_keys rs"
      by (simp add: group_records_entry)
  qed
  have "sorted_list_of_set (set (sort (map fst (group_records rs)))) = sort (map fst (group_records rs))"
    by (rule sorted_list_of_set.idem_if_sorted_distinct) (simp_all add: distinct_group_records)
  then show ?thesis using set by (simp add: map_sort_key)
qed

lemma sorted_count_le:
  assumes "sorted (d::rat list)" "i < length d" "d ! i \<le> m"
  shows "i + 1 \<le> length (filter (\<lambda>x. x \<le> m) d)"
proof -
  have "\<forall>x \<in> set (take (i + 1) d). x \<le> m"
  proof
    fix x assume "x \<in> set (take (i + 1) d)"
    then obtain j where "j < i + 1" "j < length d" "x = d ! j"
      by (auto simp: in_set_conv_nth)
    then have "x \<le> d ! i" using assms(1,2) by (auto simp: sorted_iff_nth_mono)
    then show "x \<le> m" using assms(3) by simp
  qed
  then have "filter (\<lambda>x. x \<le> m) (take (i + 1) d) = take (i + 1) d" by simp
  moreover have "filter (\<lambda>x. x \<le> m) d =
      filter (\<lambda>x. x \<le> m) (take (i + 1) d) @ filter (\<lambda>x. x \<le> m) (drop (i + 1) d)"
    by (metis append_take_drop_id filter_append)
  ultimately show ?thesis using assms(2) by simp
qed

lemma sorted_count_ge:
  assumes "sorted (d::rat list)" "i < length d" "m \<le> d ! i"
  shows "length d - i \<le> length (filter (\<lambda>x. m \<le> x) d)"
proof -
  have "\<forall>x \<in> set (drop i d). m \<le> x"
  proof
    fix x assume "x \<in> set (drop i d)"
    then obtain j where "j < length d - i" "x = d ! (i + j)"
      by (auto simp: in_set_conv_nth)
    then have "d ! i \<le> x" using assms(1,2) by (auto simp: sorted_iff_nth_mono)
    then show "m \<le> x" using assms(3) by simp
  qed
  then have "filter (\<lambda>x. m \<le> x) (drop i d) = drop i d" by simp
  moreover have "filter (\<lambda>x. m \<le> x) d =
      filter (\<lambda>x. m \<le> x) (take i d) @ filter (\<lambda>x. m \<le> x) (drop i d)"
    by (metis append_take_drop_id filter_append)
  ultimately show ?thesis by simp
qed

lemma count_vals:
  "length (filter (\<lambda>x. P (val x)) xs) = length (filter P (sort (map val xs)))"
proof -
  have "length (filter P (sort (map val xs))) = length (filter P (map val xs))"
    by (simp add: filter_sort)
  also have "\<dots> = length (filter (\<lambda>x. P (val x)) xs)"
    by (simp add: filter_map comp_def)
  finally show ?thesis by simp
qed

lemma median_middle:
  assumes "median xs = Inr m"
  shows "\<exists>i j. i \<le> j \<and> j < length xs \<and> j \<le> length xs div 2 \<and> length xs \<le> 2 * (i + 1)
     \<and> sort (map val xs) ! i \<le> val m \<and> val m \<le> sort (map val xs) ! j"
proof -
  let ?s = "sort_key val xs" and ?d = "sort (map val xs)" and ?n = "length xs"
  have ne: "xs \<noteq> []" using assms by (auto simp: median_def Let_def)
  note med = median_nonempty [OF ne]
  have d: "?d = map val ?s" by (simp add: map_sort_key)
  have sd: "sorted ?d" and ld: "length ?d = ?n" by simp_all
  have n0: "0 < ?n" using ne by simp
  have nth: "?d ! k = val (?s ! k)" if "k < ?n" for k
    unfolding d using that by simp
  show ?thesis
  proof (cases "?n mod 2 = 1")
    case True
    then have m: "m = ?s ! (?n div 2)" using assms med by simp
    have i: "?n div 2 < ?n" using n0 by simp
    have "?n \<le> 2 * (?n div 2 + 1)" by presburger
    with i m nth [OF i] show ?thesis
      by (intro exI [of _ "?n div 2"]) simp
  next
    case False
    let ?i = "?n div 2 - 1" and ?j = "?n div 2"
    from False have m: "m = fdiv (fadd (?s ! ?i) (?s ! ?j)) (dbl 2)"
      using assms med by simp
    have j: "?j < ?n" and i: "?i < ?n" using n0 by arith+
    have ij: "?i \<le> ?j" by simp
    have "?d ! ?i \<le> ?d ! ?j"
      using sd j ij ld by (simp only: sorted_iff_nth_mono)
    then have "val (?s ! ?i) \<le> val (?s ! ?j)" by (simp only: nth [OF i] nth [OF j])
    from mean_between [OF this] have "?d ! ?i \<le> val m" "val m \<le> ?d ! ?j"
      by (simp_all only: nth [OF i] nth [OF j] m)
    moreover have "?n \<le> 2 * (?i + 1)" using False n0 by presburger
    ultimately show ?thesis using ij j
      by (intro exI [of _ ?i] exI [of _ ?j]) simp
  qed
qed

lemma median_halves:
  assumes "median xs = Inr m"
  shows "length xs \<le> 2 * length (filter (\<lambda>x. val x \<le> val m) xs)
       \<and> length xs \<le> 2 * length (filter (\<lambda>x. val m \<le> val x) xs)"
proof -
  let ?d = "sort (map val xs)" and ?n = "length xs"
  have sd: "sorted ?d" and ld: "length ?d = ?n" by simp_all
  from median_middle [OF assms] obtain i j where ij: "i \<le> j" "j < ?n" "j \<le> ?n div 2"
    "?n \<le> 2 * (i + 1)" and lo: "?d ! i \<le> val m" and hi: "val m \<le> ?d ! j"
    by blast
  from ij have i: "i < length ?d" and j: "j < length ?d" by simp_all
  from sorted_count_le [OF sd i lo]
  have "2 * (i + 1) \<le> 2 * length (filter (\<lambda>x. x \<le> val m) ?d)" by simp
  with ij(4) have "?n \<le> 2 * length (filter (\<lambda>x. x \<le> val m) ?d)" by (rule order_trans)
  moreover from sorted_count_ge [OF sd j hi]
  have "2 * (?n - j) \<le> 2 * length (filter (\<lambda>x. val m \<le> x) ?d)" unfolding ld by simp
  moreover from ij(3) have "?n \<le> 2 * (?n - j)" by presburger
  ultimately show ?thesis
    by (simp only: count_vals [of "\<lambda>v. v \<le> val m"] count_vals [of "\<lambda>v. val m \<le> v"])
      (meson order_trans)
qed

lemma median_between:
  assumes "median ps = Inr m" "\<forall>p \<in> set ps. lo < val p \<and> val p \<le> hi"
  shows "lo < val m \<and> val m \<le> hi"
proof -
  let ?d = "sort (map val ps)"
  from median_middle [OF assms(1)] obtain i j where ij: "i \<le> j" "j < length ps"
    and l: "?d ! i \<le> val m" and h: "val m \<le> ?d ! j"
    by blast
  from ij have "i < length ?d" "j < length ?d" by simp_all
  then have "?d ! i \<in> set ?d" "?d ! j \<in> set ?d" by (simp_all only: nth_mem)
  then have "?d ! i \<in> val ` set ps" "?d ! j \<in> val ` set ps" by simp_all
  with assms(2) have "lo < ?d ! i" "?d ! j \<le> hi" by auto
  with l h show ?thesis by linarith
qed

lemma aggregates_of_groups:
  "\<exists>out. calculate_monthly_medians records = Inr out
     \<and> map agg_key out = sorted_list_of_set (month_keys records)
     \<and> (\<forall>a \<in> set out. \<exists>m. median (group_prices records (agg_key a)) = Inr m
           \<and> agg_material_slug a = fst (agg_key a)
           \<and> agg_price_usd a = py_round m 2
           \<and> agg_source a = ''WorthPoint (n='' @ str_nat (length (group_prices records (agg_key a))) @ '')''
           \<and> recorded_at a = snd (agg_key a) @ ''-15'')"
proof -
  let ?gs = "sort_key fst (group_records records)"
  have entries: "\<And>k ps. (k, ps) \<in> set ?gs \<Longrightarrow> ps = group_prices records k \<and> k \<in> month_keys records"
    by (simp add: group_records_entry)
  have "\<forall>(k, ps) \<in> set ?gs. ps \<noteq> []"
  proof (clarify)
    fix k assume "(k, []) \<in> set ?gs"
    from entries [OF this] have "group_prices records k = []" "k \<in> month_keys records"
      by simp_all
    then show False by (simp add: group_prices_Nil_iff)
  qed
  from aggregate_groups_ok [OF this, of "[]"]
  obtain out where out: "aggregate_groups ?gs [] = Inr out"
    and rel: "list_all2 (\<lambda>a (k, ps). \<exists>m. median ps = Inr m \<and> a = make_aggregate k ps m) out ?gs"
    by auto
  have each: "\<exists>m. median (group_prices records (fst g)) = Inr m
        \<and> a = make_aggregate (fst g) (group_prices records (fst g)) m \<and> agg_key a = fst g"
    if "(a, g) \<in> set (zip out ?gs)" for a g
  proof -
    obtain k ps where g: "g = (k, ps)" by (cases g)
    from that have "g \<in> set ?gs" by (rule set_zip_rightD)
    with g entries have ps: "ps = group_prices records k" and k: "k \<in> month_keys records" by auto
    from rel that g obtain m where "median ps = Inr m" "a = make_aggregate k ps m"
      by (auto simp: list_all2_iff)
    then show ?thesis using g ps month_keys_length [OF k] by (auto simp: agg_key_make_aggregate)
  qed
  have len: "length out = length ?gs" using rel by (rule list_all2_lengthD)
  have keys: "map agg_key out = map fst ?gs"
  proof (rule nth_equalityI)
    show "length (map agg_key out) = length (map fst ?gs)" using len by simp
  next
    fix i assume "i < length (map agg_key out)"
    then have i: "i < length out" by simp
    then have "(out ! i, ?gs ! i) \<in> set (zip out ?gs)"
      using len by (auto simp: in_set_zip)
    from each [OF this] have "agg_key (out ! i) = fst (?gs ! i)" by blast
    then show "map agg_key out ! i = map fst ?gs ! i"
      using i len by simp
  qed
  have fields: "\<exists>m. median (group_prices records (agg_key a)) = Inr m
           \<and> agg_material_slug a = fst (agg_key a)
           \<and> agg_price_usd a = py_round m 2
           \<and> agg_source a = ''WorthPoint (n='' @ str_nat (length (group_prices records (agg_key a))) @ '')''
           \<and> recorded_at a = snd (agg_key a) @ ''-15''" if "a \<in> set out" for a
  proof -
    from that obtain i where "i < length out" "out ! i = a"
      by (auto simp: in_set_conv_nth)
    with len have "(a, ?gs ! i) \<in> set (zip out ?gs)"
      by (auto simp: in_set_zip)
    then obtain g where "(a, g) \<in> set (zip out ?gs)" ..
    from each [OF this] obtain m where m: "median (group_prices records (fst g)) = Inr m"
      and a: "a = make_aggregate (fst g) (group_prices records (fst g)) m" and k: "agg_key a = fst g"
      by blast
    have "agg_material_slug a = fst (fst g)" "agg_price_usd a = py_round m 2"
      "agg_source a = ''WorthPoint (n='' @ str_nat (length (group_prices records (fst g))) @ '')''"
      "recorded_at a = snd (fst g) @ ''-15''"
      by (simp_all add: a make_aggregate_def)
    with m k show ?thesis by simp
  qed
  show ?thesis
    using out keys fields sorted_keys_group_records [of records]
    by (simp add: calculate_monthly_medians_def)
qed

section \<open>Properties of the mass extractor\<close>

lemma star_rests_split:
  "s1 \<in> set (star_rests k s) \<Longrightarrow> \<exists>pre. s = pre @ s1 \<and> list_all (in_class k) pre"
proof (induction s)
  case Nil
  then show ?case by simp
next
  case (Cons c cs)
  show ?case
  proof (cases "s1 = c # cs")
    case True
    then show ?thesis by simp
  next
    case False
    with Cons.prems have c: "in_class k c" and "s1 \<in> set (star_rests k cs)"
      by (auto split: if_splits)
    from Cons.IH [OF this(2)] obtain pre where "cs = pre @ s1" "list_all (in_class k) pre"
      by blast
    with c have "c # cs = (c # pre) @ s1 \<and> list_all (in_class k) (c # pre)" by simp
    then show ?thesis by blast
  qed
qed

lemma matches_suffix:
  "(g, s1) \<in> set (matches r s) \<Longrightarrow> \<exists>pre. s = pre @ s1"
proof (induction r arbitrary: g s s1)
  case Eps then show ?case by simp
next
  case (Atom k) then show ?case by (auto split: list.splits if_splits)
next
  case Eos then show ?case by (auto split: if_splits)
next
  case (Seq r1 r2)
  from Seq.prems obtain g1 sa g2 where a: "(g1, sa) \<in> set (matches r1 s)"
      and b: "(g2, s1) \<in> set (matches r2 sa)"
    by auto
  from Seq.IH(1) [OF a] Seq.IH(2) [OF b] show ?case by auto
next
  case (Alt r1 r2) then show ?case by auto
next
  case (Opt r) then show ?case by auto
next
  case (Star k) then show ?case using star_rests_split by fastforce
next
  case (Plus k)
  then obtain c cs where s: "s = c # cs" and "s1 \<in> set (star_rests k cs)"
    by (auto split: list.splits if_splits)
  from star_rests_split [OF this(2)] obtain pre where "cs = pre @ s1" by blast
  with s have "s = (c # pre) @ s1" by simp
  then show ?case by blast
next
  case (Group r) then show ?case by auto
qed

lemma matches_no_group:
  "no_group r \<Longrightarrow> (g, s1) \<in> set (matches r s) \<Longrightarrow> g = None"
proof (induction r arbitrary: g s s1)
  case (Seq r1 r2)
  from Seq.prems(2) obtain g1 sa g2 where a: "(g1, sa) \<in> set (matches r1 s)"
      and b: "(g2, s1) \<in> set (matches r2 sa)"
      and g: "g = (case g2 of None \<Rightarrow> g1 | Some x \<Rightarrow> Some x)"
    by auto
  from Seq.prems(1) Seq.IH(1) [OF _ a] Seq.IH(2) [OF _ b] g show ?case by simp
qed (auto split: list.splits if_splits)

lemma lower_char_digit: "is_digit c \<Longrightarrow> lower_char c = c"
  by (simp add: is_digit_def lower_char_def Let_def)

lemma not_digit_dot: "\<not> is_digit CHR ''.''"
  by (simp add: is_digit_def)

lemma lower_char_eq_dot: "lower_char c = CHR ''.'' \<Longrightarrow> c = CHR ''.''"
proof -
  assume a: "lower_char c = CHR ''.''"
  show ?thesis
  proof (cases "lower_char c = c")
    case True
    with a show ?thesis by simp
  next
    case False
    then have up: "(65 \<le> (of_char c :: nat) \<and> (of_char c :: nat) \<le> 90)
        \<or> (192 \<le> (of_char c :: nat) \<and> (of_char c :: nat) \<le> 222)"
      and lc: "lower_char c = char_of ((of_char c :: nat) + 32)"
      by (auto simp: lower_char_def Let_def split: if_splits)
    from a lc have "of_char (char_of ((of_char c :: nat) + 32) :: char) = (46 :: nat)"
      by simp
    then have m: "((of_char c :: nat) + 32) mod 256 = 46" by (simp add: of_char_of)
    from up have "(of_char c :: nat) + 32 < 256" by linarith
    then have "((of_char c :: nat) + 32) mod 256 = of_char c + 32" by (rule mod_less)
    with m up have False by linarith
    then show ?thesis ..
  qed
qed

lemma float_of_decimal_digits:
  assumes "ds \<noteq> []" "list_all is_digit ds" "list_all is_digit fs"
  shows "\<exists>v. float_of_decimal (ds @ fs) = Some v"
    and "\<exists>v. float_of_decimal (ds @ CHR ''.'' # fs) = Some v"
proof -
  have all: "\<forall>c \<in> set (ds @ fs). is_digit c" using assms by (auto simp: list_all_iff)
  then have tw: "takeWhile is_digit (ds @ fs) = ds @ fs"
    and dw: "dropWhile is_digit (ds @ fs) = []"
    by (simp_all del: set_append)
  show "\<exists>v. float_of_decimal (ds @ fs) = Some v"
    unfolding float_of_decimal_def Let_def tw dw using assms(1) by simp
  have d: "\<forall>c \<in> set ds. is_digit c" using assms by (auto simp: list_all_iff)
  have tw2: "takeWhile is_digit (ds @ CHR ''.'' # fs) = ds"
    using d not_digit_dot by (simp add: takeWhile_append2)
  have dw2: "dropWhile is_digit (ds @ CHR ''.'' # fs) = CHR ''.'' # fs"
    using d not_digit_dot by (simp add: dropWhile_append2)
  show "\<exists>v. float_of_decimal (ds @ CHR ''.'' # fs) = Some v"
    unfolding float_of_decimal_def Let_def tw2 dw2 using assms by simp
qed

lemma number_unfold:
  "number = Group (Seq (Plus Digit) (Seq (Opt (Atom (Ch CHR ''.''))) (Star Digit)))"
  by (simp add: number_def)

lemma matches_Seq_iff:
  "(g, s1) \<in> set (matches (Seq r1 r2) s) \<longleftrightarrow>
     (\<exists>g1 sa g2. (g1, sa) \<in> set (matches r1 s) \<and> (g2, s1) \<in> set (matches r2 sa)
        \<and> g = (case g2 of None \<Rightarrow> g1 | Some x \<Rightarrow> Some x))"
proof
  assume "(g, s1) \<in> set (matches (Seq r1 r2) s)"
  then show "\<exists>g1 sa g2. (g1, sa) \<in> set (matches r1 s) \<and> (g2, s1) \<in> set (matches r2 sa)
        \<and> g = (case g2 of None \<Rightarrow> g1 | Some x \<Rightarrow> Some x)"
    by auto
next
  assume "\<exists>g1 sa g2. (g1, sa) \<in> set (matches r1 s) \<and> (g2, s1) \<in> set (matches r2 sa)
        \<and> g = (case g2 of None \<Rightarrow> g1 | Some x \<Rightarrow> Some x)"
  then obtain g1 sa g2 where a: "(g1, sa) \<in> set (matches r1 s)"
    and b: "(g2, s1) \<in> set (matches r2 sa)"
    and g: "g = (case g2 of None \<Rightarrow> g1 | Some x \<Rightarrow> Some x)" by blast
  from b have "(g, s1) \<in> (\<lambda>(g2, s2). (case g2 of None \<Rightarrow> g1 | Some x \<Rightarrow> Some x, s2))
      ` set (matches r2 sa)"
    unfolding g by (rule rev_image_eqI) simp
  with a show "(g, s1) \<in> set (matches (Seq r1 r2) s)"
    by (simp del: split_paired_Ex) (rule bexI [of _ "(g1, sa)"], simp_all)
qed

lemma matches_Group_iff:
  "(g, s1) \<in> set (matches (Group r) s) \<longleftrightarrow>
     (\<exists>g0. (g0, s1) \<in> set (matches r s) \<and> g = Some (take (length s - length s1) s))"
  by auto

lemma matches_Opt_Atom:
  "(g, s1) \<in> set (matches (Opt (Atom k)) s) \<Longrightarrow> s1 = s \<or> (\<exists>c. s = c # s1 \<and> in_class k c)"
  by (auto split: list.splits if_splits)

lemma matches_Star_rests:
  "(g, s1) \<in> set (matches (Star k) s) \<Longrightarrow> s1 \<in> set (star_rests k s)"
  by auto

lemma plus_rests_split:
  "(g, s1) \<in> set (matches (Plus k) s) \<Longrightarrow>
     \<exists>pre. s = pre @ s1 \<and> pre \<noteq> [] \<and> list_all (in_class k) pre"
proof -
  assume "(g, s1) \<in> set (matches (Plus k) s)"
  then obtain c cs where s: "s = c # cs" and c: "in_class k c"
      and "s1 \<in> set (star_rests k cs)"
    by (auto split: list.splits if_splits)
  from star_rests_split [OF this(3)] obtain pre where "cs = pre @ s1" "list_all (in_class k) pre"
    by blast
  with s c have "s = (c # pre) @ s1 \<and> c # pre \<noteq> [] \<and> list_all (in_class k) (c # pre)"
    by simp
  then show ?thesis by blast
qed

lemma number_capture:
  assumes "(g, s1) \<in> set (matches number s)"
  shows "\<exists>text v. g = Some text \<and> float_of_decimal text = Some v"
proof -
  let ?body = "Seq (Plus Digit) (Seq (Opt (Atom (Ch CHR ''.''))) (Star Digit))"
  from assms obtain g0 where body: "(g0, s1) \<in> set (matches ?body s)"
    and g: "g = Some (take (length s - length s1) s)"
    unfolding number_unfold matches_Group_iff by blast
  from body obtain ga sa gb where a: "(ga, sa) \<in> set (matches (Plus Digit) s)"
    and rest: "(gb, s1) \<in> set (matches (Seq (Opt (Atom (Ch CHR ''.''))) (Star Digit)) sa)"
    unfolding matches_Seq_iff [of g0] by blast
  from rest obtain gc sb gd where b: "(gc, sb) \<in> set (matches (Opt (Atom (Ch CHR ''.''))) sa)"
    and c: "(gd, s1) \<in> set (matches (Star Digit) sb)"
    unfolding matches_Seq_iff [of gb] by blast
  from plus_rests_split [OF a] obtain ds where ds: "s = ds @ sa" "ds \<noteq> []" "list_all is_digit ds"
    by (auto simp: list_all_iff)
  from c have "s1 \<in> set (star_rests Digit sb)" by (rule matches_Star_rests)
  from star_rests_split [OF this] obtain fs where fs: "sb = fs @ s1" "list_all is_digit fs"
    by (auto simp: list_all_iff)
  from matches_Opt_Atom [OF b]
  have "sb = sa \<or> (\<exists>c. sa = c # sb \<and> lower_char c = lower_char CHR ''.'')"
    by simp
  moreover have "lower_char CHR ''.'' = CHR ''.''" by (simp add: lower_char_def)
  ultimately have "sa = sb \<or> sa = CHR ''.'' # sb" using lower_char_eq_dot by auto
  then show ?thesis
  proof
    assume "sa = sb"
    with ds fs have "s = (ds @ fs) @ s1" by simp
    then have "take (length s - length s1) s = ds @ fs" by simp
    with g float_of_decimal_digits(1) [OF ds(2,3) fs(2)] show ?thesis by auto
  next
    assume "sa = CHR ''.'' # sb"
    with ds fs have "s = (ds @ CHR ''.'' # fs) @ s1" by simp
    then have "take (length s - length s1) s = ds @ CHR ''.'' # fs" by simp
    with g float_of_decimal_digits(2) [OF ds(2,3) fs(2)] show ?thesis by auto
  qed
qed

lemma seq_number_capture:
  assumes "no_group rt" "(g, s1) \<in> set (matches (Seq number rt) s)"
  shows "\<exists>text v. g = Some text \<and> float_of_decimal text = Some v"
proof -
  from assms(2) obtain g1 sa g2 where a: "(g1, sa) \<in> set (matches number s)"
      and b: "(g2, s1) \<in> set (matches rt sa)"
      and g: "g = (case g2 of None \<Rightarrow> g1 | Some x \<Rightarrow> Some x)"
    unfolding matches_Seq_iff by blast
  from matches_no_group [OF assms(1) b] g have "g = g1" by simp
  with number_capture [OF a] show ?thesis by simp
qed

lemma search_Some:
  "search r s = Some g \<Longrightarrow> \<exists>s' s1. (g, s1) \<in> set (matches r s')"
proof (induction s)
  case Nil
  then show ?case by (auto split: list.splits) (metis list.set_intros(1))
next
  case (Cons c cs)
  show ?case
  proof (cases "matches r (c # cs)")
    case Nil
    with Cons show ?thesis by simp
  next
    case (Cons m ms)
    with Cons.prems have "fst m = g" by (cases m) simp
    then have "(g, snd m) \<in> set (matches r (c # cs))" using Cons by (cases m) simp
    then show ?thesis by blast
  qed
qed

lemma search_None:
  "(\<And>s'. set s' \<subseteq> set s \<Longrightarrow> matches r s' = []) \<Longrightarrow> search r s = None"
proof (induction s)
  case Nil
  then show ?case by simp
next
  case (Cons c cs)
  have "matches r (c # cs) = []" by (rule Cons.prems) simp
  moreover have "search r cs = None"
    by (rule Cons.IH, rule Cons.prems) auto
  ultimately show ?case by simp
qed

lemma patterns_shape:
  "\<forall>rule \<in> set patterns. \<exists>rt. fst rule = Seq number rt \<and> no_group rt"
  by (simp add: patterns_def space_or_end_def)

lemma try_patterns_eq:
  assumes "\<forall>rule \<in> set ps. \<exists>rt. fst rule = Seq number rt \<and> no_group rt"
  shows "try_patterns ps t =
     Inr (case find (accepted t) ps of
            None \<Rightarrow> None
          | Some rule \<Rightarrow> map_option (\<lambda>w. py_round w 3) (rule_value rule t))"
  using assms
proof (induction ps)
  case Nil
  show ?case by simp
next
  case (Cons rule ps)
  obtain p m where rule: "rule = (p, m)" by (cases rule)
  from Cons.prems obtain rt where p: "p = Seq number rt" and rt: "no_group rt"
    using rule by auto
  from Cons.prems have IH: "try_patterns ps t =
     Inr (case find (accepted t) ps of
            None \<Rightarrow> None
          | Some rule \<Rightarrow> map_option (\<lambda>w. py_round w 3) (rule_value rule t))"
    by (intro Cons.IH) simp
  show ?case
  proof (cases "search p t")
    case None
    then have "\<not> accepted t rule" using rule by (simp add: accepted_def rule_value_def)
    then show ?thesis using None IH rule by simp
  next
    case (Some g)
    then obtain s' s1 where "(g, s1) \<in> set (matches p s')" using search_Some by blast
    from seq_number_capture [OF rt this [unfolded p]]
    obtain digits v where g: "g = Some digits" and v: "float_of_decimal digits = Some v" by blast
    have rv: "rule_value rule t = Some (fmul v m)"
      using Some g v rule by (simp add: rule_value_def)
    then have acc: "accepted t rule \<longleftrightarrow>
        flt (dbl (1 / 100)) (fmul v m) \<and> flt (fmul v m) (dbl 100000)"
      by (simp add: accepted_def in_bounds_def)
    show ?thesis
    proof (cases "accepted t rule")
      case True
      then show ?thesis using Some g v rule rv acc by (simp add: Let_def)
    next
      case False
      then show ?thesis using Some g v rule acc IH by (auto simp: Let_def)
    qed
  qed
qed

lemma extract_weight_eq:
  "extract_weight t =
     Inr (case find (accepted t) patterns of
            None \<Rightarrow> None
          | Some rule \<Rightarrow> map_option (\<lambda>w. py_round w 3) (rule_value rule t))"
  unfolding extract_weight_def by (rule try_patterns_eq [OF patterns_shape])

lemma matches_needs:
  "needs K r \<Longrightarrow> (g, s1) \<in> set (matches r s) \<Longrightarrow> \<exists>c \<in> set s. \<exists>k. K k \<and> in_class k c"
proof (induction r arbitrary: g s s1)
  case (Atom k)
  then show ?case by (auto split: list.splits if_splits)
next
  case (Plus k)
  then show ?case by (auto split: list.splits if_splits)
next
  case (Seq r1 r2)
  from Seq.prems(2) obtain g1 sa g2 where a: "(g1, sa) \<in> set (matches r1 s)"
      and b: "(g2, s1) \<in> set (matches r2 sa)"
    unfolding matches_Seq_iff by blast
  from matches_suffix [OF a] have sub: "set sa \<subseteq> set s" by auto
  from Seq.prems(1) have "needs K r1 \<or> needs K r2" by simp
  then show ?case
  proof
    assume "needs K r1"
    from Seq.IH(1) [OF this a] show ?thesis .
  next
    assume "needs K r2"
    from Seq.IH(2) [OF this b] sub show ?thesis by blast
  qed
next
  case (Alt r1 r2)
  then show ?case by auto
next
  case (Group r)
  from Group.prems(2) obtain g0 where "(g0, s1) \<in> set (matches r s)"
    unfolding matches_Group_iff by blast
  with Group.IH Group.prems(1) show ?case by simp
qed simp_all

lemma patterns_need_letter: "\<forall>rule \<in> set patterns. needs unit_letter (fst rule)"
  by (simp add: patterns_def space_or_end_def number_def unit_letter_def)

lemma unit_letter_not_numeric:
  assumes "unit_letter k" "in_class k c"
  shows "\<not> is_digit c \<and> c \<noteq> CHR ''.''"
proof -
  from assms(1) obtain x where k: "k = Ch x" and x: "x \<in> set ''gcokl''"
    by (cases k) (auto simp: unit_letter_def)
  from assms(2) k have eq: "lower_char c = lower_char x" by simp
  from x have lx: "lower_char x = x" "\<not> is_digit x" "x \<noteq> CHR ''.''"
    by (auto simp: lower_char_def is_digit_def)
  show ?thesis
  proof (intro conjI notI)
    assume "is_digit c"
    with eq lx lower_char_digit [of c] show False by simp
  next
    assume "c = CHR ''.''"
    with eq lx show False by (simp add: lower_char_def)
  qed
qed

lemma try_patterns_unit_less:
  assumes "\<forall>c \<in> set t. is_digit c \<or> c = CHR ''.''"
    and "\<forall>rule \<in> set ps. needs unit_letter (fst rule)"
  shows "try_patterns ps t = Inr None"
  using assms(2)
proof (induction ps)
  case Nil
  show ?case by simp
next
  case (Cons rule ps)
  obtain p m where rule: "rule = (p, m)" by (cases rule)
  with Cons.prems have p: "needs unit_letter p" by simp
  have "search p t = None"
  proof (rule search_None)
    fix s' assume sub: "set s' \<subseteq> set t"
    show "matches p s' = []"
    proof (rule ccontr)
      assume "matches p s' \<noteq> []"
      then obtain g s1 where "(g, s1) \<in> set (matches p s')"
        by (cases "matches p s'") auto
      from matches_needs [OF p this] obtain c k where "c \<in> set s'" "unit_letter k" "in_class k c"
        by blast
      with unit_letter_not_numeric [of k c] sub assms(1) show False by blast
    qed
  qed
  moreover from Cons have "try_patterns ps t = Inr None" by simp
  ultimately show ?case using rule by simp
qed

lemma multipliers:
  "map snd patterns =
     [dbl 1, dbl 1, dbl 1, dbl (2 / 10), dbl (2 / 10), dbl (2835 / 100), dbl 1000, dbl (4536 / 10)]"
  by (simp add: patterns_def)

text \<open>The facts that evaluate the matcher and the numbers on a given text.\<close>

lemmas regex_eval = patterns_def number_def space_or_end_def is_digit_def is_space_def
  lower_char_def

lemma floor_numeral_quotient:
  "\<lfloor>numeral a / numeral b :: rat\<rfloor> = numeral a div numeral b"
  using floor_divide_of_int_eq [of "numeral a" "numeral b", where ?'a = rat] by simp

lemmas double_eval = fmul_def fdiv_def fadd_def flt_def py_round_def val_dbl dbl_eq_iff
  to_double_def ilog2_def pow2_def round_half_even_def Let_def compute_bitlen
  floor_numeral_quotient

lemmas number_eval = float_of_decimal_def digits_value_def digit_value_def double_eval

lemma extract_weight_examples:
  "extract_weight ''5.2g'' = Inr (Some (dbl (52 / 10)))"
  "extract_weight ''5.2 grams'' = Inr (Some (dbl (52 / 10)))"
  "extract_weight ''12ct'' = Inr (Some (dbl (24 / 10)))"
  "extract_weight ''2oz'' = Inr (Some (dbl (567 / 10)))"
  "extract_weight ''1.5kg'' = Inr (Some (dbl 1500))"
  by (simp_all add: extract_weight_def regex_eval number_eval)

section \<open>Properties of the filtering loop\<close>

lemma titled_title: "titled row \<Longrightarrow> get_title row = Some (title_of row)"
  by (cases "get_title row") (simp_all add: titled_def title_of_def)

lemma filter_row_untitled:
  assumes "\<not> titled row"
  shows "filter_row slug fn acc row = Inl AttributeError"
  using assms by (cases acc) (simp add: filter_row_def titled_def)

lemma filter_row_rejected:
  assumes "titled row" "\<not> passes fn row"
  shows "filter_row slug fn (st, kept, dropped) row
         = Inr (st\<lparr>ops := ops st @ [Filter_call (lower (title_of row))]\<rparr>, kept, dropped + 1)"
  using assms(2) by (simp add: filter_row_def titled_title [OF assms(1)] passes_def Let_def)

lemma filter_row_repeat:
  assumes "titled row" "passes fn row" "title_key row \<in> seen_titles st"
  shows "filter_row slug fn (st, kept, dropped) row
         = Inr (st\<lparr>ops := ops st @ [Filter_call (lower (title_of row)), Seen_test (title_key row)]\<rparr>,
            kept, dropped + 1)"
  using assms(2,3)
  by (simp add: filter_row_def titled_title [OF assms(1)] passes_def title_key_def Let_def)

lemma filter_row_new:
  assumes "titled row" "passes fn row" "title_key row \<notin> seen_titles st"
  shows "filter_row slug fn (st, kept, dropped) row
         = Inr (st\<lparr>seen_titles := insert (title_key row) (seen_titles st),
               ops := ops st @ [Filter_call (lower (title_of row)), Seen_test (title_key row),
                                Seen_add (title_key row)],
               filtered_data :=
                 dict_append slug (row(''material_slug'' \<mapsto> Some slug)) (filtered_data st)\<rparr>,
            kept + 1, dropped)"
  using assms(2,3)
  by (simp add: filter_row_def titled_title [OF assms(1)] passes_def title_key_def Let_def)

lemma filter_row_cases:
  obtains (untitled) "\<not> titled row"
  | (rejected) "titled row" "\<not> passes fn row"
  | (repeat) "titled row" "passes fn row" "title_key row \<in> seen_titles st"
  | (new) "titled row" "passes fn row" "title_key row \<notin> seen_titles st"
  by blast

lemma filter_row_error:
  assumes "filter_row slug fn acc row = Inl e"
  shows "e = AttributeError \<and> \<not> titled row"
proof -
  obtain st kept dropped where acc: "acc = (st, kept, dropped)" by (cases acc)
  from assms [unfolded acc] show ?thesis
    by (cases rule: filter_row_cases [where fn = fn and row = row and st = st])
       (simp_all add: filter_row_untitled filter_row_rejected filter_row_repeat filter_row_new)
qed

lemma filter_row_result:
  assumes "filter_row slug fn (st, kept, dropped) row = Inr (st', k', d')"
  shows "titled row"
    and "seen_titles st' =
       (if passes fn row then insert (title_key row) (seen_titles st) else seen_titles st)"
    and "k' + d' = kept + dropped + 1"
    and "filter_stats st' = filter_stats st"
    and "passes fn row \<longrightarrow> title_key row \<in> seen_titles st \<Longrightarrow>
         filtered_data st' = filtered_data st \<and> k' = kept"
  using assms
  by (cases rule: filter_row_cases [where fn = fn and row = row and st = st];
      auto simp: filter_row_untitled filter_row_rejected filter_row_repeat filter_row_new)+

lemma filter_rows_titled:
  "list_all titled rows \<Longrightarrow> \<exists>acc'. filter_rows slug fn acc rows = Inr acc'"
proof (induction rows arbitrary: acc)
  case Nil
  show ?case by (intro exI) (rule filter_rows.simps(1))
next
  case (Cons row rows)
  obtain st kept dropped where acc: "acc = (st, kept, dropped)" by (cases acc)
  from Cons.prems have t: "titled row" and ts: "list_all titled rows" by simp_all
  have "\<exists>acc1. filter_row slug fn acc row = Inr acc1"
    unfolding acc
    by (cases rule: filter_row_cases [where fn = fn and row = row and st = st])
       (simp_all add: t filter_row_rejected filter_row_repeat filter_row_new)
  then obtain acc1 where "filter_row slug fn acc row = Inr acc1" ..
  with Cons.IH [OF ts, of acc1] show ?case by simp
qed

lemma filter_rows_error:
  "filter_rows slug fn acc rows = Inl e \<Longrightarrow> e = AttributeError \<and> \<not> list_all titled rows"
proof (induction rows arbitrary: acc)
  case Nil
  then show ?case by simp
next
  case (Cons row rows)
  show ?case
  proof (cases "filter_row slug fn acc row")
    case (Inl e')
    with Cons.prems have "e' = e" by simp
    with filter_row_error [OF Inl] show ?thesis by simp
  next
    case (Inr acc1)
    with Cons.prems have "filter_rows slug fn acc1 rows = Inl e" by simp
    from Cons.IH [OF this] show ?thesis by simp
  qed
qed

lemma filter_rows_Cons_Inr:
  assumes "filter_rows slug fn (st, kept, dropped) (row # rows) = Inr acc'"
  obtains s1 k1 d1 where "filter_row slug fn (st, kept, dropped) row = Inr (s1, k1, d1)"
    and "filter_rows slug fn (s1, k1, d1) rows = Inr acc'"
proof (cases "filter_row slug fn (st, kept, dropped) row")
  case (Inl e)
  with assms show ?thesis by simp
next
  case (Inr acc1)
  obtain s1 k1 d1 where "acc1 = (s1, k1, d1)" by (cases acc1)
  with Inr assms that show ?thesis by simp
qed

lemma filter_rows_seen:
  assumes "filter_rows slug fn (st, kept, dropped) rows = Inr (st', k', d')"
  shows "seen_titles st' = seen_titles st \<union> title_key ` {row \<in> set rows. passes fn row}"
  using assms
proof (induction rows arbitrary: st kept dropped)
  case Nil
  then show ?case by simp
next
  case (Cons row rows)
  from Cons.prems obtain s1 k1 d1
    where step: "filter_row slug fn (st, kept, dropped) row = Inr (s1, k1, d1)"
      and rest: "filter_rows slug fn (s1, k1, d1) rows = Inr (st', k', d')"
    by (rule filter_rows_Cons_Inr)
  from filter_row_result(2) [OF step] Cons.IH [OF rest] show ?case by auto
qed

lemma filter_rows_counts:
  assumes "filter_rows slug fn (st, kept, dropped) rows = Inr (st', k', d')"
  shows "k' + d' = kept + dropped + length rows"
  using assms
proof (induction rows arbitrary: st kept dropped)
  case Nil
  then show ?case by simp
next
  case (Cons row rows)
  from Cons.prems obtain s1 k1 d1
    where step: "filter_row slug fn (st, kept, dropped) row = Inr (s1, k1, d1)"
      and rest: "filter_rows slug fn (s1, k1, d1) rows = Inr (st', k', d')"
    by (rule filter_rows_Cons_Inr)
  from filter_row_result(3) [OF step] Cons.IH [OF rest] show ?case by simp
qed

lemma filter_rows_settled:
  assumes "\<forall>row \<in> set rows. passes fn row \<longrightarrow> title_key row \<in> seen_titles st"
    and "filter_rows slug fn (st, kept, dropped) rows = Inr (st', k', d')"
  shows "seen_titles st' = seen_titles st \<and> filtered_data st' = filtered_data st
       \<and> filter_stats st' = filter_stats st \<and> k' = kept"
  using assms
proof (induction rows arbitrary: st dropped)
  case Nil
  then show ?case by simp
next
  case (Cons row rows)
  from Cons.prems(2) obtain s1 k1 d1
    where step: "filter_row slug fn (st, kept, dropped) row = Inr (s1, k1, d1)"
      and rest: "filter_rows slug fn (s1, k1, d1) rows = Inr (st', k', d')"
    by (rule filter_rows_Cons_Inr)
  from Cons.prems(1) have row: "passes fn row \<longrightarrow> title_key row \<in> seen_titles st" by simp
  from filter_row_result(2) [OF step] row have s: "seen_titles s1 = seen_titles st" by auto
  from filter_row_result(5) [OF step row] have f: "filtered_data s1 = filtered_data st"
    and k: "k1 = kept" by simp_all
  from filter_row_result(4) [OF step] have fs: "filter_stats s1 = filter_stats st" .
  have "\<forall>row \<in> set rows. passes fn row \<longrightarrow> title_key row \<in> seen_titles s1"
    using Cons.prems(1) s by simp
  from Cons.IH [OF this rest [unfolded k]] s f fs show ?case by simp
qed

lemma first_partial_in_cfg: "first_partial cfg base = Some k \<Longrightarrow> k \<in> fst ` set cfg"
  by (induction cfg base rule: first_partial.induct) (auto split: if_splits)

lemma get_material_key_in_cfg: "get_material_key cfg f = Some k \<Longrightarrow> k \<in> fst ` set cfg"
  by (auto simp: get_material_key_def Let_def split: if_splits dest: first_partial_in_cfg)

lemma get_material_key_lookup:
  "get_material_key cfg f = Some k \<Longrightarrow> \<exists>rules. map_of cfg k = Some rules"
  using get_material_key_in_cfg [of cfg f k] by (cases "map_of cfg k") (auto simp: map_of_eq_None_iff)

lemma filter_file_eq:
  "filter_file cfg st (f, rows) =
     (case file_rules cfg f of
        None \<Rightarrow> Inr st
      | Some (slug, fn) \<Rightarrow>
          (case filter_rows slug fn (st, 0, 0) rows of
             Inl e \<Rightarrow> Inl e
           | Inr (st', kept, dropped) \<Rightarrow>
               Inr (st'\<lparr>filter_stats := filter_stats st' @ [(f, length rows, kept, dropped)]\<rparr>)))"
proof (cases "get_material_key cfg f")
  case None
  then show ?thesis by (simp add: filter_file_def file_rules_def)
next
  case (Some k)
  from get_material_key_lookup [OF this] obtain rules where "map_of cfg k = Some rules" ..
  with Some show ?thesis
    by (cases rules) (simp add: filter_file_def file_rules_def)
qed

lemma filter_file_skip:
  "file_rules cfg f = None \<Longrightarrow> filter_file cfg st (f, rows) = Inr st"
  by (simp add: filter_file_eq)

lemma filter_file_run:
  assumes "file_rules cfg f = Some (slug, fn)"
    and "filter_rows slug fn (st, 0, 0) rows = Inr (s1, k1, d1)"
  shows "filter_file cfg st (f, rows)
         = Inr (s1\<lparr>filter_stats := filter_stats s1 @ [(f, length rows, k1, d1)]\<rparr>)"
  using assms by (simp add: filter_file_eq)

lemma filter_file_fail:
  assumes "file_rules cfg f = Some (slug, fn)"
    and "filter_rows slug fn (st, 0, 0) rows = Inl e"
  shows "filter_file cfg st (f, rows) = Inl e"
  using assms by (simp add: filter_file_eq)

lemma filter_file_Inr:
  assumes "filter_file cfg st (f, rows) = Inr st'"
  obtains (skip) "file_rules cfg f = None" "st' = st"
  | (run) slug fn s1 k1 d1 where "file_rules cfg f = Some (slug, fn)"
      "filter_rows slug fn (st, 0, 0) rows = Inr (s1, k1, d1)"
      "st' = s1\<lparr>filter_stats := filter_stats s1 @ [(f, length rows, k1, d1)]\<rparr>"
proof (cases "file_rules cfg f")
  case None
  with assms skip show ?thesis by (simp add: filter_file_skip)
next
  case (Some rules)
  obtain slug fn where rules: "rules = (slug, fn)" by (cases rules)
  show ?thesis
  proof (cases "filter_rows slug fn (st, 0, 0) rows")
    case (Inl e)
    from filter_file_fail [OF Some [unfolded rules] Inl] assms show ?thesis by simp
  next
    case (Inr acc1)
    obtain s1 k1 d1 where acc1: "acc1 = (s1, k1, d1)" by (cases acc1)
    from filter_file_run [OF Some [unfolded rules] Inr [unfolded acc1]] assms
    have "st' = s1\<lparr>filter_stats := filter_stats s1 @ [(f, length rows, k1, d1)]\<rparr>" by simp
    with Some rules Inr acc1 run show ?thesis by simp
  qed
qed

lemma filter_file_titled:
  assumes "list_all titled rows"
  shows "\<exists>st'. filter_file cfg st (f, rows) = Inr st'"
proof (cases "file_rules cfg f")
  case None
  then show ?thesis by (simp add: filter_file_skip)
next
  case (Some rules)
  obtain slug fn where rules: "rules = (slug, fn)" by (cases rules)
  from filter_rows_titled [OF assms] obtain acc1
    where "filter_rows slug fn (st, 0, 0) rows = Inr acc1" by blast
  then show ?thesis using Some rules by (cases acc1) (simp add: filter_file_eq)
qed

lemma filter_file_error:
  assumes "filter_file cfg st (f, rows) = Inl e"
  shows "e = AttributeError \<and> \<not> list_all titled rows"
proof (cases "file_rules cfg f")
  case None
  with assms show ?thesis by (simp add: filter_file_skip)
next
  case (Some rules)
  obtain slug fn where rules: "rules = (slug, fn)" by (cases rules)
  show ?thesis
  proof (cases "filter_rows slug fn (st, 0, 0) rows")
    case (Inl e')
    from filter_file_fail [OF Some [unfolded rules] Inl] assms have "e' = e" by simp
    with filter_rows_error [OF Inl] show ?thesis by simp
  next
    case (Inr acc1)
    with assms Some rules show ?thesis by (cases acc1) (simp add: filter_file_eq)
  qed
qed

lemma filter_file_seen:
  assumes "filter_file cfg st fl = Inr st'"
  shows "seen_titles st' = seen_titles st \<union>
     (case file_rules cfg (fst fl) of
        None \<Rightarrow> {}
      | Some (slug, fn) \<Rightarrow> title_key ` {row \<in> set (snd fl). passes fn row})"
proof -
  obtain f rows where fl: "fl = (f, rows)" by (cases fl)
  from assms [unfolded fl] show ?thesis
  proof (cases rule: filter_file_Inr)
    case skip
    with fl show ?thesis by simp
  next
    case (run slug fn s1 k1 d1)
    from filter_rows_seen [OF run(2)]
    have "seen_titles s1 = seen_titles st \<union> title_key ` {row \<in> set rows. passes fn row}" .
    moreover from run(3) have "seen_titles st' = seen_titles s1" by simp
    ultimately show ?thesis using run(1) fl by simp
  qed
qed

lemma filter_file_settled:
  assumes "settled cfg st fl" "filter_file cfg st fl = Inr st'"
  shows "seen_titles st' = seen_titles st \<and> filtered_data st' = filtered_data st"
proof -
  obtain f rows where fl: "fl = (f, rows)" by (cases fl)
  from assms(2) [unfolded fl] show ?thesis
  proof (cases rule: filter_file_Inr)
    case skip
    then show ?thesis by simp
  next
    case (run slug fn s1 k1 d1)
    from assms(1) fl run(1)
    have "\<forall>row \<in> set rows. passes fn row \<longrightarrow> title_key row \<in> seen_titles st"
      by (simp add: settled_def)
    from filter_rows_settled [OF this run(2)]
    have same: "seen_titles s1 = seen_titles st" "filtered_data s1 = filtered_data st" by simp_all
    from run(3) have "seen_titles st' = seen_titles s1" "filtered_data st' = filtered_data s1"
      by simp_all
    with same show ?thesis by simp
  qed
qed

lemma settled_mono:
  assumes "settled cfg st fl" "seen_titles st \<subseteq> seen_titles st'"
  shows "settled cfg st' fl"
proof (cases "file_rules cfg (fst fl)")
  case None
  then show ?thesis by (simp add: settled_def)
next
  case (Some rules)
  obtain slug fn where rules: "rules = (slug, fn)" by (cases rules)
  from assms(1) Some rules
  have "\<forall>row \<in> set (snd fl). passes fn row \<longrightarrow> title_key row \<in> seen_titles st"
    by (simp add: settled_def)
  with assms(2) have "\<forall>row \<in> set (snd fl). passes fn row \<longrightarrow> title_key row \<in> seen_titles st'"
    by blast
  with Some rules show ?thesis by (simp add: settled_def)
qed

lemma filter_file_settles:
  assumes "filter_file cfg st fl = Inr st'"
  shows "settled cfg st' fl"
proof (cases "file_rules cfg (fst fl)")
  case None
  then show ?thesis by (simp add: settled_def)
next
  case (Some rules)
  obtain slug fn where rules: "rules = (slug, fn)" by (cases rules)
  from filter_file_seen [OF assms] Some rules
  have "seen_titles st' = seen_titles st \<union> title_key ` {row \<in> set (snd fl). passes fn row}"
    by simp
  then have "\<forall>row \<in> set (snd fl). passes fn row \<longrightarrow> title_key row \<in> seen_titles st'"
    by blast
  with Some rules show ?thesis by (simp add: settled_def)
qed

lemma filter_files_Cons_Inr:
  assumes "filter_files cfg st (fl # files) = Inr st'"
  obtains s1 where "filter_file cfg st fl = Inr s1" "filter_files cfg s1 files = Inr st'"
  using assms by (cases "filter_file cfg st fl") simp_all

lemma filter_files_titled:
  "all_titled files \<Longrightarrow> \<exists>st'. filter_files cfg st files = Inr st'"
proof (induction files arbitrary: st)
  case Nil
  show ?case by simp
next
  case (Cons fl files)
  obtain f rows where fl: "fl = (f, rows)" by (cases fl)
  from Cons.prems fl have "list_all titled rows" "all_titled files"
    by (simp_all add: all_titled_def)
  from filter_file_titled [OF this(1)] obtain s1 where "filter_file cfg st fl = Inr s1"
    unfolding fl by blast
  with Cons.IH [OF \<open>all_titled files\<close>, of s1] show ?case by simp
qed

lemma filter_files_error:
  "filter_files cfg st files = Inl e \<Longrightarrow> e = AttributeError \<and> \<not> all_titled files"
proof (induction files arbitrary: st)
  case Nil
  then show ?case by simp
next
  case (Cons fl files)
  obtain f rows where fl: "fl = (f, rows)" by (cases fl)
  show ?case
  proof (cases "filter_file cfg st fl")
    case (Inl e')
    with Cons.prems have "e' = e" by simp
    with filter_file_error [OF Inl [unfolded fl]] fl show ?thesis
      by (simp add: all_titled_def)
  next
    case (Inr s1)
    with Cons.prems have "filter_files cfg s1 files = Inl e" by simp
    from Cons.IH [OF this] show ?thesis by (simp add: all_titled_def)
  qed
qed

lemma filter_files_settles:
  assumes "filter_files cfg st files = Inr st'"
  shows "seen_titles st \<subseteq> seen_titles st' \<and> (\<forall>fl \<in> set files. settled cfg st' fl)"
  using assms
proof (induction files arbitrary: st)
  case Nil
  then show ?case by simp
next
  case (Cons fl files)
  from Cons.prems obtain s1 where s1: "filter_file cfg st fl = Inr s1"
    and rest: "filter_files cfg s1 files = Inr st'"
    by (rule filter_files_Cons_Inr)
  from Cons.IH [OF rest] have sub: "seen_titles s1 \<subseteq> seen_titles st'"
    and all: "\<forall>fl \<in> set files. settled cfg st' fl" by simp_all
  from filter_file_seen [OF s1] have "seen_titles st \<subseteq> seen_titles s1" by auto
  moreover from settled_mono [OF filter_file_settles [OF s1] sub] have "settled cfg st' fl" .
  ultimately show ?case using sub all by auto
qed

lemma filter_files_settled:
  assumes "\<forall>fl \<in> set files. settled cfg st fl" "filter_files cfg st files = Inr st'"
  shows "seen_titles st' = seen_titles st \<and> filtered_data st' = filtered_data st"
  using assms
proof (induction files arbitrary: st)
  case Nil
  then show ?case by simp
next
  case (Cons fl files)
  from Cons.prems(2) obtain s1 where s1: "filter_file cfg st fl = Inr s1"
    and rest: "filter_files cfg s1 files = Inr st'"
    by (rule filter_files_Cons_Inr)
  from Cons.prems(1) have "settled cfg st fl" by simp
  from filter_file_settled [OF this s1]
  have same: "seen_titles s1 = seen_titles st" "filtered_data s1 = filtered_data st" by simp_all
  have "\<forall>fl \<in> set files. settled cfg s1 fl"
  proof
    fix f assume "f \<in> set files"
    with Cons.prems(1) have "settled cfg st f" by simp
    then show "settled cfg s1 f" by (rule settled_mono) (simp add: same)
  qed
  from Cons.IH [OF this rest] same show ?case by simp
qed

lemma filter_rows_Inr_titled:
  "filter_rows slug fn (st, kept, dropped) rows = Inr acc' \<Longrightarrow> list_all titled rows"
proof (induction rows arbitrary: st kept dropped)
  case Nil
  show ?case by simp
next
  case (Cons row rows)
  from Cons.prems obtain s1 k1 d1
    where step: "filter_row slug fn (st, kept, dropped) row = Inr (s1, k1, d1)"
      and rest: "filter_rows slug fn (s1, k1, d1) rows = Inr acc'"
    by (rule filter_rows_Cons_Inr)
  from filter_row_result(1) [OF step] Cons.IH [OF rest] show ?case by simp
qed

lemma filter_file_again:
  assumes "filter_file cfg st fl = Inr st'"
  shows "\<exists>s'. filter_file cfg s fl = Inr s'"
proof -
  obtain f rows where fl: "fl = (f, rows)" by (cases fl)
  from assms [unfolded fl] show ?thesis unfolding fl
  proof (cases rule: filter_file_Inr)
    case skip
    then show "\<exists>s'. filter_file cfg s (f, rows) = Inr s'" by (simp add: filter_file_skip)
  next
    case (run slug fn s1 k1 d1)
    from filter_rows_Inr_titled [OF run(2)] show "\<exists>s'. filter_file cfg s (f, rows) = Inr s'"
      by (rule filter_file_titled)
  qed
qed

lemma filter_files_again:
  "filter_files cfg st files = Inr st' \<Longrightarrow> \<exists>s'. filter_files cfg s files = Inr s'"
proof (induction files arbitrary: st s)
  case Nil
  show ?case by simp
next
  case (Cons fl files)
  from Cons.prems obtain s1 where a: "filter_file cfg st fl = Inr s1"
    and b: "filter_files cfg s1 files = Inr st'"
    by (rule filter_files_Cons_Inr)
  from filter_file_again [OF a, of s] obtain s2 where "filter_file cfg s fl = Inr s2" ..
  with Cons.IH [OF b, of s2] show ?case by simp
qed

subsection \<open>The filtered rows have titles\<close>

lemma titled_slug: "titled (row(''material_slug'' \<mapsto> Some slug)) = titled row"
  by (simp add: titled_def get_title_def)

lemma title_of_slug: "title_of (row(''material_slug'' \<mapsto> Some slug)) = title_of row"
  by (simp add: title_of_def get_title_def)

lemma all_titled_dict_append:
  "all_titled g \<Longrightarrow> titled v \<Longrightarrow> all_titled (dict_append k v g)"
  by (induction k v g rule: dict_append.induct) (auto simp: all_titled_def)

lemma filter_row_titled:
  assumes "filter_row slug fn (st, kept, dropped) row = Inr (st', k', d')"
    and "all_titled (filtered_data st)"
  shows "all_titled (filtered_data st')"
  using assms
  by (cases rule: filter_row_cases [where fn = fn and row = row and st = st])
     (auto simp: filter_row_untitled filter_row_rejected filter_row_repeat filter_row_new
        all_titled_dict_append titled_slug)

lemma filter_rows_keep_titled:
  assumes "filter_rows slug fn (st, kept, dropped) rows = Inr (st', k', d')"
    and "all_titled (filtered_data st)"
  shows "all_titled (filtered_data st')"
  using assms
proof (induction rows arbitrary: st kept dropped)
  case Nil
  then show ?case by simp
next
  case (Cons row rows)
  from Cons.prems(1) obtain s1 k1 d1
    where step: "filter_row slug fn (st, kept, dropped) row = Inr (s1, k1, d1)"
      and rest: "filter_rows slug fn (s1, k1, d1) rows = Inr (st', k', d')"
    by (rule filter_rows_Cons_Inr)
  from filter_row_titled [OF step Cons.prems(2)] have "all_titled (filtered_data s1)" .
  from Cons.IH [OF rest this] show ?case .
qed

lemma filter_file_keep_titled:
  assumes "filter_file cfg st fl = Inr st'" "all_titled (filtered_data st)"
  shows "all_titled (filtered_data st')"
proof -
  obtain f rows where fl: "fl = (f, rows)" by (cases fl)
  from assms(1) [unfolded fl] show ?thesis
  proof (cases rule: filter_file_Inr)
    case skip
    with assms(2) show ?thesis by simp
  next
    case (run slug fn s1 k1 d1)
    from filter_rows_keep_titled [OF run(2) assms(2)] run(3) show ?thesis by simp
  qed
qed

lemma filter_files_keep_titled:
  assumes "filter_files cfg st files = Inr st'" "all_titled (filtered_data st)"
  shows "all_titled (filtered_data st')"
  using assms
proof (induction files arbitrary: st)
  case Nil
  then show ?case by simp
next
  case (Cons fl files)
  from Cons.prems(1) obtain s1 where s1: "filter_file cfg st fl = Inr s1"
    and rest: "filter_files cfg s1 files = Inr st'"
    by (rule filter_files_Cons_Inr)
  from Cons.IH [OF rest filter_file_keep_titled [OF s1 Cons.prems(2)]] show ?case .
qed

lemma filter_all_titled:
  "filter_all cfg raw_data = Inr st \<Longrightarrow> all_titled (filtered_data st)"
  unfolding filter_all_def
  by (erule filter_files_keep_titled) (simp add: initial_state_def all_titled_def)

lemmas title_eval = passes_def title_key_def title_of_def titled_def get_title_def lower_def
  lower_char_def char_of_def bit_0
section \<open>Properties of the normalizer and of the run\<close>

lemma extract_weight_title_weight: "extract_weight t = Inr (title_weight t)"
  unfolding title_weight_def by (rule extract_weight_eq)

lemma find_accepted:
  "find (accepted t) ps = Some rule \<Longrightarrow>
     rule \<in> set ps \<and> (\<exists>v. rule_value rule t = Some v \<and> in_bounds v)"
  by (auto simp: find_Some_iff accepted_def split: option.splits)

lemma title_weight_bounds:
  assumes "title_weight t = Some w"
  shows "\<exists>rule \<in> set patterns. \<exists>v. rule_value rule t = Some v \<and> in_bounds v \<and> w = py_round v 3"
proof -
  from assms obtain rule where f: "find (accepted t) patterns = Some rule"
    by (auto simp: title_weight_def split: option.splits)
  from find_accepted [OF f] obtain v where r: "rule \<in> set patterns"
    and v: "rule_value rule t = Some v" "in_bounds v" by blast
  with assms f have "w = py_round v 3" by (simp add: title_weight_def)
  with r v show ?thesis by blast
qed

lemma normalize_row_eq:
  "normalize_row float_of strp slug row =
     (case parse_price float_of (py_or (cell row ''price_usd'') (cell row ''price'')) of
        None \<Rightarrow> Inr None
      | Some price \<Rightarrow>
          if val price = 0 then Inr None
          else if \<not> titled row \<and> chosen_weight float_of row = None then Inl TypeError
          else Inr (Some \<lparr>material_slug = slug, title = get_title row, price_usd = price,
                 sale_date = parse_date strp (py_or (cell row ''sale_date'') (cell row ''date'')),
                 weight_grams = chosen_weight float_of row,
                 price_per_gram =
                   (case chosen_weight float_of row of
                      None \<Rightarrow> None
                    | Some w \<Rightarrow> if 0 < val w then Some (py_round (fdiv price w) 2) else None),
                 source = ''WorthPoint''\<rparr>))"
proof (cases "parse_price float_of (py_or (cell row ''price_usd'') (cell row ''price''))")
  case None
  then show ?thesis by (simp add: normalize_row_def)
next
  case price: (Some price)
  show ?thesis
  proof (cases "get_title row")
    case None
    then have t: "\<not> titled row" "title_of row = []" by (simp_all add: titled_def title_of_def)
    have e: "title_weight [] = None"
      using extract_weight_title_weight [of "[]"] by (simp add: extract_weight_def patterns_def
          number_def space_or_end_def)
    show ?thesis
    proof (cases "given_weight float_of row")
      case gw: None
      then show ?thesis using price None t e
        by (simp add: normalize_row_def chosen_weight_def weight_of_title_def Let_def)
    next
      case gw: (Some w)
      then show ?thesis using price None t e
        by (simp add: normalize_row_def chosen_weight_def weight_of_title_def Let_def)
    qed
  next
    case (Some ttl)
    then have t: "titled row" "title_of row = ttl" by (simp_all add: titled_def title_of_def)
    show ?thesis
    proof (cases "given_weight float_of row")
      case gw: None
      then show ?thesis using price Some t
        by (simp add: normalize_row_def chosen_weight_def weight_of_title_def
            extract_weight_title_weight Let_def split: option.splits)
    next
      case gw: (Some w)
      then show ?thesis using price Some t
        by (simp add: normalize_row_def chosen_weight_def weight_of_title_def
            extract_weight_title_weight Let_def split: option.splits)
    qed
  qed
qed

lemma normalize_row_titled:
  "titled row \<Longrightarrow> \<exists>r. normalize_row float_of strp slug row = Inr r"
  by (simp add: normalize_row_eq split: option.splits)

lemma normalize_row_error:
  "normalize_row float_of strp slug row = Inl e \<Longrightarrow> e = TypeError \<and> \<not> titled row"
  by (auto simp: normalize_row_eq split: option.splits if_splits)


lemma weight_of_row:
  assumes "normalize_row float_of strp slug row = Inr (Some c)"
  shows "weight_grams c = chosen_weight float_of row"
  using assms unfolding normalize_row_eq
  by (auto split: option.splits if_splits)

lemma emitted_titled:
  assumes "titled row"
  shows "normalize_row float_of strp slug row =
     Inr (case emitted float_of strp slug row of [] \<Rightarrow> None | c # cs \<Rightarrow> Some c)"
proof -
  from normalize_row_titled [OF assms] obtain r
    where "normalize_row float_of strp slug row = Inr r" by blast
  then show ?thesis by (cases r) (simp_all add: emitted_def)
qed


lemma normalize_rows_eq:
  "list_all titled rows \<Longrightarrow>
     normalize_rows float_of strp slug rows acc
       = Inr (acc @ concat (map (emitted float_of strp slug) rows))"
proof (induction rows arbitrary: acc)
  case Nil
  show ?case by simp
next
  case (Cons row rows)
  from Cons.prems have t: "titled row" and ts: "list_all titled rows" by simp_all
  from normalize_row_titled [OF t] obtain r
    where r: "normalize_row float_of strp slug row = Inr r" by blast
  show ?case
  proof (cases r)
    case None
    with r Cons.IH [OF ts, of acc] show ?thesis by (simp add: emitted_def)
  next
    case (Some c)
    with r Cons.IH [OF ts, of "acc @ [c]"] show ?thesis by (simp add: emitted_def)
  qed
qed

lemma normalize_all_eq:
  "all_titled fd \<Longrightarrow>
     normalize_all float_of strp fd acc = Inr (acc @ table_of float_of strp fd)"
proof (induction fd arbitrary: acc)
  case Nil
  show ?case by (simp add: table_of_def)
next
  case (Cons g fd)
  obtain slug rows where g: "g = (slug, rows)" by (cases g)
  from Cons.prems g have rows: "list_all titled rows" and fd: "all_titled fd"
    by (simp_all add: all_titled_def)
  from normalize_rows_eq [OF rows] Cons.IH [OF fd] g show ?case
    by (simp add: table_of_def)
qed


lemma main_eq:
  assumes "filter_all cfg raw_data = Inr st"
  shows "normalize_all float_of strp (filtered_data st) []
           = Inr (table_of float_of strp (filtered_data st))"
    and "main cfg float_of strp raw_data =
         \<lparr>saved = Some (table_of float_of strp (filtered_data st)),
          returned = (if table_of float_of strp (filtered_data st) = [] then Inl ValueError
                      else Inr (table_of float_of strp (filtered_data st)))\<rparr>"
proof -
  from filter_all_titled [OF assms] have "all_titled (filtered_data st)" .
  from normalize_all_eq [OF this, of float_of strp "[]"]
  show n: "normalize_all float_of strp (filtered_data st) []
           = Inr (table_of float_of strp (filtered_data st))" by simp
  show "main cfg float_of strp raw_data =
         \<lparr>saved = Some (table_of float_of strp (filtered_data st)),
          returned = (if table_of float_of strp (filtered_data st) = [] then Inl ValueError
                      else Inr (table_of float_of strp (filtered_data st)))\<rparr>"
    using assms n by (simp add: main_def)
qed

lemma main_error:
  assumes "filter_all cfg raw_data = Inl e"
  shows "main cfg float_of strp raw_data = \<lparr>saved = None, returned = Inl e\<rparr>"
  using assms by (simp add: main_def)

lemma filter_all_cases:
  obtains (ok) st where "filter_all cfg raw_data = Inr st"
  | (error) "filter_all cfg raw_data = Inl AttributeError" "\<not> all_titled raw_data"
proof (cases "filter_all cfg raw_data")
  case (Inl e)
  from filter_files_error [OF Inl [unfolded filter_all_def]] Inl error show ?thesis by simp
next
  case (Inr st)
  with ok show ?thesis .
qed

lemma filter_all_ok:
  "all_titled raw_data \<Longrightarrow> \<exists>st. filter_all cfg raw_data = Inr st"
  unfolding filter_all_def by (rule filter_files_titled)


lemmas price_eval = parse_price_def py_or_def cell_def truthy_def plain_float_def strip_def

lemma load_row_no_ppg:
  "price_per_gram c = None \<Longrightarrow> load_row float_of (merged_row repr c) = None"
  by (simp add: load_row_def merged_row_def written_def truthy_def)

lemma given_weight_iff:
  "given_weight float_of row = Some w \<longleftrightarrow>
     (\<exists>s. row ''weight_grams'' = Some (Some s) \<and> s \<noteq> [] \<and> float_of s = Some w)"
  by (auto simp: given_weight_def cell_def truthy_def split: option.splits)

lemma title_weight_None:
  "map (accepted t) patterns = [False, False, False, False, False, False, False, False]
   \<Longrightarrow> title_weight t = None"
proof -
  assume "map (accepted t) patterns = [False, False, False, False, False, False, False, False]"
  then have "find (accepted t) patterns = None"
    by (simp add: find_None_iff2 patterns_def)
  then show ?thesis by (simp add: title_weight_def)
qed

lemma title_weight_small: "title_weight ''0.005g'' = None"
  by (rule title_weight_None)
     (simp add: accepted_def rule_value_def in_bounds_def regex_eval number_eval)


lemma small_title_row_normalized:
  "normalize_row plain_float iso_strp ''gibeon-meteorite''
      [''title'' \<mapsto> Some ''0.005g'', ''price'' \<mapsto> Some ''50'']
   = Inr (Some \<lparr>material_slug = ''gibeon-meteorite'', title = Some ''0.005g'',
              price_usd = dbl 50, sale_date = None, weight_grams = None, price_per_gram = None,
              source = ''WorthPoint''\<rparr>)"
  by (simp add: normalize_row_def weight_of_title_def extract_weight_title_weight
      title_weight_small price_eval number_eval given_weight_def get_title_def parse_date_def
      is_space_def is_digit_def)

lemma filter_files_empty_cfg: "filter_files [] st files = Inr st"
proof (induction files)
  case Nil
  show ?case by simp
next
  case (Cons fl files)
  obtain f rows where fl: "fl = (f, rows)" by (cases fl)
  have "file_rules [] f = None" by (simp add: file_rules_def get_material_key_def Let_def)
  from filter_file_skip [OF this] fl have "filter_file [] st fl = Inr st" by simp
  with Cons show ?case by simp
qed

lemma main_empty_cfg_run:
  "main [] float_of strp raw_data = \<lparr>saved = Some [], returned = Inl ValueError\<rparr>"
  by (simp add: main_def filter_all_def filter_files_empty_cfg initial_state_def)

lemma gibeon_key: "get_material_key MATERIAL_CONFIG ''gibeon.csv'' = Some ''gibeon''"
  by (simp add: get_material_key_def basename_def lower_def lower_char_def MATERIAL_CONFIG_def
      Let_def eval_nat_numeral)

lemma gibeon_rules:
  "map_of MATERIAL_CONFIG ''gibeon'' = Some (''gibeon-meteorite'', \<lambda>t. contains t ''gibeon'')"
  by (simp add: MATERIAL_CONFIG_def)

lemma title_weight_first:
  assumes "map (accepted t) patterns = True # bs"
    and "map_option (\<lambda>w. py_round w 3) (rule_value (patterns ! 0) t) = Some g"
  shows "title_weight t = Some g"
proof -
  from assms(1) have "find (accepted t) patterns = Some (patterns ! 0)"
    by (simp add: patterns_def)
  with assms(2) show ?thesis by (simp add: title_weight_def)
qed

lemma gibeon_title_weight: "title_weight ''Gibeon 5g'' = Some (dbl 5)"
  by (rule title_weight_first [where bs = "[False, False, False, False, False, False, False]"])
     (simp_all add: accepted_def rule_value_def in_bounds_def regex_eval number_eval)

lemma gibeon_run:
  "main MATERIAL_CONFIG plain_float iso_strp
      [(''gibeon.csv'', [[''title'' \<mapsto> Some ''Gibeon 5g'', ''price'' \<mapsto> Some ''5'']])]
   = \<lparr>saved = Some [\<lparr>material_slug = ''gibeon-meteorite'', title = Some ''Gibeon 5g'',
                      price_usd = dbl 5, sale_date = None, weight_grams = Some (dbl 5),
                      price_per_gram = Some (dbl 1), source = ''WorthPoint''\<rparr>],
      returned = Inr [\<lparr>material_slug = ''gibeon-meteorite'', title = Some ''Gibeon 5g'',
                      price_usd = dbl 5, sale_date = None, weight_grams = Some (dbl 5),
                      price_per_gram = Some (dbl 1), source = ''WorthPoint''\<rparr>]\<rparr>"
  by (simp add: main_def filter_all_def filter_file_def gibeon_key gibeon_rules
      filter_row_def initial_state_def get_title_def lower_def lower_char_def
      char_of_def bit_0 Let_def normalize_row_def weight_of_title_def
      extract_weight_title_weight gibeon_title_weight price_eval number_eval
      given_weight_def parse_date_def is_space_def is_digit_def)

lemma load_row_bounds:
  "load_row float_of row = Some r \<Longrightarrow>
     0 < val (rec_price_per_gram r) \<and> val (rec_price_per_gram r) \<le> 50000"
  by (auto simp: load_row_def split: if_splits option.splits)

lemma load_row_outlier:
  assumes "row ''price_per_gram'' = Some s" "float_of s = Some ppg"
    "val ppg \<le> 0 \<or> 50000 < val ppg"
  shows "load_row float_of row = None"
  using assms by (auto simp: load_row_def)

lemma load_merged_csv_rows:
  "r \<in> set (load_merged_csv float_of rows) \<Longrightarrow> \<exists>row \<in> set rows. load_row float_of row = Some r"
  by (induction rows) (auto split: option.splits)

lemma load_merged_csv_bounds:
  "r \<in> set (load_merged_csv float_of rows) \<Longrightarrow>
     0 < val (rec_price_per_gram r) \<and> val (rec_price_per_gram r) \<le> 50000"
  using load_merged_csv_rows load_row_bounds by blast

lemma group_prices_subset:
  "p \<in> set (group_prices records k) \<Longrightarrow> \<exists>r \<in> set records. rec_price_per_gram r = p"
  by (auto simp: group_prices_def)

lemma small_title_weight: "title_weight ''0.02g'' = Some (dbl (2 / 100))"
  by (rule title_weight_first [where bs = "[False, False, False, False, False, False, False]"])
     (simp_all add: accepted_def rule_value_def in_bounds_def regex_eval number_eval)

lemma heavy_price_row_normalized:
  "normalize_row plain_float iso_strp ''gibeon-meteorite''
      [''title'' \<mapsto> Some ''0.02g'', ''price'' \<mapsto> Some ''999999'', ''date'' \<mapsto> Some ''2020-02-03'']
   = Inr (Some \<lparr>material_slug = ''gibeon-meteorite'', title = Some ''0.02g'',
              price_usd = dbl 999999, sale_date = Some ''2020-02-03'',
              weight_grams = Some (dbl (2 / 100)), price_per_gram = Some (dbl 49999950),
              source = ''WorthPoint''\<rparr>)"
  by (simp add: normalize_row_def weight_of_title_def extract_weight_title_weight
      small_title_weight price_eval number_eval given_weight_def get_title_def parse_date_def
      formats_def iso_strp_def iso_date_def is_space_def is_digit_def)
section \<open>The claims\<close>

subsection \<open>C1: records without a parseable date\<close>

text \<open>
  C1 at a record whose date is the text \<open>Sold recently\<close>, which is no date. The date
  extractor returns the text as it is; the loader keeps the row, whose date cell is
  not empty; the aggregator, which only asks for 7 characters, places the record
  in the bucket of the material and of \<open>Sold re\<close>, and emits an aggregate dated
  \<open>Sold re-15\<close> with a sample count of 1. A record without a date, or with a date of
  fewer than 7 characters, is placed in no bucket.
\<close>

theorem unparsed_date_is_bucketed:
  "\<not> iso_date ''Sold recently''
   \<and> parse_date iso_strp (Some ''Sold recently'') = Some ''Sold recently''
   \<and> load_merged_csv plain_float
        [[''material_slug'' \<mapsto> ''allende-meteorite'', ''price_per_gram'' \<mapsto> ''3.0'',
          ''sale_date'' \<mapsto> ''Sold recently'']]
      = [\<lparr>rec_material_slug = ''allende-meteorite'', rec_price_per_gram = dbl 3,
           rec_sale_date = Some ''Sold recently''\<rparr>]
   \<and> calculate_monthly_medians
        [\<lparr>rec_material_slug = ''allende-meteorite'', rec_price_per_gram = dbl 3,
           rec_sale_date = Some ''Sold recently''\<rparr>]
      = Inr [\<lparr>agg_material_slug = ''allende-meteorite'', agg_price_usd = dbl 3,
               price_per = ''gram'', agg_source = ''WorthPoint (n=1)'',
               recorded_at = ''Sold re-15''\<rparr>]
   \<and> calculate_monthly_medians
        [\<lparr>rec_material_slug = ''allende-meteorite'', rec_price_per_gram = dbl 3,
           rec_sale_date = None\<rparr>,
         \<lparr>rec_material_slug = ''allende-meteorite'', rec_price_per_gram = dbl 3,
           rec_sale_date = Some ''2021''\<rparr>]
      = Inr []"
proof (intro conjI)
  show "calculate_monthly_medians
        [\<lparr>rec_material_slug = ''allende-meteorite'', rec_price_per_gram = dbl 3,
           rec_sale_date = None\<rparr>,
         \<lparr>rec_material_slug = ''allende-meteorite'', rec_price_per_gram = dbl 3,
           rec_sale_date = Some ''2021''\<rparr>]
      = Inr []"
    by (simp add: calculate_monthly_medians_def group_records_def group_step_def)
  show "\<not> iso_date ''Sold recently''" by (simp add: iso_date_def)
  show "parse_date iso_strp (Some ''Sold recently'') = Some ''Sold recently''"
    by (simp add: parse_date_def formats_def iso_strp_def iso_date_def strip_def is_space_def)
  show "load_merged_csv plain_float
        [[''material_slug'' \<mapsto> ''allende-meteorite'', ''price_per_gram'' \<mapsto> ''3.0'',
          ''sale_date'' \<mapsto> ''Sold recently'']]
      = [\<lparr>rec_material_slug = ''allende-meteorite'', rec_price_per_gram = dbl 3,
           rec_sale_date = Some ''Sold recently''\<rparr>]"
    by (simp add: load_row_def truthy_def plain_float_def strip_def is_space_def is_digit_def
        number_eval)
  show "calculate_monthly_medians
        [\<lparr>rec_material_slug = ''allende-meteorite'', rec_price_per_gram = dbl 3,
           rec_sale_date = Some ''Sold recently''\<rparr>]
      = Inr [\<lparr>agg_material_slug = ''allende-meteorite'', agg_price_usd = dbl 3,
               price_per = ''gram'', agg_source = ''WorthPoint (n=1)'',
               recorded_at = ''Sold re-15''\<rparr>]"
    by (simp add: calculate_monthly_medians_def group_records_def group_step_def median_def
        make_aggregate_def str_nat_def str_nat_aux.simps digit_char_def char_of_def bit_0
        double_eval)
qed

subsection \<open>C2: the price per gram of a normalized sale\<close>




subsection \<open>C3: pre-supplied mass and the bounds\<close>

text \<open>
  C3 at a listing of 50 with a pre-supplied weight of \<open>0.005\<close> g, which lies outside the
  bounds. The normalizer takes the pre-supplied weight as it is: the sale has a weight
  of 0.005 g and a price per gram of 10000, its row of the merged table is loaded for
  the aggregation and the month gets an aggregate of 10000. The same weight written in
  the title instead is rejected by the bounds of \<open>extract_weight\<close>: that sale has no
  weight and no price per gram, and its row is skipped by the loader.
\<close>

theorem given_mass_bypasses_bounds:
  "normalize_row plain_float iso_strp ''gibeon-meteorite''
      [''title'' \<mapsto> Some ''Gibeon'', ''price'' \<mapsto> Some ''50'',
       ''weight_grams'' \<mapsto> Some ''0.005'', ''date'' \<mapsto> Some ''2020-02-03'']
   = Inr (Some \<lparr>material_slug = ''gibeon-meteorite'', title = Some ''Gibeon'',
              price_usd = dbl 50, sale_date = Some ''2020-02-03'',
              weight_grams = Some (dbl (5 / 1000)), price_per_gram = Some (dbl 10000),
              source = ''WorthPoint''\<rparr>)
   \<and> \<not> in_bounds (dbl (5 / 1000))
   \<and> load_merged_csv plain_float
        [[''material_slug'' \<mapsto> ''gibeon-meteorite'', ''title'' \<mapsto> ''Gibeon'',
          ''price_usd'' \<mapsto> ''50.0'', ''sale_date'' \<mapsto> ''2020-02-03'',
          ''weight_grams'' \<mapsto> ''0.005'', ''price_per_gram'' \<mapsto> ''10000.0'',
          ''source'' \<mapsto> ''WorthPoint'']]
     = [\<lparr>rec_material_slug = ''gibeon-meteorite'', rec_price_per_gram = dbl 10000,
          rec_sale_date = Some ''2020-02-03''\<rparr>]
   \<and> calculate_monthly_medians
        [\<lparr>rec_material_slug = ''gibeon-meteorite'', rec_price_per_gram = dbl 10000,
           rec_sale_date = Some ''2020-02-03''\<rparr>]
     = Inr [\<lparr>agg_material_slug = ''gibeon-meteorite'', agg_price_usd = dbl 10000,
              price_per = ''gram'', agg_source = ''WorthPoint (n=1)'',
              recorded_at = ''2020-02-15''\<rparr>]
   \<and> extract_weight ''Gibeon 0.005g'' = Inr None
   \<and> normalize_row plain_float iso_strp ''gibeon-meteorite''
      [''title'' \<mapsto> Some ''Gibeon 0.005g'', ''price'' \<mapsto> Some ''50'',
       ''date'' \<mapsto> Some ''2020-02-03'']
   = Inr (Some \<lparr>material_slug = ''gibeon-meteorite'', title = Some ''Gibeon 0.005g'',
              price_usd = dbl 50, sale_date = Some ''2020-02-03'',
              weight_grams = None, price_per_gram = None, source = ''WorthPoint''\<rparr>)
   \<and> load_merged_csv plain_float
        [[''material_slug'' \<mapsto> ''gibeon-meteorite'', ''title'' \<mapsto> ''Gibeon 0.005g'',
          ''price_usd'' \<mapsto> ''50.0'', ''sale_date'' \<mapsto> ''2020-02-03'',
          ''weight_grams'' \<mapsto> [], ''price_per_gram'' \<mapsto> [],
          ''source'' \<mapsto> ''WorthPoint'']]
     = []"
proof (intro conjI)
  have none: "title_weight ''Gibeon 0.005g'' = None"
    by (rule title_weight_None)
       (simp add: accepted_def rule_value_def in_bounds_def regex_eval number_eval)
  show "extract_weight ''Gibeon 0.005g'' = Inr None"
    by (simp add: extract_weight_title_weight none)
  show "normalize_row plain_float iso_strp ''gibeon-meteorite''
      [''title'' \<mapsto> Some ''Gibeon 0.005g'', ''price'' \<mapsto> Some ''50'',
       ''date'' \<mapsto> Some ''2020-02-03'']
   = Inr (Some \<lparr>material_slug = ''gibeon-meteorite'', title = Some ''Gibeon 0.005g'',
              price_usd = dbl 50, sale_date = Some ''2020-02-03'',
              weight_grams = None, price_per_gram = None, source = ''WorthPoint''\<rparr>)"
    by (simp add: normalize_row_def weight_of_title_def extract_weight_title_weight none
        price_eval number_eval given_weight_def get_title_def parse_date_def formats_def
        iso_strp_def iso_date_def is_space_def is_digit_def)
  show "normalize_row plain_float iso_strp ''gibeon-meteorite''
      [''title'' \<mapsto> Some ''Gibeon'', ''price'' \<mapsto> Some ''50'',
       ''weight_grams'' \<mapsto> Some ''0.005'', ''date'' \<mapsto> Some ''2020-02-03'']
   = Inr (Some \<lparr>material_slug = ''gibeon-meteorite'', title = Some ''Gibeon'',
              price_usd = dbl 50, sale_date = Some ''2020-02-03'',
              weight_grams = Some (dbl (5 / 1000)), price_per_gram = Some (dbl 10000),
              source = ''WorthPoint''\<rparr>)"
    by (simp add: normalize_row_def price_eval number_eval given_weight_def get_title_def
        parse_date_def formats_def iso_strp_def iso_date_def is_space_def is_digit_def)
  show "\<not> in_bounds (dbl (5 / 1000))" by (simp add: in_bounds_def double_eval)
  show "load_merged_csv plain_float
        [[''material_slug'' \<mapsto> ''gibeon-meteorite'', ''title'' \<mapsto> ''Gibeon'',
          ''price_usd'' \<mapsto> ''50.0'', ''sale_date'' \<mapsto> ''2020-02-03'',
          ''weight_grams'' \<mapsto> ''0.005'', ''price_per_gram'' \<mapsto> ''10000.0'',
          ''source'' \<mapsto> ''WorthPoint'']]
     = [\<lparr>rec_material_slug = ''gibeon-meteorite'', rec_price_per_gram = dbl 10000,
          rec_sale_date = Some ''2020-02-03''\<rparr>]"
    by (simp add: load_row_def truthy_def plain_float_def strip_def is_space_def is_digit_def
        number_eval)
  show "calculate_monthly_medians
        [\<lparr>rec_material_slug = ''gibeon-meteorite'', rec_price_per_gram = dbl 10000,
           rec_sale_date = Some ''2020-02-03''\<rparr>]
     = Inr [\<lparr>agg_material_slug = ''gibeon-meteorite'', agg_price_usd = dbl 10000,
              price_per = ''gram'', agg_source = ''WorthPoint (n=1)'',
              recorded_at = ''2020-02-15''\<rparr>]"
    by (simp add: calculate_monthly_medians_def group_records_def group_step_def median_def
        make_aggregate_def str_nat_def str_nat_aux.simps digit_char_def char_of_def bit_0
        double_eval)
  show "load_merged_csv plain_float
        [[''material_slug'' \<mapsto> ''gibeon-meteorite'', ''title'' \<mapsto> ''Gibeon 0.005g'',
          ''price_usd'' \<mapsto> ''50.0'', ''sale_date'' \<mapsto> ''2020-02-03'',
          ''weight_grams'' \<mapsto> [], ''price_per_gram'' \<mapsto> [],
          ''source'' \<mapsto> ''WorthPoint'']]
     = []"
    by (simp add: load_row_def truthy_def)
qed

subsection \<open>C4: one aggregate per month and material, in key order\<close>

text \<open>
  C4, as the code has it. For every list of records, \<open>calculate_monthly_medians\<close>
  returns (it never raises) exactly one aggregate per non-empty (material, year-month)
  bucket, the aggregates being in strictly ascending order of (material, year-month):
  their keys are the sorted list of the set of buckets. The value of an aggregate is the
  median of the prices of its bucket \<^emph>\<open>rounded to 2 decimals\<close>, its agg_source carries the
  size of the bucket, and its date is the 15th of the month. The median is the one of
  \<^verbatim>\<open>statistics.median\<close>: at least half of the values are at most it and at least half
  are at least it; it is \<open>2.5\<close> for \<open>[1,2,3,4]\<close>, \<open>2\<close> for \<open>[1,2,3]\<close> and the value
  itself for a single value.
\<close>

theorem monthly_medians_rounded:
  "(\<exists>out. calculate_monthly_medians records = Inr out
     \<and> map agg_key out = sorted_list_of_set (month_keys records)
     \<and> (\<forall>a \<in> set out. \<exists>m. median (group_prices records (agg_key a)) = Inr m
           \<and> agg_material_slug a = fst (agg_key a)
           \<and> agg_price_usd a = py_round m 2
           \<and> agg_source a = ''WorthPoint (n='' @ str_nat (length (group_prices records (agg_key a))) @ '')''
           \<and> recorded_at a = snd (agg_key a) @ ''-15''))
   \<and> (\<forall>ps m. median ps = Inr m \<longrightarrow>
          length ps \<le> 2 * length (filter (\<lambda>x. val x \<le> val m) ps)
        \<and> length ps \<le> 2 * length (filter (\<lambda>x. val m \<le> val x) ps))
   \<and> median [dbl 1, dbl 2, dbl 3, dbl 4] = Inr (dbl (5 / 2))
   \<and> median [dbl 1, dbl 2, dbl 3] = Inr (dbl 2) \<and> median [x] = Inr x"
proof -
  have ex1: "median [dbl 1, dbl 2, dbl 3, dbl 4] = Inr (dbl (5 / 2))"
    by (simp add: median_def double_eval)
  have ex2: "median [dbl 1, dbl 2, dbl 3] = Inr (dbl 2)"
    by (simp add: median_def double_eval)
  have ex3: "median [x] = Inr x" by (simp add: median_def)
  have halves: "\<forall>ps m. median ps = Inr m \<longrightarrow>
          length ps \<le> 2 * length (filter (\<lambda>x. val x \<le> val m) ps)
        \<and> length ps \<le> 2 * length (filter (\<lambda>x. val m \<le> val x) ps)"
    using median_halves by simp
  show ?thesis
    by (intro conjI) (rule aggregates_of_groups, rule halves, rule ex1, rule ex2, rule ex3)
qed

lemma example_keys_ordered:
  "(''allende-meteorite'', ''2021-02'') \<le> (''gibeon-meteorite'', ''2020-02'')"
  "\<not> (''gibeon-meteorite'', ''2020-02'') \<le> (''allende-meteorite'', ''2021-02'')"
  by code_simp+

lemma example_records_aggregated:
  "calculate_monthly_medians example_records =
     Inr [\<lparr>agg_material_slug = ''allende-meteorite'', agg_price_usd = dbl 3, price_per = ''gram'',
            agg_source = ''WorthPoint (n=1)'', recorded_at = ''2021-02-15''\<rparr>,
          \<lparr>agg_material_slug = ''gibeon-meteorite'', agg_price_usd = dbl (19 / 50),
            price_per = ''gram'', agg_source = ''WorthPoint (n=2)'',
            recorded_at = ''2020-02-15''\<rparr>]"
  by (simp add: example_records_def calculate_monthly_medians_def group_records_def
      group_step_def example_keys_ordered median_def make_aggregate_def str_nat_def
      str_nat_aux.simps digit_char_def char_of_def bit_0 double_eval)

text \<open>The theorem at three records of two buckets: the buckets of the input, in order,
  are read off the output.\<close>

theorem monthly_medians_rounded_witness:
  "sorted_list_of_set (month_keys example_records) =
     [(''allende-meteorite'', ''2021-02''), (''gibeon-meteorite'', ''2020-02'')]
   \<and> (\<exists>m. median (group_prices example_records (''gibeon-meteorite'', ''2020-02'')) = Inr m
         \<and> py_round m 2 = dbl (19 / 50))"
proof -
  have "\<exists>out. calculate_monthly_medians example_records = Inr out
     \<and> map agg_key out = sorted_list_of_set (month_keys example_records)
     \<and> (\<forall>a \<in> set out. \<exists>m. median (group_prices example_records (agg_key a)) = Inr m
           \<and> agg_material_slug a = fst (agg_key a)
           \<and> agg_price_usd a = py_round m 2
           \<and> agg_source a = ''WorthPoint (n=''
                 @ str_nat (length (group_prices example_records (agg_key a))) @ '')''
           \<and> recorded_at a = snd (agg_key a) @ ''-15'')"
    using monthly_medians_rounded [where records = example_records] by (rule conjunct1)
  then obtain out where out: "calculate_monthly_medians example_records = Inr out"
    and keys: "map agg_key out = sorted_list_of_set (month_keys example_records)"
    and each: "\<And>a. a \<in> set out \<Longrightarrow>
           \<exists>m. median (group_prices example_records (agg_key a)) = Inr m
           \<and> agg_material_slug a = fst (agg_key a)
           \<and> agg_price_usd a = py_round m 2
           \<and> agg_source a = ''WorthPoint (n=''
                 @ str_nat (length (group_prices example_records (agg_key a))) @ '')''
           \<and> recorded_at a = snd (agg_key a) @ ''-15''"
    by (elim exE conjE) (rule that, assumption+, erule (1) bspec)
  let ?a = "\<lparr>agg_material_slug = ''gibeon-meteorite'', agg_price_usd = dbl (19 / 50),
            price_per = ''gram'', agg_source = ''WorthPoint (n=2)'', recorded_at = ''2020-02-15''\<rparr>"
  from out have out_eq: "out = [\<lparr>agg_material_slug = ''allende-meteorite'', agg_price_usd = dbl 3,
            price_per = ''gram'', agg_source = ''WorthPoint (n=1)'', recorded_at = ''2021-02-15''\<rparr>, ?a]"
    by (simp add: example_records_aggregated)
  have "sorted_list_of_set (month_keys example_records) =
     [(''allende-meteorite'', ''2021-02''), (''gibeon-meteorite'', ''2020-02'')]"
    using keys [symmetric] by (simp add: out_eq agg_key_def)
  moreover have "?a \<in> set out" by (simp add: out_eq)
  from each [OF this] obtain m where
      m: "median (group_prices example_records (agg_key ?a)) = Inr m"
      and p: "agg_price_usd ?a = py_round m 2"
    by (elim exE conjE)
  have key: "agg_key ?a = (''gibeon-meteorite'', ''2020-02'')" by (simp add: agg_key_def)
  have "\<exists>m. median (group_prices example_records (''gibeon-meteorite'', ''2020-02'')) = Inr m
         \<and> py_round m 2 = dbl (19 / 50)"
    using m p unfolding key by (intro exI [of _ m]) simp
  ultimately show ?thesis by blast
qed

text \<open>C4 as the claim states it fails: for the two prices \<open>0.25\<close> and \<open>0.50\<close> of one
  bucket the median is \<open>0.375\<close>, and the aggregate carries \<open>0.38\<close>.\<close>

theorem monthly_median_unrounded_counterexample:
  "median [dbl (1 / 4), dbl (1 / 2)] = Inr (dbl (3 / 8))
   \<and> calculate_monthly_medians
        [\<lparr>rec_material_slug = ''gibeon-meteorite'', rec_price_per_gram = dbl (1 / 4),
           rec_sale_date = Some ''2020-02-03''\<rparr>,
         \<lparr>rec_material_slug = ''gibeon-meteorite'', rec_price_per_gram = dbl (1 / 2),
           rec_sale_date = Some ''2020-02-13''\<rparr>]
      = Inr [\<lparr>agg_material_slug = ''gibeon-meteorite'', agg_price_usd = dbl (19 / 50),
               price_per = ''gram'', agg_source = ''WorthPoint (n=2)'',
               recorded_at = ''2020-02-15''\<rparr>]
   \<and> dbl (19 / 50) \<noteq> dbl (3 / 8)"
proof (intro conjI)
  show "median [dbl (1 / 4), dbl (1 / 2)] = Inr (dbl (3 / 8))"
    by (simp add: median_def double_eval)
  show "calculate_monthly_medians
        [\<lparr>rec_material_slug = ''gibeon-meteorite'', rec_price_per_gram = dbl (1 / 4),
           rec_sale_date = Some ''2020-02-03''\<rparr>,
         \<lparr>rec_material_slug = ''gibeon-meteorite'', rec_price_per_gram = dbl (1 / 2),
           rec_sale_date = Some ''2020-02-13''\<rparr>]
      = Inr [\<lparr>agg_material_slug = ''gibeon-meteorite'', agg_price_usd = dbl (19 / 50),
               price_per = ''gram'', agg_source = ''WorthPoint (n=2)'',
               recorded_at = ''2020-02-15''\<rparr>]"
    by (simp add: calculate_monthly_medians_def group_records_def group_step_def median_def
        make_aggregate_def str_nat_def str_nat_aux.simps digit_char_def char_of_def bit_0
        double_eval)
  show "dbl (19 / 50) \<noteq> dbl (3 / 8)" by (simp add: double_eval)
qed

subsection \<open>C5: the ordered unit rules\<close>

text \<open>
  C5. \<open>extract_weight\<close> never raises. It goes through the eight patterns in order; the
  multipliers are 1 for the three gram patterns, 0.2 for the two carat patterns, 28.35
  for ounces, 1000 for kilograms and 453.6 for pounds. The result is decided by the
  first rule whose first match, converted to grams (the float product of the number and
  the multiplier), lies strictly between 0.01 and 100000: that value rounded to 3
  decimals, which is the float nearest to \<open>k / 1000\<close> for an integer \<open>k\<close> within one half
  of the value times 1000; a rule that does not match, or whose value is out of the
  bounds, is passed over, and the result is \<open>None\<close> when no rule is left.

  \<open>5.2g\<close> and \<open>5.2 grams\<close> give 5.2, \<open>12ct\<close> gives 2.4, \<open>2oz\<close> gives 56.7, \<open>1.5kg\<close>
  gives 1500. \<open>10-gram\<close>, \<open>5 gr.\<close>, \<open>2 carats\<close> and \<open>3 lbs\<close> are decided by the
  second, third, fifth and eighth rule and give 10, 5, 0.4 and 1360.8. \<open>1.23456g\<close>
  gives 1.235 and \<open>2.0005g\<close> gives 2.001. \<open>0.01g\<close> and \<open>100000g\<close> are at the bounds
  and give \<open>None\<close>; \<open>0.05ct\<close>, whose float product is just above 0.01, gives 0.01. A
  text of digits and points only gives \<open>None\<close>.
\<close>

theorem extract_weight_first_match:
  "extract_weight t =
     Inr (case find (accepted t) patterns of
            None \<Rightarrow> None
          | Some rule \<Rightarrow> map_option (\<lambda>w. py_round w 3) (rule_value rule t))
   \<and> map snd patterns =
       [dbl 1, dbl 1, dbl 1, dbl (2 / 10), dbl (2 / 10), dbl (2835 / 100), dbl 1000,
        dbl (4536 / 10)]
   \<and> (\<forall>g. extract_weight t = Inr (Some g) \<longrightarrow>
         (\<exists>rule \<in> set patterns. \<exists>v k. rule_value rule t = Some v
            \<and> flt (dbl (1 / 100)) v \<and> flt v (dbl 100000)
            \<and> \<bar>of_int k - val v * 1000\<bar> \<le> 1 / 2 \<and> g = dbl (of_int k / 1000)))
   \<and> extract_weight ''5.2g'' = Inr (Some (dbl (52 / 10)))
   \<and> extract_weight ''5.2 grams'' = Inr (Some (dbl (52 / 10)))
   \<and> extract_weight ''12ct'' = Inr (Some (dbl (24 / 10)))
   \<and> extract_weight ''2oz'' = Inr (Some (dbl (567 / 10)))
   \<and> extract_weight ''1.5kg'' = Inr (Some (dbl 1500))
   \<and> map (accepted ''10-gram'') patterns
       = [False, True, False, False, False, False, False, False]
   \<and> extract_weight ''10-gram'' = Inr (Some (dbl 10))
   \<and> map (accepted ''5 gr.'') patterns
       = [False, False, True, False, False, False, False, False]
   \<and> extract_weight ''5 gr.'' = Inr (Some (dbl 5))
   \<and> map (accepted ''2 carats'') patterns
       = [False, False, False, False, True, False, False, False]
   \<and> extract_weight ''2 carats'' = Inr (Some (dbl (4 / 10)))
   \<and> map (accepted ''3 lbs'') patterns
       = [False, False, False, False, False, False, False, True]
   \<and> extract_weight ''3 lbs'' = Inr (Some (dbl (13608 / 10)))
   \<and> extract_weight ''1.23456g'' = Inr (Some (dbl (1235 / 1000)))
   \<and> extract_weight ''2.0005g'' = Inr (Some (dbl (2001 / 1000)))
   \<and> extract_weight ''0.01g'' = Inr None
   \<and> extract_weight ''100000g'' = Inr None
   \<and> extract_weight ''0.05ct'' = Inr (Some (dbl (1 / 100)))
   \<and> ((\<forall>c \<in> set t. is_digit c \<or> c = CHR ''.'') \<longrightarrow> extract_weight t = Inr None)"
proof -
  have unit_less: "(\<forall>c \<in> set t. is_digit c \<or> c = CHR ''.'') \<longrightarrow> extract_weight t = Inr None"
    unfolding extract_weight_def
    using try_patterns_unit_less [OF _ patterns_need_letter] by blast
  have rounded: "\<forall>g. extract_weight t = Inr (Some g) \<longrightarrow>
         (\<exists>rule \<in> set patterns. \<exists>v k. rule_value rule t = Some v
            \<and> flt (dbl (1 / 100)) v \<and> flt v (dbl 100000)
            \<and> \<bar>of_int k - val v * 1000\<bar> \<le> 1 / 2 \<and> g = dbl (of_int k / 1000))"
  proof (intro allI impI)
    fix g assume "extract_weight t = Inr (Some g)"
    then have "title_weight t = Some g" by (simp add: extract_weight_title_weight)
    from title_weight_bounds [OF this] obtain rule v where r: "rule \<in> set patterns"
      and v: "rule_value rule t = Some v" and b: "in_bounds v" and g: "g = py_round v 3"
      by blast
    let ?k = "round_half_even (val v * 1000)"
    from b have "flt (dbl (1 / 100)) v" "flt v (dbl 100000)" by (simp_all add: in_bounds_def)
    moreover have "\<bar>of_int ?k - val v * 1000\<bar> \<le> 1 / 2" by (rule round_half_even_near)
    moreover from g have "g = dbl (of_int ?k / 1000)" by (simp add: py_round_def)
    ultimately show "\<exists>rule \<in> set patterns. \<exists>v k. rule_value rule t = Some v
            \<and> flt (dbl (1 / 100)) v \<and> flt v (dbl 100000)
            \<and> \<bar>of_int k - val v * 1000\<bar> \<le> 1 / 2 \<and> g = dbl (of_int k / 1000)"
      using r v by blast
  qed
  have a2: "map (accepted ''10-gram'') patterns
       = [False, True, False, False, False, False, False, False]"
    by (simp add: accepted_def rule_value_def in_bounds_def regex_eval number_eval)
  have a3: "map (accepted ''5 gr.'') patterns
       = [False, False, True, False, False, False, False, False]"
    by (simp add: accepted_def rule_value_def in_bounds_def regex_eval number_eval)
  have a5: "map (accepted ''2 carats'') patterns
       = [False, False, False, False, True, False, False, False]"
    by (simp add: accepted_def rule_value_def in_bounds_def regex_eval number_eval)
  have a8: "map (accepted ''3 lbs'') patterns
       = [False, False, False, False, False, False, False, True]"
    by (simp add: accepted_def rule_value_def in_bounds_def regex_eval number_eval)
  have e2: "extract_weight ''10-gram'' = Inr (Some (dbl 10))"
    by (simp add: extract_weight_def regex_eval number_eval)
  have e3: "extract_weight ''5 gr.'' = Inr (Some (dbl 5))"
    by (simp add: extract_weight_def regex_eval number_eval)
  have e5: "extract_weight ''2 carats'' = Inr (Some (dbl (4 / 10)))"
    by (simp add: extract_weight_def regex_eval number_eval)
  have e8: "extract_weight ''3 lbs'' = Inr (Some (dbl (13608 / 10)))"
    by (simp add: extract_weight_def regex_eval number_eval)
  have r1: "extract_weight ''1.23456g'' = Inr (Some (dbl (1235 / 1000)))"
    by (simp add: extract_weight_def regex_eval number_eval)
  have r2: "extract_weight ''2.0005g'' = Inr (Some (dbl (2001 / 1000)))"
    by (simp add: extract_weight_def regex_eval number_eval)
  have b1: "extract_weight ''0.01g'' = Inr None"
    by (simp add: extract_weight_def regex_eval number_eval)
  have b2: "extract_weight ''100000g'' = Inr None"
    by (simp add: extract_weight_def regex_eval number_eval)
  have b3: "extract_weight ''0.05ct'' = Inr (Some (dbl (1 / 100)))"
    by (simp add: extract_weight_def regex_eval number_eval)
  show ?thesis
    by (intro conjI) (rule extract_weight_eq, rule multipliers, rule rounded,
      (rule extract_weight_examples)+, rule a2, rule e2, rule a3, rule e3, rule a5, rule e5,
      rule a8, rule e8, rule r1, rule r2, rule b1, rule b2, rule b3, rule unit_less)
qed

text \<open>The theorem at \<open>12.5\<close>, a number without a unit; at \<open>100000g 2kg\<close>, where the
  gram rule matches out of the bounds and the kilogram rule decides; and at \<open>1.23456g\<close>,
  whose result is the float nearest to a multiple of one thousandth.\<close>

theorem extract_weight_first_match_witness:
  "list_all (\<lambda>c. is_digit c \<or> c = CHR ''.'') ''12.5'' \<and> extract_weight ''12.5'' = Inr None
   \<and> map (accepted ''100000g 2kg'') patterns
       = [False, False, False, False, False, False, True, False]
   \<and> extract_weight ''100000g 2kg'' = Inr (Some (dbl 2000))
   \<and> extract_weight ''1.23456g'' = Inr (Some (dbl (1235 / 1000)))
   \<and> (\<exists>rule \<in> set patterns. \<exists>v k. rule_value rule ''1.23456g'' = Some v
         \<and> flt (dbl (1 / 100)) v \<and> flt v (dbl 100000)
         \<and> \<bar>of_int k - val v * 1000\<bar> \<le> 1 / 2 \<and> dbl (1235 / 1000) = dbl (of_int k / 1000))"
proof -
  have h: "\<forall>c \<in> set ''12.5''. is_digit c \<or> c = CHR ''.''" by (simp add: is_digit_def)
  have a: "map (accepted ''100000g 2kg'') patterns
       = [False, False, False, False, False, False, True, False]"
    by (simp add: accepted_def rule_value_def in_bounds_def regex_eval number_eval)
  have f: "find (accepted ''100000g 2kg'') patterns = Some (patterns ! 6)"
    using a by (simp add: patterns_def)
  have v: "map_option (\<lambda>w. py_round w 3) (rule_value (patterns ! 6) ''100000g 2kg'')
      = Some (dbl 2000)"
    by (simp add: rule_value_def regex_eval number_eval)
  have "(\<forall>c \<in> set ''12.5''. is_digit c \<or> c = CHR ''.'') \<longrightarrow> extract_weight ''12.5'' = Inr None"
    using extract_weight_first_match [of "''12.5''"] by (elim conjE)
  with h have n: "extract_weight ''12.5'' = Inr None" by (rule rev_mp)
  have "extract_weight ''100000g 2kg'' =
     Inr (case find (accepted ''100000g 2kg'') patterns of
            None \<Rightarrow> None
          | Some rule \<Rightarrow> map_option (\<lambda>w. py_round w 3) (rule_value rule ''100000g 2kg''))"
    using extract_weight_first_match [of "''100000g 2kg''"] by (rule conjunct1)
  then have k: "extract_weight ''100000g 2kg'' = Inr (Some (dbl 2000))"
    unfolding f option.case v .
  have e: "extract_weight ''1.23456g'' = Inr (Some (dbl (1235 / 1000)))"
    using extract_weight_first_match [of "''1.23456g''"] by (elim conjE)
  have "\<forall>g. extract_weight ''1.23456g'' = Inr (Some g) \<longrightarrow>
         (\<exists>rule \<in> set patterns. \<exists>v k. rule_value rule ''1.23456g'' = Some v
            \<and> flt (dbl (1 / 100)) v \<and> flt v (dbl 100000)
            \<and> \<bar>of_int k - val v * 1000\<bar> \<le> 1 / 2 \<and> g = dbl (of_int k / 1000))"
    using extract_weight_first_match [of "''1.23456g''"] by (elim conjE)
  with e have r: "\<exists>rule \<in> set patterns. \<exists>v k. rule_value rule ''1.23456g'' = Some v
         \<and> flt (dbl (1 / 100)) v \<and> flt v (dbl 100000)
         \<and> \<bar>of_int k - val v * 1000\<bar> \<le> 1 / 2 \<and> dbl (1235 / 1000) = dbl (of_int k / 1000)"
    by blast
  have l: "list_all (\<lambda>c. is_digit c \<or> c = CHR ''.'') ''12.5''"
    by (simp add: is_digit_def)
  from l n a k e r show ?thesis by (intro conjI)
qed

subsection \<open>C6: the order of filter and deduplication\<close>

text \<open>
  C6, as the code has it. Every row goes through the filter of its ruleset first. The
  membership test on \<open>seen_titles\<close> is made only for a row that passes the filter, and
  the key is inserted only if the test fails: the operations of one row are the call of
  the filter, then for a passing row the test, then for a new key the insertion. This is
  so for every row whose title cell holds a text; on a title cell that is \<^verbatim>\<open>None\<close> the
  loop raises \<^verbatim>\<open>AttributeError\<close> before the filter is called.
\<close>

theorem filter_before_dedup:
  "(titled row \<longrightarrow>
      (\<exists>st' k' d'. filter_row slug fn (st, kept, dropped) row = Inr (st', k', d')
         \<and> ops st' =
             ops st @ Filter_call (lower (title_of row)) #
               (if \<not> passes fn row then []
                else if title_key row \<in> seen_titles st then [Seen_test (title_key row)]
                else [Seen_test (title_key row), Seen_add (title_key row)])))
   \<and> (\<not> titled row \<longrightarrow> filter_row slug fn (st, kept, dropped) row = Inl AttributeError)"
  by (cases rule: filter_row_cases [where fn = fn and row = row and st = st])
     (simp_all add: filter_row_untitled filter_row_rejected filter_row_repeat filter_row_new)

text \<open>The theorem at a repeated title: the filter is called, then the test drops the
  row; and at a row whose title cell is \<^verbatim>\<open>None\<close>.\<close>

theorem filter_before_dedup_witness:
  "titled [''title'' \<mapsto> Some ''Gibeon 5g'']
   \<and> (\<exists>st' k' d'. filter_row ''gibeon-meteorite'' (\<lambda>t. contains t ''gibeon'')
          (initial_state\<lparr>seen_titles := {''gibeon 5g''}\<rparr>, 1, 0) [''title'' \<mapsto> Some ''Gibeon 5g'']
        = Inr (st', k', d')
      \<and> ops st' = [Filter_call ''gibeon 5g'', Seen_test ''gibeon 5g''])
   \<and> \<not> titled [''title'' \<mapsto> None]
   \<and> filter_row ''gibeon-meteorite'' (\<lambda>t. contains t ''gibeon'')
          (initial_state\<lparr>seen_titles := {''gibeon 5g''}\<rparr>, 1, 0) [''title'' \<mapsto> None]
        = Inl AttributeError"
proof -
  have t: "titled [''title'' \<mapsto> Some ''Gibeon 5g'']" by (simp add: titled_def get_title_def)
  have u: "\<not> titled [''title'' \<mapsto> None]" by (simp add: titled_def get_title_def)
  from t filter_before_dedup [of "[''title'' \<mapsto> Some ''Gibeon 5g'']" "''gibeon-meteorite''"
      "\<lambda>t. contains t ''gibeon''" "initial_state\<lparr>seen_titles := {''gibeon 5g''}\<rparr>" 1 0]
  have a: "\<exists>st' k' d'. filter_row ''gibeon-meteorite'' (\<lambda>t. contains t ''gibeon'')
          (initial_state\<lparr>seen_titles := {''gibeon 5g''}\<rparr>, 1, 0) [''title'' \<mapsto> Some ''Gibeon 5g'']
        = Inr (st', k', d')
      \<and> ops st' = [Filter_call ''gibeon 5g'', Seen_test ''gibeon 5g'']"
    by (simp add: title_eval initial_state_def)
  from u filter_before_dedup [of "[''title'' \<mapsto> None]" "''gibeon-meteorite''"
      "\<lambda>t. contains t ''gibeon''" "initial_state\<lparr>seen_titles := {''gibeon 5g''}\<rparr>" 1 0]
  have b: "filter_row ''gibeon-meteorite'' (\<lambda>t. contains t ''gibeon'')
          (initial_state\<lparr>seen_titles := {''gibeon 5g''}\<rparr>, 1, 0) [''title'' \<mapsto> None]
        = Inl AttributeError"
    by (elim conjE) (erule (1) rev_mp [rotated])
  from t a u b show ?thesis by (intro conjI)
qed

text \<open>C6 as the claim states it fails: on the second of two equal titles the filter is
  called before the membership test, and a row that the filter rejects is not tested
  and its key not inserted.\<close>

theorem dedup_before_filter_counterexample:
  "(\<exists>st' k' d'.
      filter_rows ''gibeon-meteorite'' (\<lambda>t. contains t ''gibeon'') (initial_state, 0, 0)
          [[''title'' \<mapsto> Some ''Gibeon 5g''], [''title'' \<mapsto> Some ''Gibeon 5g'']]
        = Inr (st', k', d')
      \<and> ops st' = [Filter_call ''gibeon 5g'', Seen_test ''gibeon 5g'', Seen_add ''gibeon 5g'',
                    Filter_call ''gibeon 5g'', Seen_test ''gibeon 5g''])
   \<and> filter_row ''gibeon-meteorite'' (\<lambda>t. contains t ''gibeon'') (initial_state, 0, 0)
          [''title'' \<mapsto> Some ''Quartz'']
     = Inr (initial_state\<lparr>ops := [Filter_call ''quartz'']\<rparr>, 0, 1)"
  by (simp add: filter_row_def get_title_def lower_def lower_char_def char_of_def bit_0
      initial_state_def Let_def)

subsection \<open>C7: rejected listings record no key\<close>

text \<open>
  C7. A row rejected by the filter of its ruleset leaves \<open>seen_titles\<close> and the
  filtered rows unchanged and counts as dropped. A row that passes is dropped with
  nothing recorded when its key is present, and otherwise its key is inserted and the
  row is kept. Hence a row with the same key that passes the filter of a later ruleset
  is still kept after the rejected one. This is so for rows whose title cell holds a
  text; a title cell that is \<^verbatim>\<open>None\<close> raises \<^verbatim>\<open>AttributeError\<close>.
\<close>

theorem rejected_listing_leaves_dedup_set:
  "(titled row \<and> \<not> passes fn row \<longrightarrow>
       (\<exists>st'. filter_row slug fn (st, kept, dropped) row = Inr (st', kept, dropped + 1)
          \<and> seen_titles st' = seen_titles st \<and> filtered_data st' = filtered_data st))
   \<and> (titled row \<and> passes fn row \<and> title_key row \<in> seen_titles st \<longrightarrow>
       (\<exists>st'. filter_row slug fn (st, kept, dropped) row = Inr (st', kept, dropped + 1)
          \<and> seen_titles st' = seen_titles st \<and> filtered_data st' = filtered_data st))
   \<and> (titled row \<and> passes fn row \<and> title_key row \<notin> seen_titles st \<longrightarrow>
       (\<exists>st'. filter_row slug fn (st, kept, dropped) row = Inr (st', kept + 1, dropped)
          \<and> seen_titles st' = insert (title_key row) (seen_titles st)
          \<and> filtered_data st'
              = dict_append slug (row(''material_slug'' \<mapsto> Some slug)) (filtered_data st)))
   \<and> (titled row \<and> titled row' \<and> \<not> passes fn row \<and> passes fn' row'
        \<and> title_key row' = title_key row \<and> title_key row \<notin> seen_titles st \<longrightarrow>
       (\<exists>s1 s2. filter_row slug fn (st, kept, dropped) row = Inr (s1, kept, dropped + 1)
          \<and> filter_row slug' fn' (s1, kept, dropped + 1) row' = Inr (s2, kept + 1, dropped + 1)
          \<and> filtered_data s2
              = dict_append slug' (row'(''material_slug'' \<mapsto> Some slug')) (filtered_data st)))
   \<and> (\<not> titled row \<longrightarrow> filter_row slug fn (st, kept, dropped) row = Inl AttributeError)"
proof (intro conjI impI)
  assume a: "titled row \<and> titled row' \<and> \<not> passes fn row \<and> passes fn' row'
        \<and> title_key row' = title_key row \<and> title_key row \<notin> seen_titles st"
  let ?s1 = "st\<lparr>ops := ops st @ [Filter_call (lower (title_of row))]\<rparr>"
  let ?s2 = "?s1\<lparr>seen_titles := insert (title_key row') (seen_titles ?s1),
               ops := ops ?s1 @ [Filter_call (lower (title_of row')), Seen_test (title_key row'),
                                Seen_add (title_key row')],
               filtered_data :=
                 dict_append slug' (row'(''material_slug'' \<mapsto> Some slug')) (filtered_data ?s1)\<rparr>"
  from a have first: "filter_row slug fn (st, kept, dropped) row = Inr (?s1, kept, dropped + 1)"
    by (simp add: filter_row_rejected)
  from a have "title_key row' \<notin> seen_titles ?s1" by simp
  with a have second: "filter_row slug' fn' (?s1, kept, dropped + 1) row'
      = Inr (?s2, kept + 1, dropped + 1)"
    by (intro filter_row_new) simp_all
  have "filtered_data ?s2
      = dict_append slug' (row'(''material_slug'' \<mapsto> Some slug')) (filtered_data st)"
    by simp
  with first second
  show "\<exists>s1 s2. filter_row slug fn (st, kept, dropped) row = Inr (s1, kept, dropped + 1)
          \<and> filter_row slug' fn' (s1, kept, dropped + 1) row' = Inr (s2, kept + 1, dropped + 1)
          \<and> filtered_data s2
              = dict_append slug' (row'(''material_slug'' \<mapsto> Some slug')) (filtered_data st)"
    by blast
qed (simp_all add: filter_row_untitled filter_row_rejected filter_row_repeat filter_row_new)

text \<open>The theorem at a title rejected under the trinitite ruleset and kept, in another
  case, under the gibeon ruleset.\<close>

theorem rejected_listing_leaves_dedup_set_witness:
  "titled [''title'' \<mapsto> Some ''Gibeon 5g''] \<and> titled [''title'' \<mapsto> Some ''GIBEON 5g'']
   \<and> \<not> passes (\<lambda>t. contains t ''trinitite'' \<and> \<not> contains t ''red'')
         [''title'' \<mapsto> Some ''Gibeon 5g'']
   \<and> passes (\<lambda>t. contains t ''gibeon'') [''title'' \<mapsto> Some ''GIBEON 5g'']
   \<and> title_key [''title'' \<mapsto> Some ''GIBEON 5g''] = title_key [''title'' \<mapsto> Some ''Gibeon 5g'']
   \<and> title_key [''title'' \<mapsto> Some ''Gibeon 5g''] \<notin> seen_titles initial_state
   \<and> (\<exists>s1 s2. filter_row ''trinitite'' (\<lambda>t. contains t ''trinitite'' \<and> \<not> contains t ''red'')
           (initial_state, 0, 0) [''title'' \<mapsto> Some ''Gibeon 5g''] = Inr (s1, 0, 1)
        \<and> filter_row ''gibeon-meteorite'' (\<lambda>t. contains t ''gibeon'') (s1, 0, 1)
           [''title'' \<mapsto> Some ''GIBEON 5g''] = Inr (s2, 1, 1)
        \<and> filtered_data s2
            = [(''gibeon-meteorite'',
                [[''title'' \<mapsto> Some ''GIBEON 5g'', ''material_slug'' \<mapsto> Some ''gibeon-meteorite'']])])"
proof -
  let ?row = "[''title'' \<mapsto> Some ''Gibeon 5g'']"
  let ?row' = "[''title'' \<mapsto> Some ''GIBEON 5g'']"
  let ?fn = "\<lambda>t. contains t ''trinitite'' \<and> \<not> contains t ''red''"
  let ?fn' = "\<lambda>t. contains t ''gibeon''"
  have h: "titled ?row \<and> titled ?row' \<and> \<not> passes ?fn ?row \<and> passes ?fn' ?row'
     \<and> title_key ?row' = title_key ?row \<and> title_key ?row \<notin> seen_titles initial_state"
    by (simp add: title_eval initial_state_def)
  have "titled ?row \<and> titled ?row' \<and> \<not> passes ?fn ?row \<and> passes ?fn' ?row'
        \<and> title_key ?row' = title_key ?row \<and> title_key ?row \<notin> seen_titles initial_state \<longrightarrow>
       (\<exists>s1 s2. filter_row ''trinitite'' ?fn (initial_state, 0, 0) ?row = Inr (s1, 0, 0 + 1)
          \<and> filter_row ''gibeon-meteorite'' ?fn' (s1, 0, 0 + 1) ?row' = Inr (s2, 0 + 1, 0 + 1)
          \<and> filtered_data s2
              = dict_append ''gibeon-meteorite''
                  (?row'(''material_slug'' \<mapsto> Some ''gibeon-meteorite''))
                  (filtered_data initial_state))"
    using rejected_listing_leaves_dedup_set
      [where fn = ?fn and row = ?row and fn' = ?fn' and row' = ?row' and st = initial_state
         and slug = "''trinitite''" and slug' = "''gibeon-meteorite''"
         and kept = 0 and dropped = 0]
    by (elim conjE)
  with h have "\<exists>s1 s2. filter_row ''trinitite'' ?fn (initial_state, 0, 0) ?row = Inr (s1, 0, 0 + 1)
          \<and> filter_row ''gibeon-meteorite'' ?fn' (s1, 0, 0 + 1) ?row' = Inr (s2, 0 + 1, 0 + 1)
          \<and> filtered_data s2
              = dict_append ''gibeon-meteorite''
                  (?row'(''material_slug'' \<mapsto> Some ''gibeon-meteorite''))
                  (filtered_data initial_state)"
    by (rule rev_mp)
  then have "\<exists>s1 s2. filter_row ''trinitite'' ?fn (initial_state, 0, 0) ?row = Inr (s1, 0, 1)
        \<and> filter_row ''gibeon-meteorite'' ?fn' (s1, 0, 1) ?row' = Inr (s2, 1, 1)
        \<and> filtered_data s2
            = [(''gibeon-meteorite'',
                [[''title'' \<mapsto> Some ''GIBEON 5g'', ''material_slug'' \<mapsto> Some ''gibeon-meteorite'']])]"
    by (simp add: initial_state_def)
  with h show ?thesis by (elim conjE) (intro conjI)
qed

subsection \<open>C8: an empty ruleset table\<close>

text \<open>
  C8, as the code has it. With an empty ruleset table every file is skipped: the
  filtering loop leaves the initial state, so no listing is filtered, normalized or
  emitted, and the merged table is written with no row; nothing stops the run before
  that.

  For every table, when every input row has a title cell that holds a text, the
  filtering and the normalization do not raise and the merged table is written; the run
  returns its rows whenever there is at least one. Each listing is handled on its own. In
  the filtering loop a row counts as kept or as dropped, and the rows kept before it
  stay: it is appended to them when it passes its filter with a new key, and otherwise
  they are left as they are. The merged table is made of the sales of the kept rows,
  row after row, each row giving one sale or none; a kept row gives none exactly when
  it has no usable price, whatever its date and weight cells hold.

  The run raises in two cases only: \<^verbatim>\<open>ValueError\<close> from the summary when the merged
  table was written without a row, and \<^verbatim>\<open>AttributeError\<close> from the filtering loop, before
  anything is written, when some title cell is \<^verbatim>\<open>None\<close>.
\<close>

theorem empty_ruleset_processes_nothing:
  "filter_all [] raw_data = Inr initial_state
   \<and> saved (main [] float_of strp raw_data) = Some []
   \<and> (all_titled raw_data \<longrightarrow> (\<exists>st. filter_all cfg raw_data = Inr st))
   \<and> (\<forall>st. filter_all cfg raw_data = Inr st \<longrightarrow>
         normalize_all float_of strp (filtered_data st) []
           = Inr (concat (map (\<lambda>(slug, rows). concat (map (emitted float_of strp slug) rows))
                    (filtered_data st)))
       \<and> saved (main cfg float_of strp raw_data)
           = Some (concat (map (\<lambda>(slug, rows). concat (map (emitted float_of strp slug) rows))
                    (filtered_data st)))
       \<and> (concat (map (\<lambda>(slug, rows). concat (map (emitted float_of strp slug) rows))
                    (filtered_data st)) \<noteq> [] \<longrightarrow>
            returned (main cfg float_of strp raw_data)
              = Inr (concat (map (\<lambda>(slug, rows). concat (map (emitted float_of strp slug) rows))
                       (filtered_data st)))))
   \<and> (titled row \<longrightarrow>
        (\<exists>st' k' d'. filter_row slug fn (st, kept, dropped) row = Inr (st', k', d')
           \<and> k' + d' = kept + dropped + 1
           \<and> filtered_data st' =
               (if passes fn row \<and> title_key row \<notin> seen_titles st
                then dict_append slug (row(''material_slug'' \<mapsto> Some slug)) (filtered_data st)
                else filtered_data st)))
   \<and> (titled row \<longrightarrow>
        (\<exists>r. normalize_row float_of strp slug row = Inr r
           \<and> emitted float_of strp slug row = (case r of None \<Rightarrow> [] | Some c \<Rightarrow> [c])
           \<and> (r = None \<longleftrightarrow>
                (case parse_price float_of (py_or (cell row ''price_usd'') (cell row ''price''))
                 of None \<Rightarrow> True | Some price \<Rightarrow> val price = 0))))
   \<and> (\<forall>e. returned (main cfg float_of strp raw_data) = Inl e \<longrightarrow>
         e = ValueError \<and> saved (main cfg float_of strp raw_data) = Some []
       \<or> e = AttributeError \<and> \<not> all_titled raw_data
           \<and> saved (main cfg float_of strp raw_data) = None)"
proof (intro conjI allI impI)
  show "filter_all [] raw_data = Inr initial_state"
    by (simp add: filter_all_def filter_files_empty_cfg)
  show "saved (main [] float_of strp raw_data) = Some []" by (simp add: main_empty_cfg_run)
next
  assume "all_titled raw_data"
  then show "\<exists>st. filter_all cfg raw_data = Inr st" by (rule filter_all_ok)
next
  fix st assume st: "filter_all cfg raw_data = Inr st"
  let ?T = "concat (map (\<lambda>(slug, rows). concat (map (emitted float_of strp slug) rows))
                    (filtered_data st))"
  have T: "table_of float_of strp (filtered_data st) = ?T" by (simp add: table_of_def)
  from main_eq(1) [OF st, of float_of strp]
  show "normalize_all float_of strp (filtered_data st) [] = Inr ?T" unfolding T .
  from main_eq(2) [OF st, of float_of strp]
  have m: "main cfg float_of strp raw_data =
         \<lparr>saved = Some ?T, returned = (if ?T = [] then Inl ValueError else Inr ?T)\<rparr>"
    unfolding T .
  show "saved (main cfg float_of strp raw_data) = Some ?T" by (simp add: m)
  assume "?T \<noteq> []"
  then show "returned (main cfg float_of strp raw_data) = Inr ?T" by (simp add: m)
next
  assume t: "titled row"
  show "\<exists>st' k' d'. filter_row slug fn (st, kept, dropped) row = Inr (st', k', d')
           \<and> k' + d' = kept + dropped + 1
           \<and> filtered_data st' =
               (if passes fn row \<and> title_key row \<notin> seen_titles st
                then dict_append slug (row(''material_slug'' \<mapsto> Some slug)) (filtered_data st)
                else filtered_data st)"
    by (cases rule: filter_row_cases [where fn = fn and row = row and st = st])
       (simp_all add: t filter_row_rejected filter_row_repeat filter_row_new)
next
  assume t: "titled row"
  let ?p = "parse_price float_of (py_or (cell row ''price_usd'') (cell row ''price''))"
  from normalize_row_titled [OF t] obtain r
    where r: "normalize_row float_of strp slug row = Inr r" by blast
  have e: "emitted float_of strp slug row = (case r of None \<Rightarrow> [] | Some c \<Rightarrow> [c])"
    by (cases r) (simp_all add: emitted_def r)
  have "r = None \<longleftrightarrow> (case ?p of None \<Rightarrow> True | Some price \<Rightarrow> val price = 0)"
    using r t by (cases ?p) (auto simp: normalize_row_eq split: if_splits)
  with r e show "\<exists>r. normalize_row float_of strp slug row = Inr r
           \<and> emitted float_of strp slug row = (case r of None \<Rightarrow> [] | Some c \<Rightarrow> [c])
           \<and> (r = None \<longleftrightarrow> (case ?p of None \<Rightarrow> True | Some price \<Rightarrow> val price = 0))"
    by blast
next
  fix e assume r: "returned (main cfg float_of strp raw_data) = Inl e"
  show "e = ValueError \<and> saved (main cfg float_of strp raw_data) = Some []
       \<or> e = AttributeError \<and> \<not> all_titled raw_data
           \<and> saved (main cfg float_of strp raw_data) = None"
  proof (cases rule: filter_all_cases [of cfg raw_data])
    case (ok st)
    from main_eq(2) [OF ok, of float_of strp] r
    have "e = ValueError \<and> saved (main cfg float_of strp raw_data) = Some []"
      by (cases "table_of float_of strp (filtered_data st) = []") simp_all
    then show ?thesis ..
  next
    case error
    from main_error [OF error(1), of float_of strp] r error(2)
    have "e = AttributeError \<and> \<not> all_titled raw_data
           \<and> saved (main cfg float_of strp raw_data) = None" by simp
    then show ?thesis ..
  qed
qed

lemma untitled_run:
  "main MATERIAL_CONFIG plain_float iso_strp
      [(''gibeon.csv'', [[''title'' \<mapsto> None, ''price'' \<mapsto> Some ''5'']])]
     = \<lparr>saved = None, returned = Inl AttributeError\<rparr>"
  by (simp add: main_def filter_all_def filter_file_def gibeon_key gibeon_rules
      filter_row_def initial_state_def get_title_def)

text \<open>The theorem at one file of one listing that survives: the run returns its row; and
  at one file whose only listing has no title: the run raises before the table is
  written.\<close>

theorem empty_ruleset_processes_nothing_witness:
  "all_titled [(''gibeon.csv'', [[''title'' \<mapsto> Some ''Gibeon 5g'', ''price'' \<mapsto> Some ''5'']])]
   \<and> returned (main MATERIAL_CONFIG plain_float iso_strp
      [(''gibeon.csv'', [[''title'' \<mapsto> Some ''Gibeon 5g'', ''price'' \<mapsto> Some ''5'']])])
     = Inr [\<lparr>material_slug = ''gibeon-meteorite'', title = Some ''Gibeon 5g'',
            price_usd = dbl 5, sale_date = None, weight_grams = Some (dbl 5),
            price_per_gram = Some (dbl 1), source = ''WorthPoint''\<rparr>]
   \<and> returned (main MATERIAL_CONFIG plain_float iso_strp
      [(''gibeon.csv'', [[''title'' \<mapsto> None, ''price'' \<mapsto> Some ''5'']])])
     = Inl AttributeError
   \<and> \<not> all_titled [(''gibeon.csv'', [[''title'' \<mapsto> None, ''price'' \<mapsto> Some ''5'']])]
   \<and> saved (main MATERIAL_CONFIG plain_float iso_strp
      [(''gibeon.csv'', [[''title'' \<mapsto> None, ''price'' \<mapsto> Some ''5'']])]) = None
   \<and> titled [''title'' \<mapsto> Some ''Gibeon 5g'', ''price'' \<mapsto> Some ''5'']
   \<and> (\<exists>st' k' d'. filter_row ''gibeon-meteorite'' (\<lambda>t. contains t ''gibeon'')
          (initial_state, 0, 0) [''title'' \<mapsto> Some ''Gibeon 5g'', ''price'' \<mapsto> Some ''5'']
        = Inr (st', k', d')
      \<and> k' + d' = 1
      \<and> filtered_data st' =
          [(''gibeon-meteorite'',
            [[''title'' \<mapsto> Some ''Gibeon 5g'', ''price'' \<mapsto> Some ''5'',
              ''material_slug'' \<mapsto> Some ''gibeon-meteorite'']])])
   \<and> (\<exists>r. normalize_row plain_float iso_strp ''gibeon-meteorite''
          [''title'' \<mapsto> Some ''Gibeon 5g'', ''price'' \<mapsto> Some ''5''] = Inr r
      \<and> r \<noteq> None)"
proof -
  let ?row = "[''title'' \<mapsto> Some ''Gibeon 5g'', ''price'' \<mapsto> Some ''5'']"
  let ?raw = "[(''gibeon.csv'', [[''title'' \<mapsto> Some ''Gibeon 5g'', ''price'' \<mapsto> Some ''5'']])]"
  let ?bad = "[(''gibeon.csv'', [[''title'' \<mapsto> None, ''price'' \<mapsto> Some ''5'']])]"
  let ?c = "\<lparr>material_slug = ''gibeon-meteorite'', title = Some ''Gibeon 5g'',
            price_usd = dbl 5, sale_date = None, weight_grams = Some (dbl 5),
            price_per_gram = Some (dbl 1), source = ''WorthPoint''\<rparr>"
  let ?T = "\<lambda>st. concat (map (\<lambda>(slug, rows). concat (map (emitted plain_float iso_strp slug) rows))
                    (filtered_data st))"
  note inst = empty_ruleset_processes_nothing
      [where cfg = MATERIAL_CONFIG and float_of = plain_float and strp = iso_strp
         and raw_data = ?raw and row = ?row and slug = "''gibeon-meteorite''"
         and fn = "\<lambda>t. contains t ''gibeon''" and st = initial_state
         and kept = 0 and dropped = 0]
  note bad = empty_ruleset_processes_nothing
      [where cfg = MATERIAL_CONFIG and float_of = plain_float and strp = iso_strp
         and raw_data = ?bad and row = ?row and slug = "''gibeon-meteorite''"
         and fn = "\<lambda>t. contains t ''gibeon''" and st = initial_state
         and kept = 0 and dropped = 0]
  have at: "all_titled ?raw" by (simp add: all_titled_def titled_def get_title_def)
  from inst have "all_titled ?raw \<longrightarrow> (\<exists>st. filter_all MATERIAL_CONFIG ?raw = Inr st)"
    by (elim conjE)
  with at obtain st where st: "filter_all MATERIAL_CONFIG ?raw = Inr st" by blast
  from inst have "\<forall>st. filter_all MATERIAL_CONFIG ?raw = Inr st \<longrightarrow>
         normalize_all plain_float iso_strp (filtered_data st) [] = Inr (?T st)
       \<and> saved (main MATERIAL_CONFIG plain_float iso_strp ?raw) = Some (?T st)
       \<and> (?T st \<noteq> [] \<longrightarrow> returned (main MATERIAL_CONFIG plain_float iso_strp ?raw) = Inr (?T st))"
    by (elim conjE)
  with st have s: "saved (main MATERIAL_CONFIG plain_float iso_strp ?raw) = Some (?T st)"
    and r: "?T st \<noteq> [] \<longrightarrow> returned (main MATERIAL_CONFIG plain_float iso_strp ?raw) = Inr (?T st)"
    by blast+
  from s have "?T st = [?c]" by (simp add: gibeon_run)
  with r have a: "returned (main MATERIAL_CONFIG plain_float iso_strp ?raw) = Inr [?c]" by simp
  have b: "returned (main MATERIAL_CONFIG plain_float iso_strp ?bad) = Inl AttributeError"
    by (simp add: untitled_run)
  from bad have "\<forall>e. returned (main MATERIAL_CONFIG plain_float iso_strp ?bad) = Inl e \<longrightarrow>
         e = ValueError \<and> saved (main MATERIAL_CONFIG plain_float iso_strp ?bad) = Some []
       \<or> e = AttributeError \<and> \<not> all_titled ?bad
           \<and> saved (main MATERIAL_CONFIG plain_float iso_strp ?bad) = None"
    by (elim conjE)
  with b have c: "\<not> all_titled ?bad
      \<and> saved (main MATERIAL_CONFIG plain_float iso_strp ?bad) = None"
    by blast
  have t: "titled ?row" by (simp add: titled_def get_title_def)
  have p: "passes (\<lambda>t. contains t ''gibeon'') ?row \<and> title_key ?row \<notin> seen_titles initial_state"
    by (simp add: title_eval initial_state_def)
  from inst have "titled ?row \<longrightarrow>
        (\<exists>st' k' d'. filter_row ''gibeon-meteorite'' (\<lambda>t. contains t ''gibeon'')
             (initial_state, 0, 0) ?row = Inr (st', k', d')
           \<and> k' + d' = 0 + 0 + 1
           \<and> filtered_data st' =
               (if passes (\<lambda>t. contains t ''gibeon'') ?row
                    \<and> title_key ?row \<notin> seen_titles initial_state
                then dict_append ''gibeon-meteorite''
                       (?row(''material_slug'' \<mapsto> Some ''gibeon-meteorite''))
                       (filtered_data initial_state)
                else filtered_data initial_state))"
    by (elim conjE)
  with t p have d: "\<exists>st' k' d'. filter_row ''gibeon-meteorite'' (\<lambda>t. contains t ''gibeon'')
          (initial_state, 0, 0) ?row = Inr (st', k', d')
      \<and> k' + d' = 1
      \<and> filtered_data st' =
          [(''gibeon-meteorite'',
            [[''title'' \<mapsto> Some ''Gibeon 5g'', ''price'' \<mapsto> Some ''5'',
              ''material_slug'' \<mapsto> Some ''gibeon-meteorite'']])]"
    by (simp add: initial_state_def)
  have price: "parse_price plain_float (py_or (cell ?row ''price_usd'') (cell ?row ''price''))
      = Some (dbl 5)"
    by (simp add: price_eval number_eval is_space_def is_digit_def)
  have nz: "val (dbl 5) \<noteq> 0" by (simp add: double_eval)
  from inst have "titled ?row \<longrightarrow>
        (\<exists>r. normalize_row plain_float iso_strp ''gibeon-meteorite'' ?row = Inr r
           \<and> emitted plain_float iso_strp ''gibeon-meteorite'' ?row
               = (case r of None \<Rightarrow> [] | Some c \<Rightarrow> [c])
           \<and> (r = None \<longleftrightarrow>
                (case parse_price plain_float (py_or (cell ?row ''price_usd'') (cell ?row ''price''))
                 of None \<Rightarrow> True | Some price \<Rightarrow> val price = 0)))"
    by (elim conjE)
  with t have e: "\<exists>r. normalize_row plain_float iso_strp ''gibeon-meteorite'' ?row = Inr r
      \<and> r \<noteq> None"
    unfolding price using nz by auto
  from at a b c t d e show ?thesis by (elim conjE) (intro conjI)
qed

text \<open>C8 as the claim states it fails: with the full table, a run whose only listing is
  rejected by its ruleset raises \<open>ValueError\<close>; and with the empty table the error
  comes after the merged table has been written, not before the processing starts.\<close>

theorem unclassifiable_listing_aborts_counterexample:
  "main MATERIAL_CONFIG plain_float iso_strp
      [(''gibeon.csv'', [[''title'' \<mapsto> Some ''Quartz'', ''price'' \<mapsto> Some ''5'']])]
     = \<lparr>saved = Some [], returned = Inl ValueError\<rparr>
   \<and> main [] plain_float iso_strp
      [(''gibeon.csv'', [[''title'' \<mapsto> Some ''Gibeon 5g'', ''price'' \<mapsto> Some ''5'']])]
     = \<lparr>saved = Some [], returned = Inl ValueError\<rparr>"
proof
  show "main MATERIAL_CONFIG plain_float iso_strp
      [(''gibeon.csv'', [[''title'' \<mapsto> Some ''Quartz'', ''price'' \<mapsto> Some ''5'']])]
     = \<lparr>saved = Some [], returned = Inl ValueError\<rparr>"
    by (simp add: main_def filter_all_def filter_file_def gibeon_key gibeon_rules
        filter_row_def initial_state_def get_title_def lower_def lower_char_def
        char_of_def bit_0 Let_def)
  show "main [] plain_float iso_strp
      [(''gibeon.csv'', [[''title'' \<mapsto> Some ''Gibeon 5g'', ''price'' \<mapsto> Some ''5'']])]
     = \<lparr>saved = Some [], returned = Inl ValueError\<rparr>"
    by (rule main_empty_cfg_run)
qed

subsection \<open>C9: a second pass admits nothing\<close>

text \<open>
  C9. Running the filtering loop a second time over the same files, from the state the
  first pass left, does not raise and changes neither \<open>seen_titles\<close> nor the filtered
  rows. For one ruleset: a second pass over the same rows keeps none of them and drops
  them all. The first pass returns whenever the title cell of every row holds a text.
\<close>

theorem second_pass_admits_nothing:
  "(all_titled files \<longrightarrow> (\<exists>st1. filter_files cfg st files = Inr st1))
   \<and> (\<forall>st1. filter_files cfg st files = Inr st1 \<longrightarrow>
         (\<exists>st2. filter_files cfg st1 files = Inr st2
            \<and> seen_titles st2 = seen_titles st1 \<and> filtered_data st2 = filtered_data st1))
   \<and> (list_all titled rows \<longrightarrow>
         (\<exists>st1 kept1 dropped1. filter_rows slug fn (st, kept, dropped) rows
            = Inr (st1, kept1, dropped1)))
   \<and> (\<forall>st1 kept1 dropped1.
         filter_rows slug fn (st, kept, dropped) rows = Inr (st1, kept1, dropped1) \<longrightarrow>
         (\<exists>st2. filter_rows slug' fn (st1, 0, 0) rows = Inr (st2, 0, length rows)
            \<and> seen_titles st2 = seen_titles st1 \<and> filtered_data st2 = filtered_data st1))"
proof (intro conjI allI impI)
  assume "all_titled files"
  then show "\<exists>st1. filter_files cfg st files = Inr st1" by (rule filter_files_titled)
next
  fix st1 assume s1: "filter_files cfg st files = Inr st1"
  from filter_files_settles [OF s1] have settled: "\<forall>fl \<in> set files. settled cfg st1 fl" by simp
  from filter_files_again [OF s1, of st1]
  have "\<exists>st2. filter_files cfg st1 files = Inr st2" .
  then obtain st2 where s2: "filter_files cfg st1 files = Inr st2" ..
  from filter_files_settled [OF settled s2] s2
  show "\<exists>st2. filter_files cfg st1 files = Inr st2
       \<and> seen_titles st2 = seen_titles st1 \<and> filtered_data st2 = filtered_data st1"
    by blast
next
  assume "list_all titled rows"
  from filter_rows_titled [OF this, of slug fn "(st, kept, dropped)"]
  obtain acc' where "filter_rows slug fn (st, kept, dropped) rows = Inr acc'" by blast
  then show "\<exists>st1 kept1 dropped1. filter_rows slug fn (st, kept, dropped) rows
            = Inr (st1, kept1, dropped1)"
    by (cases acc') simp
next
  fix st1 kept1 dropped1
  assume p1: "filter_rows slug fn (st, kept, dropped) rows = Inr (st1, kept1, dropped1)"
  from filter_rows_Inr_titled [OF p1] have titled: "list_all titled rows" .
  from filter_rows_titled [OF titled, of slug' fn "(st1, 0, 0)"]
  obtain st2 kept2 dropped2
    where p2: "filter_rows slug' fn (st1, 0, 0) rows = Inr (st2, kept2, dropped2)"
    by (metis prod_cases3)
  from filter_rows_seen [OF p1]
  have "\<forall>row \<in> set rows. passes fn row \<longrightarrow> title_key row \<in> seen_titles st1" by auto
  from filter_rows_settled [OF this p2]
  have same: "seen_titles st2 = seen_titles st1" "filtered_data st2 = filtered_data st1"
    "kept2 = 0"
    by simp_all
  from filter_rows_counts [OF p2] same have "dropped2 = length rows" by simp
  with p2 same
  show "\<exists>st2. filter_rows slug' fn (st1, 0, 0) rows = Inr (st2, 0, length rows)
       \<and> seen_titles st2 = seen_titles st1 \<and> filtered_data st2 = filtered_data st1"
    by blast
qed

text \<open>The theorem at one file of two listings with the same title: the first pass keeps
  one listing, the second pass over the same rows keeps none.\<close>

theorem second_pass_admits_nothing_witness:
  "list_all titled [[''title'' \<mapsto> Some ''Gibeon 5g''], [''title'' \<mapsto> Some ''gibeon 5G'']]
   \<and> (\<exists>st1. filter_rows ''gibeon-meteorite'' (\<lambda>t. contains t ''gibeon'') (initial_state, 0, 0)
          [[''title'' \<mapsto> Some ''Gibeon 5g''], [''title'' \<mapsto> Some ''gibeon 5G'']]
        = Inr (st1, 1, 1)
      \<and> (\<exists>st2. filter_rows ''gibeon-meteorite'' (\<lambda>t. contains t ''gibeon'') (st1, 0, 0)
            [[''title'' \<mapsto> Some ''Gibeon 5g''], [''title'' \<mapsto> Some ''gibeon 5G'']]
          = Inr (st2, 0, 2)
        \<and> seen_titles st2 = seen_titles st1 \<and> filtered_data st2 = filtered_data st1))
   \<and> all_titled [(''gibeon.csv'', [[''title'' \<mapsto> Some ''Gibeon 5g'']])]
   \<and> (\<exists>st1 st2. filter_files MATERIAL_CONFIG initial_state
          [(''gibeon.csv'', [[''title'' \<mapsto> Some ''Gibeon 5g'']])] = Inr st1
      \<and> filter_files MATERIAL_CONFIG st1
          [(''gibeon.csv'', [[''title'' \<mapsto> Some ''Gibeon 5g'']])] = Inr st2
      \<and> seen_titles st2 = seen_titles st1 \<and> filtered_data st2 = filtered_data st1)"
proof -
  let ?rows = "[[''title'' \<mapsto> Some ''Gibeon 5g''], [''title'' \<mapsto> Some ''gibeon 5G'']]"
  let ?files = "[(''gibeon.csv'', [[''title'' \<mapsto> Some ''Gibeon 5g'']])]"
  let ?fn = "\<lambda>t. contains t ''gibeon''"
  note inst = second_pass_admits_nothing
      [where cfg = MATERIAL_CONFIG and st = initial_state and files = ?files and rows = ?rows
         and slug = "''gibeon-meteorite''" and slug' = "''gibeon-meteorite''" and fn = ?fn
         and kept = 0 and dropped = 0]
  have t: "list_all titled ?rows" by (simp add: titled_def get_title_def)
  have at: "all_titled ?files" by (simp add: all_titled_def titled_def get_title_def)
  from inst have "list_all titled ?rows \<longrightarrow>
         (\<exists>st1 kept1 dropped1. filter_rows ''gibeon-meteorite'' ?fn (initial_state, 0, 0) ?rows
            = Inr (st1, kept1, dropped1))" by (elim conjE)
  with t obtain st1 kept1 dropped1
    where p1: "filter_rows ''gibeon-meteorite'' ?fn (initial_state, 0, 0) ?rows
            = Inr (st1, kept1, dropped1)" by blast
  then have k: "kept1 = 1" "dropped1 = 1"
    by (auto simp: filter_row_def get_title_def lower_def lower_char_def char_of_def bit_0
        initial_state_def Let_def)
  from inst have "\<forall>st1 kept1 dropped1.
         filter_rows ''gibeon-meteorite'' ?fn (initial_state, 0, 0) ?rows
           = Inr (st1, kept1, dropped1) \<longrightarrow>
         (\<exists>st2. filter_rows ''gibeon-meteorite'' ?fn (st1, 0, 0) ?rows = Inr (st2, 0, length ?rows)
            \<and> seen_titles st2 = seen_titles st1 \<and> filtered_data st2 = filtered_data st1)"
    by (elim conjE)
  with p1 have "\<exists>st2. filter_rows ''gibeon-meteorite'' ?fn (st1, 0, 0) ?rows
            = Inr (st2, 0, length ?rows)
            \<and> seen_titles st2 = seen_titles st1 \<and> filtered_data st2 = filtered_data st1"
    by blast
  with p1 k have a: "\<exists>st1. filter_rows ''gibeon-meteorite'' ?fn (initial_state, 0, 0) ?rows
        = Inr (st1, 1, 1)
      \<and> (\<exists>st2. filter_rows ''gibeon-meteorite'' ?fn (st1, 0, 0) ?rows = Inr (st2, 0, 2)
        \<and> seen_titles st2 = seen_titles st1 \<and> filtered_data st2 = filtered_data st1)"
    by auto
  from inst have "all_titled ?files \<longrightarrow>
      (\<exists>st1. filter_files MATERIAL_CONFIG initial_state ?files = Inr st1)" by (elim conjE)
  with at obtain s1 where f1: "filter_files MATERIAL_CONFIG initial_state ?files = Inr s1"
    by blast
  from inst have "\<forall>st1. filter_files MATERIAL_CONFIG initial_state ?files = Inr st1 \<longrightarrow>
         (\<exists>st2. filter_files MATERIAL_CONFIG st1 ?files = Inr st2
            \<and> seen_titles st2 = seen_titles st1 \<and> filtered_data st2 = filtered_data st1)"
    by (elim conjE)
  with f1 have b: "\<exists>st1 st2. filter_files MATERIAL_CONFIG initial_state ?files = Inr st1
      \<and> filter_files MATERIAL_CONFIG st1 ?files = Inr st2
      \<and> seen_titles st2 = seen_titles st1 \<and> filtered_data st2 = filtered_data st1"
    by blast
  from t a at b show ?thesis by (intro conjI)
qed

subsection \<open>C10: outliers are dropped before the aggregation\<close>

text \<open>
  C10. Every record that \<open>load_merged_csv\<close> returns has a price per gram above 0 and
  at most 50000; a row whose price per gram parses to a value that is not positive or
  is above 50000 is skipped. Hence every monthly aggregate is the rounded median of
  prices that all lie in that range, and so does the median. The normalizer itself
  has no such bound: a sale of 999999 for 0.02 g, both within the bounds of their
  extractors, has a price per gram of 49999950.
\<close>

theorem outliers_excluded_before_aggregation:
  "(\<forall>r \<in> set (load_merged_csv float_of rows).
       0 < val (rec_price_per_gram r) \<and> val (rec_price_per_gram r) \<le> 50000)
   \<and> (\<forall>s ppg. row ''price_per_gram'' = Some s \<and> float_of s = Some ppg
          \<and> (val ppg \<le> 0 \<or> 50000 < val ppg) \<longrightarrow> load_row float_of row = None)
   \<and> (\<exists>out. calculate_monthly_medians (load_merged_csv float_of rows) = Inr out
        \<and> (\<forall>a \<in> set out. \<exists>m.
              median (group_prices (load_merged_csv float_of rows) (agg_key a)) = Inr m
            \<and> agg_price_usd a = py_round m 2 \<and> 0 < val m \<and> val m \<le> 50000
            \<and> (\<forall>p \<in> set (group_prices (load_merged_csv float_of rows) (agg_key a)).
                  0 < val p \<and> val p \<le> 50000)))
   \<and> normalize_row plain_float iso_strp ''gibeon-meteorite''
        [''title'' \<mapsto> Some ''0.02g'', ''price'' \<mapsto> Some ''999999'',
         ''date'' \<mapsto> Some ''2020-02-03'']
      = Inr (Some \<lparr>material_slug = ''gibeon-meteorite'', title = Some ''0.02g'',
              price_usd = dbl 999999, sale_date = Some ''2020-02-03'',
              weight_grams = Some (dbl (2 / 100)), price_per_gram = Some (dbl 49999950),
              source = ''WorthPoint''\<rparr>)"
proof (intro conjI)
  let ?recs = "load_merged_csv float_of rows"
  show "\<forall>r \<in> set ?recs. 0 < val (rec_price_per_gram r) \<and> val (rec_price_per_gram r) \<le> 50000"
    using load_merged_csv_bounds by blast
  show "\<forall>s ppg. row ''price_per_gram'' = Some s \<and> float_of s = Some ppg
          \<and> (val ppg \<le> 0 \<or> 50000 < val ppg) \<longrightarrow> load_row float_of row = None"
    using load_row_outlier by blast
  have prices: "\<forall>p \<in> set (group_prices ?recs k). 0 < val p \<and> val p \<le> 50000" for k
  proof
    fix p assume "p \<in> set (group_prices ?recs k)"
    from group_prices_subset [OF this] obtain r where "r \<in> set ?recs" "rec_price_per_gram r = p"
      by blast
    with load_merged_csv_bounds [of r float_of rows] show "0 < val p \<and> val p \<le> 50000" by simp
  qed
  from aggregates_of_groups [of ?recs] obtain out where
    out: "calculate_monthly_medians ?recs = Inr out"
    and each: "\<And>a. a \<in> set out \<Longrightarrow> \<exists>m. median (group_prices ?recs (agg_key a)) = Inr m
           \<and> agg_price_usd a = py_round m 2"
    by (elim exE conjE) (rule that, assumption, blast)
  have "\<forall>a \<in> set out. \<exists>m. median (group_prices ?recs (agg_key a)) = Inr m
            \<and> agg_price_usd a = py_round m 2 \<and> 0 < val m \<and> val m \<le> 50000
            \<and> (\<forall>p \<in> set (group_prices ?recs (agg_key a)). 0 < val p \<and> val p \<le> 50000)"
  proof
    fix a assume "a \<in> set out"
    from each [OF this] obtain m where m: "median (group_prices ?recs (agg_key a)) = Inr m"
      "agg_price_usd a = py_round m 2" by blast
    from median_between [OF m(1) prices] have "0 < val m \<and> val m \<le> 50000" .
    with m prices show "\<exists>m. median (group_prices ?recs (agg_key a)) = Inr m
            \<and> agg_price_usd a = py_round m 2 \<and> 0 < val m \<and> val m \<le> 50000
            \<and> (\<forall>p \<in> set (group_prices ?recs (agg_key a)). 0 < val p \<and> val p \<le> 50000)"
      by blast
  qed
  with out show "\<exists>out. calculate_monthly_medians ?recs = Inr out
        \<and> (\<forall>a \<in> set out. \<exists>m. median (group_prices ?recs (agg_key a)) = Inr m
            \<and> agg_price_usd a = py_round m 2 \<and> 0 < val m \<and> val m \<le> 50000
            \<and> (\<forall>p \<in> set (group_prices ?recs (agg_key a)). 0 < val p \<and> val p \<le> 50000))"
    by blast
qed (rule heavy_price_row_normalized)

text \<open>The theorem at a table of two rows, of which the one with 49999950 is skipped.\<close>

theorem outliers_excluded_before_aggregation_witness:
  "load_merged_csv plain_float
     [[''material_slug'' \<mapsto> ''gibeon-meteorite'', ''price_per_gram'' \<mapsto> ''49999950.0'',
       ''sale_date'' \<mapsto> ''2020-02-03''],
      [''material_slug'' \<mapsto> ''gibeon-meteorite'', ''price_per_gram'' \<mapsto> ''3.0'',
       ''sale_date'' \<mapsto> ''2020-02-13'']]
   = [\<lparr>rec_material_slug = ''gibeon-meteorite'', rec_price_per_gram = dbl 3,
        rec_sale_date = Some ''2020-02-13''\<rparr>]
   \<and> 0 < val (dbl 3) \<and> val (dbl 3) \<le> 50000
   \<and> 50000 < val (dbl 49999950)"
proof -
  let ?big = "[''material_slug'' \<mapsto> ''gibeon-meteorite'', ''price_per_gram'' \<mapsto> ''49999950.0'',
       ''sale_date'' \<mapsto> ''2020-02-03'']"
  let ?ok = "[''material_slug'' \<mapsto> ''gibeon-meteorite'', ''price_per_gram'' \<mapsto> ''3.0'',
       ''sale_date'' \<mapsto> ''2020-02-13'']"
  let ?r = "\<lparr>rec_material_slug = ''gibeon-meteorite'', rec_price_per_gram = dbl 3,
        rec_sale_date = Some ''2020-02-13''\<rparr>"
  note inst = outliers_excluded_before_aggregation
    [where float_of = plain_float and rows = "[?big, ?ok]" and row = ?big]
  have f: "plain_float ''49999950.0'' = Some (dbl 49999950)"
    by (simp add: plain_float_def strip_def is_space_def is_digit_def number_eval)
  have g: "50000 < val (dbl 49999950)" by (simp add: double_eval)
  have "\<forall>s ppg. ?big ''price_per_gram'' = Some s \<and> plain_float s = Some ppg
          \<and> (val ppg \<le> 0 \<or> 50000 < val ppg) \<longrightarrow> load_row plain_float ?big = None"
    using inst by (elim conjE)
  then have "?big ''price_per_gram'' = Some ''49999950.0''
          \<and> plain_float ''49999950.0'' = Some (dbl 49999950)
          \<and> (val (dbl 49999950) \<le> 0 \<or> 50000 < val (dbl 49999950))
          \<longrightarrow> load_row plain_float ?big = None"
    by blast
  then have big: "load_row plain_float ?big = None" using f g by simp
  have ok: "load_row plain_float ?ok = Some ?r"
    by (simp add: load_row_def truthy_def plain_float_def strip_def is_space_def is_digit_def
        number_eval)
  have l: "load_merged_csv plain_float [?big, ?ok] = [?r]"
    using big ok by simp
  have "\<forall>r \<in> set (load_merged_csv plain_float [?big, ?ok]).
       0 < val (rec_price_per_gram r) \<and> val (rec_price_per_gram r) \<le> 50000"
    using inst by (elim conjE)
  then have "0 < val (dbl 3) \<and> val (dbl 3) \<le> 50000" unfolding l by simp
  with l g show ?thesis by (intro conjI) simp_all
qed

end
